theory Spec2Isabelle
  imports Main
begin

section \<open>JavaScript values\<close>

text \<open>
  A JavaScript string is a sequence of UTF-16 code units; a code unit is modelled as a natural
  number (below 65536 in every string the program handles).  String constants of the source are
  written \<open>js ''...''\<close>.
\<close>

type_synonym jschar = nat
type_synonym jsstring = "jschar list"

definition js :: "string \<Rightarrow> jsstring" where
  "js = map of_char"

datatype js_error =
    Error jsstring
  | TypeError
  | InvalidCharacterError
  | InvalidStateError
  | SyntaxError

text \<open>
  Values that \<open>JSON.parse\<close> can produce.  A number is represented by the text that
  \<open>String(n)\<close> gives for it (\<open>"7"\<close>, \<open>"1e+21"\<close>, \<open>"0.5"\<close>, \<open>"Infinity"\<close>): apart from its
  truthiness, this text is all the engine ever reads of a number.  An object is the list of its
  own enumerable properties in enumeration order; none of them is callable.
\<close>

datatype jsval =
    JNull
  | JBool bool
  | JNum jsstring
  | JStr jsstring
  | JArr "jsval list"
  | JObj "(jsstring \<times> jsval) list"

type_synonym jsobj = "(jsstring \<times> jsval) list"

text \<open>
  The order in which an object enumerates its properties: the array indices first (the canonical
  numerals of the integers from 0 to 4294967294), in ascending order, then the other keys in
  the order of their creation.
\<close>

definition is_digit :: "jschar \<Rightarrow> bool" where
  "is_digit c \<longleftrightarrow> 48 \<le> c \<and> c \<le> 57"

definition digits_value :: "jsstring \<Rightarrow> nat" where
  "digits_value s = foldl (\<lambda>n c. 10 * n + (c - 48)) 0 s"

definition is_array_index :: "jsstring \<Rightarrow> bool" where
  "is_array_index k \<longleftrightarrow>
     k \<noteq> [] \<and> list_all is_digit k \<and> (if hd k = 48 then k = [48] else True) \<and>
     digits_value k < 4294967295"

definition comes_before :: "jsstring \<Rightarrow> jsstring \<Rightarrow> bool" where
  "comes_before k k' \<longleftrightarrow>
     is_array_index k \<and> (if is_array_index k' then digits_value k < digits_value k' else True)"

text \<open>
  \<open>data[k] = v\<close> on an object that \<open>{}\<close> created: an existing property keeps its position, a
  new one takes its place in the enumeration order.  The key \<open>__proto__\<close> is no property of
  the object: the assignment reaches the setter of \<open>Object.prototype\<close> and creates nothing.
\<close>

fun obj_put :: "jsobj \<Rightarrow> jsstring \<Rightarrow> jsval \<Rightarrow> jsobj" where
  "obj_put [] k v = [(k, v)]"
| "obj_put ((k', v') # kvs) k v =
     (if k' = k then (k, v) # kvs
      else if comes_before k k' then (k, v) # (k', v') # kvs
      else (k', v') # obj_put kvs k v)"

definition obj_set :: "jsobj \<Rightarrow> jsstring \<Rightarrow> jsval \<Rightarrow> jsobj" where
  "obj_set d k v = (if k = js ''__proto__'' then d else obj_put d k v)"

definition obj_get :: "jsobj \<Rightarrow> jsstring \<Rightarrow> jsval option" where
  "obj_get d k = map_of d k"

text \<open>
  The platform services the form engine calls but does not define: \<open>String.prototype.toUpperCase\<close>
  (the Unicode case table), the three calendar fields of \<open>new Date()\<close> (full year, zero-based
  month, day of month), \<open>Date\<close> parsing to a time value (\<open>None\<close> for an invalid date), the
  time value of \<open>new Date()\<close>, the signature library's Z85 decoder applied to a value (\<open>None\<close>
  when it throws, otherwise the state of the decoded signature), \<open>atob\<close> and \<open>JSON.parse\<close>
  (\<open>None\<close> when they throw).
\<close>

record platform =
  toUpperCase :: "jsstring \<Rightarrow> jsstring"
  clock :: "nat \<times> nat \<times> nat"
  parseDate :: "jsstring \<Rightarrow> int option"
  nowTime :: int
  z85Decode :: "jsval \<Rightarrow> jsstring option option"
  atob :: "jsstring \<Rightarrow> jsstring option"
  JSON_parse :: "jsstring \<Rightarrow> jsval option"

section \<open>Decimal and padded numerals\<close>

fun decimal :: "nat \<Rightarrow> jsstring" where
  "decimal n = (if n < 10 then [48 + n] else decimal (n div 10) @ [48 + n mod 10])"

declare decimal.simps [simp del]

text \<open>\<open>s.padStart(2, "0")\<close>\<close>

definition padStart2 :: "jsstring \<Rightarrow> jsstring" where
  "padStart2 s = replicate (2 - length s) 48 @ s"

text \<open>\<open>getTodayYYYYMMDD\<close> (form.ts, lines 24-30 and 165-171).\<close>

definition getTodayYYYYMMDD :: "platform \<Rightarrow> jsstring" where
  "getTodayYYYYMMDD pf =
     (case clock pf of (year, month, day) \<Rightarrow>
        decimal year @ js ''-'' @ padStart2 (decimal (month + 1)) @ js ''-'' @ padStart2 (decimal day))"

section \<open>Form controls\<close>

text \<open>
  The control kinds the engine distinguishes: the \<open>input\<close> elements whose \<open>type\<close> is
  \<open>"checkbox"\<close>, \<open>"radio"\<close>, \<open>"text"\<close>, \<open>"email"\<close> (without \<open>multiple\<close>), \<open>"tel"\<close> or
  \<open>"date"\<close>, a \<open>TEXTAREA\<close> element (whose \<open>type\<close> is \<open>"textarea"\<close>), and \<open>OtherKind\<close>: an
  \<open>input\<close> of another type whose \<open>value\<close> is its \<open>value\<close> attribute (\<open>hidden\<close>, \<open>submit\<close>,
  \<open>reset\<close>, \<open>button\<close>).  The other listed elements are not modelled: an \<open>input\<close> type with
  a value sanitization of its own (\<open>number\<close>, \<open>url\<close>, \<open>time\<close>, \<open>color\<close>, \<open>range\<close>, \<open>file\<close>
  and the like), and \<open>select\<close>, which has a \<open>length\<close> property, so that the engine's test
  \<open>"length" in elements\<close> would take it for a list of controls.

  \<open>el_value\<close> is what the \<open>value\<close> property reads, \<open>el_checked\<close> what \<open>checked\<close> reads.
\<close>

datatype kind = Checkbox | Radio | Text | Email | Tel | Date | Textarea | OtherKind

record control =
  el_id :: jsstring
  el_name :: jsstring
  el_kind :: kind
  el_value :: jsstring
  el_checked :: bool
  el_disabled :: bool
  el_invalid :: bool
  el_ancestors :: "jsstring list"


section \<open>Looking controls up\<close>

text \<open>
  \<open>form.elements\<close> is the list of the form's controls in document order; a control is referred to
  by its position in that list.  \<open>indices P els\<close> are the positions of the controls satisfying
  \<open>P\<close>, in document order.
\<close>

fun indices_from :: "nat \<Rightarrow> (control \<Rightarrow> bool) \<Rightarrow> control list \<Rightarrow> nat list" where
  "indices_from n P [] = []"
| "indices_from n P (e # es) =
     (if P e then n # indices_from (Suc n) P es else indices_from (Suc n) P es)"

definition indices :: "(control \<Rightarrow> bool) \<Rightarrow> control list \<Rightarrow> nat list" where
  "indices P els = indices_from 0 P els"

definition matches :: "jsstring \<Rightarrow> control \<Rightarrow> bool" where
  "matches n e \<longleftrightarrow> el_id e = n \<or> el_name e = n"

text \<open>
  \<open>form.elements.namedItem(n)\<close>: \<open>null\<close> when no control has id or name \<open>n\<close>, the control when
  exactly one has, and otherwise a \<open>RadioNodeList\<close> of all of them.
\<close>

datatype named = Single nat | Group "nat list"

definition namedItem :: "control list \<Rightarrow> jsstring \<Rightarrow> named option" where
  "namedItem els n =
     (if n = [] then None
      else case indices (matches n) els of
             [] \<Rightarrow> None
           | [i] \<Rightarrow> Some (Single i)
           | is \<Rightarrow> Some (Group is))"

text \<open>\<open>"length" in x ? Array.from(x) : [x]\<close>\<close>

fun as_list :: "named \<Rightarrow> nat list" where
  "as_list (Single i) = [i]"
| "as_list (Group is) = is"

text \<open>\<open>document.getElementById(i)\<close>, for the controls of the form: the first one in document order.\<close>

definition getElementById :: "control list \<Rightarrow> jsstring \<Rightarrow> nat option" where
  "getElementById els i =
     (case indices (\<lambda>e. el_id e = i) els of [] \<Rightarrow> None | n # _ \<Rightarrow> Some n)"

section \<open>String helpers\<close>

definition endsWith :: "jsstring \<Rightarrow> jsstring \<Rightarrow> bool" where
  "endsWith s suf \<longleftrightarrow> length suf \<le> length s \<and> drop (length s - length suf) s = suf"

text \<open>\<open>s.replace(pat, rep)\<close> with a string pattern: only the first occurrence is replaced.\<close>

fun replaceFirst :: "jsstring \<Rightarrow> jsstring \<Rightarrow> jsstring \<Rightarrow> jsstring" where
  "replaceFirst pat rep [] = (if pat = [] then rep else [])"
| "replaceFirst pat rep (c # cs) =
     (if take (length pat) (c # cs) = pat then rep @ drop (length pat) (c # cs)
      else c # replaceFirst pat rep cs)"

section \<open>The signature manager\<close>

text \<open>
  The state of a \<open>SignatureManager\<close> as the form engine sees it: \<open>None\<close> when the signature has
  no stroke (\<open>isEmpty()\<close>, \<open>serialize()\<close> is \<open>null\<close>), \<open>Some z\<close> when it has, \<open>z\<close> being its Z85
  text.  The module variable \<open>signatureManager\<close> is \<open>null\<close> until \<open>init\<close> constructs it.
\<close>

type_synonym signature_manager = "jsstring option"

section \<open>serializeForm\<close>

text \<open>The \<open>"text"\<close>, \<open>"email"\<close>, \<open>"tel"\<close> case of the switch (form.ts, lines 87-110).\<close>

definition serialize_text :: "platform \<Rightarrow> control list \<Rightarrow> control \<Rightarrow> jsobj \<Rightarrow> jsobj" where
  "serialize_text pf els el data =
     (if endsWith (el_name el) (js ''_other'') then
        (let baseName = replaceFirst (js ''_other'') [] (el_name el) in
         case namedItem els baseName of
           None \<Rightarrow> data
         | Some controls \<Rightarrow>
             (case filter (\<lambda>r. el_value (els ! r) = js ''OTHER'') (as_list controls) of
                [] \<Rightarrow> data
              | otherControl # _ \<Rightarrow>
                  if el_checked (els ! otherControl) \<and> el_value el \<noteq> []
                  then obj_set data (el_name el) (JStr (toUpperCase pf (el_value el)))
                  else data))
      else if el_value el \<noteq> [] then obj_set data (el_name el) (JStr (toUpperCase pf (el_value el)))
      else data)"

text \<open>The \<open>"checkbox"\<close> case (lines 42-79); \<open>processed\<close> is \<open>processedCheckboxGroups\<close>.\<close>

definition serialize_checkbox ::
  "bool \<Rightarrow> control list \<Rightarrow> control \<Rightarrow> jsstring list \<times> jsobj \<Rightarrow> jsstring list \<times> jsobj" where
  "serialize_checkbox includeDefaults els el st =
     (case st of (processed, data) \<Rightarrow>
        let groupName = el_name el in
        if groupName \<in> set processed then st
        else case namedItem els groupName of
               None \<Rightarrow> st
             | Some (Single c) \<Rightarrow>
                 (groupName # processed,
                  if groupName = js ''q3a_sameAs2'' then
                    (if \<not> el_checked (els ! c) then obj_set data groupName (JBool False)
                     else if includeDefaults then obj_set data groupName (JBool True)
                     else data)
                  else obj_set data groupName (JBool (el_checked (els ! c))))
             | Some (Group cs) \<Rightarrow>
                 (let checkedValues =
                        map (\<lambda>c. el_value (els ! c)) (filter (\<lambda>c. el_checked (els ! c)) cs)
                  in (groupName # processed,
                      if checkedValues \<noteq> [] then obj_set data groupName (JArr (map JStr checkedValues))
                      else data)))"

text \<open>The \<open>"date"\<close> case (lines 111-122).\<close>

definition serialize_date :: "jsstring \<Rightarrow> control \<Rightarrow> jsobj \<Rightarrow> jsobj" where
  "serialize_date todayString el data =
     (if el_name el = js ''certificationDate'' then
        (if el_value el \<noteq> [] \<and> el_value el \<noteq> todayString
         then obj_set data (el_name el) (JStr (el_value el)) else data)
      else if el_value el \<noteq> [] then obj_set data (el_name el) (JStr (el_value el))
      else data)"

text \<open>One iteration of the loop over \<open>form.elements\<close> (lines 37-135).\<close>

definition serialize_element ::
  "platform \<Rightarrow> bool \<Rightarrow> jsstring \<Rightarrow> control list \<Rightarrow> control \<Rightarrow>
     jsstring list \<times> jsobj \<Rightarrow> jsstring list \<times> jsobj" where
  "serialize_element pf includeDefaults todayString els el st =
     (if el_name el = [] \<or> el_disabled el then st
      else case el_kind el of
        Checkbox \<Rightarrow> serialize_checkbox includeDefaults els el st
      | Radio \<Rightarrow>
          (if el_checked el \<and> el_value el \<noteq> []
           then (fst st, obj_set (snd st) (el_name el) (JStr (el_value el))) else st)
      | Text \<Rightarrow> (fst st, serialize_text pf els el (snd st))
      | Email \<Rightarrow> (fst st, serialize_text pf els el (snd st))
      | Tel \<Rightarrow> (fst st, serialize_text pf els el (snd st))
      | Date \<Rightarrow> (fst st, serialize_date todayString el (snd st))
      | Textarea \<Rightarrow>
          (if el_value el \<noteq> []
           then (fst st, obj_set (snd st) (el_name el) (JStr (toUpperCase pf (el_value el)))) else st)
      | OtherKind \<Rightarrow>
          (if el_value el \<noteq> []
           then (fst st, obj_set (snd st) (el_name el) (JStr (el_value el))) else st))"

text \<open>The signature is added last (lines 137-143).\<close>

definition add_signature :: "signature_manager option \<Rightarrow> jsobj \<Rightarrow> jsobj" where
  "add_signature sm data =
     (case sm of
        None \<Rightarrow> data
      | Some None \<Rightarrow> data
      | Some (Some signature) \<Rightarrow>
          if signature \<noteq> [] then obj_set data (js ''signature'') (JStr signature) else data)"

text \<open>
  \<open>serializeForm(includeDefaults)\<close> (lines 18-146).  The last argument is the result of
  \<open>document.getElementById("nfa-form")\<close>: \<open>None\<close> when the page has no such element, otherwise
  the form's controls.
\<close>

definition serializeForm ::
  "platform \<Rightarrow> bool \<Rightarrow> signature_manager option \<Rightarrow> control list option \<Rightarrow> js_error + jsobj" where
  "serializeForm pf includeDefaults sm form =
     (case form of
        None \<Rightarrow> Inl (Error (js ''Form not found''))
      | Some els \<Rightarrow>
          Inr (add_signature sm
                 (snd (fold (serialize_element pf includeDefaults (getTodayYYYYMMDD pf) els) els ([], [])))))"


section \<open>JSON text and base64\<close>

fun join :: "jsstring \<Rightarrow> jsstring list \<Rightarrow> jsstring" where
  "join sep [] = []"
| "join sep [x] = x"
| "join sep (x # y # ys) = x @ sep @ join sep (y # ys)"

definition hex_digit :: "nat \<Rightarrow> jschar" where
  "hex_digit n = (if n < 10 then 48 + n else 87 + n)"

definition unicode_escape :: "jschar \<Rightarrow> jsstring" where
  "unicode_escape c =
     [92, 117, hex_digit (c div 4096), hex_digit (c div 256 mod 16),
      hex_digit (c div 16 mod 16), hex_digit (c mod 16)]"

definition is_high_surrogate :: "jschar \<Rightarrow> bool" where
  "is_high_surrogate c \<longleftrightarrow> 55296 \<le> c \<and> c \<le> 56319"

definition is_low_surrogate :: "jschar \<Rightarrow> bool" where
  "is_low_surrogate c \<longleftrightarrow> 56320 \<le> c \<and> c \<le> 57343"

text \<open>
  The body of a JSON string literal as \<open>JSON.stringify\<close> writes it: the short escapes, \<open>\uXXXX\<close>
  for the other control characters and for lone surrogates, every other code unit as it is.
\<close>

fun quote_units :: "jsstring \<Rightarrow> jsstring" where
  "quote_units [] = []"
| "quote_units (c # cs) =
     (if c = 8 then [92, 98] @ quote_units cs
      else if c = 9 then [92, 116] @ quote_units cs
      else if c = 10 then [92, 110] @ quote_units cs
      else if c = 12 then [92, 102] @ quote_units cs
      else if c = 13 then [92, 114] @ quote_units cs
      else if c = 34 then [92, 34] @ quote_units cs
      else if c = 92 then [92, 92] @ quote_units cs
      else if c < 32 then unicode_escape c @ quote_units cs
      else if is_high_surrogate c then
        (case cs of
           [] \<Rightarrow> unicode_escape c
         | d # ds \<Rightarrow>
             if is_low_surrogate d then c # d # quote_units ds
             else unicode_escape c @ quote_units cs)
      else if is_low_surrogate c then unicode_escape c @ quote_units cs
      else c # quote_units cs)"

definition quote :: "jsstring \<Rightarrow> jsstring" where
  "quote s = [34] @ quote_units s @ [34]"

text \<open>\<open>JSON.stringify\<close> writes a finite number as \<open>String\<close> does, and \<open>null\<close> for the others.\<close>

definition number_json :: "jsstring \<Rightarrow> jsstring" where
  "number_json n =
     (if n = js ''Infinity'' \<or> n = js ''-Infinity'' \<or> n = js ''NaN'' then js ''null'' else n)"

fun JSON_stringify :: "jsval \<Rightarrow> jsstring" where
  "JSON_stringify JNull = js ''null''"
| "JSON_stringify (JBool b) = (if b then js ''true'' else js ''false'')"
| "JSON_stringify (JNum n) = number_json n"
| "JSON_stringify (JStr s) = quote s"
| "JSON_stringify (JArr xs) = js ''['' @ join (js '','') (map JSON_stringify xs) @ js '']''"
| "JSON_stringify (JObj kvs) =
     js ''{'' @ join (js '','') (map (\<lambda>(k, v). quote k @ js '':'' @ JSON_stringify v) kvs) @ js ''}''"

definition base64_alphabet :: jsstring where
  "base64_alphabet = js ''ABCDEFGHIJKLMNOPQRSTUVWXYZabcdefghijklmnopqrstuvwxyz0123456789+/''"

definition b64 :: "nat \<Rightarrow> jschar" where
  "b64 n = base64_alphabet ! n"

fun base64_encode :: "nat list \<Rightarrow> jsstring" where
  "base64_encode [] = []"
| "base64_encode [a] = [b64 (a div 4), b64 (a mod 4 * 16), 61, 61]"
| "base64_encode [a, b] = [b64 (a div 4), b64 (a mod 4 * 16 + b div 16), b64 (b mod 16 * 4), 61]"
| "base64_encode (a # b # c # rest) =
     [b64 (a div 4), b64 (a mod 4 * 16 + b div 16), b64 (b mod 16 * 4 + c div 64), b64 (c mod 64)]
     @ base64_encode rest"

text \<open>
  \<open>btoa\<close> takes a string of code units up to 255 and throws \<open>InvalidCharacterError\<close> on any
  other string.
\<close>

definition btoa :: "jsstring \<Rightarrow> js_error + jsstring" where
  "btoa s = (if list_all (\<lambda>c. c \<le> 255) s then Inr (base64_encode s) else Inl InvalidCharacterError)"

text \<open>\<open>s.replace(/a/g, b)\<close> for single characters, and \<open>s.replace(/=+$/, "")\<close>.\<close>

definition replaceAllChar :: "jschar \<Rightarrow> jschar \<Rightarrow> jsstring \<Rightarrow> jsstring" where
  "replaceAllChar a b s = map (\<lambda>c. if c = a then b else c) s"

definition stripTrailingEquals :: "jsstring \<Rightarrow> jsstring" where
  "stripTrailingEquals s = rev (dropWhile (\<lambda>c. c = 61) (rev s))"

section \<open>The page\<close>

text \<open>
  A URL is its path with the query (\<open>location.pathname + location.search\<close>) and its fragment,
  empty when there is none.  The page is the form's controls, the module's signature manager,
  the ids of the elements that are not controls, the current session history entry's URL and the
  entries before it, the messages of \<open>console.error\<close>, whether the timer of the debounced
  \<open>saveStateToHash\<close> is armed, and the \<open>textContent\<close> of the elements that hold validation
  messages, by id.
\<close>

record url =
  url_path :: jsstring
  url_fragment :: jsstring

record page =
  elements :: "control list"
  signatureManager :: "signature_manager option"
  containers :: "jsstring list"
  location :: url
  history_back :: "url list"
  console :: "jsstring list"
  save_pending :: bool
  error_text :: "jsstring \<Rightarrow> jsstring"

text \<open>
  The result of a statement sequence that may throw: the state it returned with, or the
  exception and the state at the throw.
\<close>

datatype 'a outcome = Ok 'a | Throw js_error 'a

fun state_of :: "'a outcome \<Rightarrow> 'a" where
  "state_of (Ok s) = s"
| "state_of (Throw e s) = s"

fun returns :: "'a outcome \<Rightarrow> bool" where
  "returns (Ok s) = True"
| "returns (Throw e s) = False"

text \<open>\<open>window.location.hash\<close>\<close>

definition location_hash :: "page \<Rightarrow> jsstring" where
  "location_hash p =
     (if url_fragment (location p) = [] then [] else 35 # url_fragment (location p))"

text \<open>
  \<open>history.replaceState(null, "", u)\<close> for the two URLs the engine passes: \<open>"#" + fragment\<close>
  and \<open>location.pathname + location.search\<close>.  Only the current entry changes.
\<close>

definition replaceState_fragment :: "jsstring \<Rightarrow> page \<Rightarrow> page" where
  "replaceState_fragment f p = p\<lparr>location := (location p)\<lparr>url_fragment := f\<rparr>\<rparr>"

text \<open>\<open>saveStateToHash\<close> (lines 368-380).\<close>

definition urlsafe :: "jsstring \<Rightarrow> jsstring" where
  "urlsafe b = stripTrailingEquals (replaceAllChar 47 95 (replaceAllChar 43 45 b))"

definition saveStateToHash :: "platform \<Rightarrow> page \<Rightarrow> page outcome" where
  "saveStateToHash pf p =
     (case serializeForm pf False (signatureManager p) (Some (elements p)) of
        Inl e \<Rightarrow> Throw e p
      | Inr data \<Rightarrow>
          if data \<noteq> [] then
            (case btoa (JSON_stringify (JObj data)) of
               Inl e \<Rightarrow> Throw e p
             | Inr base64String \<Rightarrow> Ok (replaceState_fragment (urlsafe base64String) p))
          else Ok (replaceState_fragment [] p))"

section \<open>Writing to controls\<close>

definition update_el :: "nat \<Rightarrow> (control \<Rightarrow> control) \<Rightarrow> control list \<Rightarrow> control list" where
  "update_el i f els = els[i := f (els ! i)]"

text \<open>
  \<open>el.checked = b\<close>.  The radio button group of a radio is the radios of the form with the same
  non-empty name; checking a radio unchecks the others of its group.
\<close>

definition set_checked :: "nat \<Rightarrow> bool \<Rightarrow> control list \<Rightarrow> control list" where
  "set_checked i b els =
     (if b \<and> el_kind (els ! i) = Radio \<and> el_name (els ! i) \<noteq> [] then
        update_el i (\<lambda>e. e\<lparr>el_checked := True\<rparr>)
          (map (\<lambda>e. if el_kind e = Radio \<and> el_name e = el_name (els ! i)
                     then e\<lparr>el_checked := False\<rparr> else e) els)
      else update_el i (\<lambda>e. e\<lparr>el_checked := b\<rparr>) els)"

text \<open>
  \<open>ToString\<close> of a parsed JSON value, \<open>None\<close> when it throws a \<open>TypeError\<close>.  An array is
  joined by \<open>Array.prototype.join\<close>, which writes nothing for \<open>null\<close> and the \<open>ToString\<close> of
  every other element.  An object goes through \<open>toString\<close> and \<open>valueOf\<close>: with no property
  \<open>toString\<close> of its own it inherits the one that answers \<open>[object Object]\<close>; with one, which
  is not callable, it is left with \<open>valueOf\<close>, which is its own and not callable or the
  inherited one that answers the object itself, and the conversion throws.
\<close>

fun ToString :: "jsval \<Rightarrow> jsstring option"
  and element_strings :: "jsval list \<Rightarrow> jsstring list option" where
  "ToString JNull = Some (js ''null'')"
| "ToString (JBool b) = Some (if b then js ''true'' else js ''false'')"
| "ToString (JNum n) = Some n"
| "ToString (JStr s) = Some s"
| "ToString (JArr xs) = map_option (join (js '','')) (element_strings xs)"
| "ToString (JObj kvs) =
     (if map_of kvs (js ''toString'') = None then Some (js ''[object Object]'') else None)"
| "element_strings [] = Some []"
| "element_strings (x # xs) =
     (case (if x = JNull then Some [] else ToString x) of
        None \<Rightarrow> None
      | Some s \<Rightarrow> map_option ((#) s) (element_strings xs))"

text \<open>
  The string that \<open>el.value = v\<close> hands to the setter of an \<open>input\<close> or a \<open>textarea\<close>:
  \<open>null\<close> becomes the empty string, any other value its \<open>ToString\<close>.
\<close>

definition toDOMString :: "jsval \<Rightarrow> jsstring option" where
  "toDOMString v = (if v = JNull then Some [] else ToString v)"

text \<open>
  What the control then holds, by the value sanitization algorithm of its type in the HTML
  standard: \<open>text\<close> and \<open>tel\<close> drop the line breaks; \<open>email\<close> drops them and then the ASCII
  white space at both ends; \<open>date\<close> keeps a valid date string (\<open>YYYY-MM-DD\<close> with a year of
  four or more digits that is not zero, and a day that the month has) and holds the empty
  string instead of any other; a \<open>textarea\<close> reads its value with every \<open>CR LF\<close> and every
  other \<open>CR\<close> replaced by \<open>LF\<close>; a checkbox, a radio and an \<open>input\<close> of the other kind keep
  the string.
\<close>

definition strip_newlines :: "jsstring \<Rightarrow> jsstring" where
  "strip_newlines s = filter (\<lambda>c. c \<noteq> 10 \<and> c \<noteq> 13) s"

definition is_ascii_whitespace :: "jschar \<Rightarrow> bool" where
  "is_ascii_whitespace c \<longleftrightarrow> c = 9 \<or> c = 10 \<or> c = 12 \<or> c = 13 \<or> c = 32"

definition strip_whitespace :: "jsstring \<Rightarrow> jsstring" where
  "strip_whitespace s =
     rev (dropWhile is_ascii_whitespace (rev (dropWhile is_ascii_whitespace s)))"

fun normalize_newlines :: "jsstring \<Rightarrow> jsstring" where
  "normalize_newlines [] = []"
| "normalize_newlines [c] = (if c = 13 then [10] else [c])"
| "normalize_newlines (c # d # cs) =
     (if c = 13 then
        (if d = 10 then 10 # normalize_newlines cs else 10 # normalize_newlines (d # cs))
      else c # normalize_newlines (d # cs))"

definition is_leap_year :: "nat \<Rightarrow> bool" where
  "is_leap_year y \<longleftrightarrow> y mod 400 = 0 \<or> (y mod 4 = 0 \<and> 0 < y mod 100)"

definition days_in_month :: "nat \<Rightarrow> nat \<Rightarrow> nat" where
  "days_in_month y m =
     (if m = 2 then (if is_leap_year y then 29 else 28)
      else if m = 4 \<or> m = 6 \<or> m = 9 \<or> m = 11 then 30 else 31)"

definition valid_date_string :: "jsstring \<Rightarrow> bool" where
  "valid_date_string s \<longleftrightarrow>
     (let n = length s;
          year = take (n - 6) s; month = take 2 (drop (n - 5) s); day = drop (n - 2) s
      in 10 \<le> n \<and> list_all is_digit year \<and> s ! (n - 6) = 45 \<and> list_all is_digit month \<and>
         s ! (n - 3) = 45 \<and> list_all is_digit day \<and>
         0 < digits_value year \<and> 1 \<le> digits_value month \<and> digits_value month \<le> 12 \<and>
         1 \<le> digits_value day \<and>
         digits_value day \<le> days_in_month (digits_value year) (digits_value month))"

fun sanitize :: "kind \<Rightarrow> jsstring \<Rightarrow> jsstring" where
  "sanitize Text v = strip_newlines v"
| "sanitize Tel v = strip_newlines v"
| "sanitize Email v = strip_whitespace (strip_newlines v)"
| "sanitize Date v = (if valid_date_string v then v else [])"
| "sanitize Textarea v = normalize_newlines v"
| "sanitize Checkbox v = v"
| "sanitize Radio v = v"
| "sanitize OtherKind v = v"

text \<open>\<open>el.value = v\<close> for a string \<open>v\<close>.\<close>

definition store_value :: "jsstring \<Rightarrow> control \<Rightarrow> control" where
  "store_value v e = e\<lparr>el_value := sanitize (el_kind e) v\<rparr>"

text \<open>A number is falsy when it is zero (\<open>0\<close> and \<open>-0\<close> both read \<open>"0"\<close>) or \<open>NaN\<close>.\<close>

fun truthy :: "jsval \<Rightarrow> bool" where
  "truthy JNull = False"
| "truthy (JBool b) = b"
| "truthy (JNum n) = (n \<noteq> js ''0'' \<and> n \<noteq> js ''NaN'')"
| "truthy (JStr s) = (s \<noteq> [])"
| "truthy (JArr xs) = True"
| "truthy (JObj kvs) = True"

text \<open>\<open>s.includes(t)\<close> on strings: \<open>t\<close> occurs in \<open>s\<close>.\<close>

fun string_includes :: "jsstring \<Rightarrow> jsstring \<Rightarrow> bool" where
  "string_includes [] t = (t = [])"
| "string_includes (c # cs) t = (take (length t) (c # cs) = t \<or> string_includes cs t)"

definition text_like :: "kind \<Rightarrow> bool" where
  "text_like k \<longleftrightarrow> k = Text \<or> k = Email \<or> k = Tel \<or> k = Textarea"

section \<open>deserializeForm\<close>

text \<open>
  \<open>signatureManager.clear()\<close> and \<open>signatureManager.deserialize(z85)\<close> for a truthy argument
  (signature.ts, lines 257-293).  \<open>clear\<close> dispatches \<open>signaturechange\<close>, whose listener is
  \<open>saveStateToHash\<close> (form.ts, lines 823-828); an exception of a listener does not reach the
  dispatcher.
\<close>

definition signature_clear :: "platform \<Rightarrow> page \<Rightarrow> page" where
  "signature_clear pf p = state_of (saveStateToHash pf (p\<lparr>signatureManager := Some None\<rparr>))"

definition signature_deserialize :: "platform \<Rightarrow> jsval \<Rightarrow> page \<Rightarrow> page" where
  "signature_deserialize pf z85 p =
     (case z85Decode pf z85 of
        Some sig \<Rightarrow> p\<lparr>signatureManager := Some sig\<rparr>
      | None \<Rightarrow> signature_clear pf (p\<lparr>console := console p @ [js ''Failed to deserialize signature:'']\<rparr>))"

text \<open>The three branches of the loop body (form.ts, lines 194-222).\<close>

definition deserialize_radio :: "named \<Rightarrow> jsval \<Rightarrow> control list \<Rightarrow> js_error + control list" where
  "deserialize_radio elems v els =
     (case elems of
        Single _ \<Rightarrow> Inl TypeError
      | Group radios \<Rightarrow>
          Inr (fold (\<lambda>radio els. set_checked radio (JStr (el_value (els ! radio)) = v) els) radios els))"

definition deserialize_checkbox :: "named \<Rightarrow> jsval \<Rightarrow> control list \<Rightarrow> js_error + control list" where
  "deserialize_checkbox elems v els =
     (case v of
        JBool b \<Rightarrow>
          (case elems of Single c \<Rightarrow> Inr (set_checked c b els) | Group _ \<Rightarrow> Inr els)
      | JStr s \<Rightarrow>
          (case elems of
             Single _ \<Rightarrow> Inl TypeError
           | Group cs \<Rightarrow>
               Inr (fold (\<lambda>c els. set_checked c (string_includes s (el_value (els ! c))) els) cs els))
      | JArr xs \<Rightarrow>
          (case elems of
             Single _ \<Rightarrow> Inl TypeError
           | Group cs \<Rightarrow>
               Inr (fold (\<lambda>c els. set_checked c (JStr (el_value (els ! c)) \<in> set xs) els) cs els))
      | _ \<Rightarrow>
          (case elems of
             Single _ \<Rightarrow> Inl TypeError
           | Group cs \<Rightarrow> if cs = [] then Inr els else Inl TypeError))"

definition deserialize_value ::
  "platform \<Rightarrow> nat \<Rightarrow> jsval \<Rightarrow> control list \<Rightarrow> js_error + control list" where
  "deserialize_value pf i v els =
     (let v' = (case v of
                  JStr s \<Rightarrow> if text_like (el_kind (els ! i)) then JStr (toUpperCase pf s) else v
                | _ \<Rightarrow> v)
      in case toDOMString v' of
           None \<Rightarrow> Inl TypeError
         | Some s \<Rightarrow> Inr (update_el i (store_value s) els))"

text \<open>One iteration of \<open>for (const key in data)\<close> (lines 181-223).\<close>

definition deserialize_field ::
  "platform \<Rightarrow> jsstring \<times> jsval \<Rightarrow> control list \<Rightarrow> js_error + control list" where
  "deserialize_field pf kv els =
     (case kv of (key, v) \<Rightarrow>
        if key = js ''signature'' then Inr els
        else case namedItem els key of
               None \<Rightarrow> Inr els
             | Some elems \<Rightarrow>
                 (case as_list elems of
                    [] \<Rightarrow> Inl TypeError
                  | el # _ \<Rightarrow>
                      if el_kind (els ! el) = Radio then deserialize_radio elems v els
                      else if el_kind (els ! el) = Checkbox then deserialize_checkbox elems v els
                      else deserialize_value pf el v els))"

fun deserialize_fields :: "platform \<Rightarrow> jsobj \<Rightarrow> control list \<Rightarrow> control list outcome" where
  "deserialize_fields pf [] els = Ok els"
| "deserialize_fields pf (kv # rest) els =
     (case deserialize_field pf kv els of
        Inl e \<Rightarrow> Throw e els
      | Inr els' \<Rightarrow> deserialize_fields pf rest els')"

text \<open>\<open>deserializeForm(data)\<close> for an object \<open>data\<close> (lines 175-224).\<close>

definition deserializeForm :: "platform \<Rightarrow> jsobj \<Rightarrow> page \<Rightarrow> page outcome" where
  "deserializeForm pf data p =
     (let p1 = (case obj_get data (js ''signature'') of
                  None \<Rightarrow> p
                | Some sig \<Rightarrow>
                    if truthy sig \<and> signatureManager p \<noteq> None
                    then signature_deserialize pf sig p else p)
      in case deserialize_fields pf data (elements p1) of
           Ok els \<Rightarrow> Ok (p1\<lparr>elements := els\<rparr>)
         | Throw e els \<Rightarrow> Throw e (p1\<lparr>elements := els\<rparr>))"

text \<open>
  The properties \<open>for ... in\<close> enumerates on a parsed JSON value: those of an object, the indices
  of an array or of a string, none for a number or a boolean.  \<open>None\<close> for \<open>null\<close>, on which
  reading \<open>data.signature\<close> throws.
\<close>

fun indexed_from :: "nat \<Rightarrow> jsval list \<Rightarrow> jsobj" where
  "indexed_from n [] = []"
| "indexed_from n (x # xs) = (decimal n, x) # indexed_from (Suc n) xs"

fun own_entries :: "jsval \<Rightarrow> jsobj option" where
  "own_entries JNull = None"
| "own_entries (JBool b) = Some []"
| "own_entries (JNum n) = Some []"
| "own_entries (JStr s) = Some (indexed_from 0 (map (\<lambda>c. JStr [c]) s))"
| "own_entries (JArr xs) = Some (indexed_from 0 xs)"
| "own_entries (JObj kvs) = Some kvs"

text \<open>
  \<open>loadStateFromHash\<close> (lines 382-399): everything after reading the hash runs inside \<open>try\<close>,
  and the \<open>catch\<close> logs.
\<close>

definition unurlsafe :: "jsstring \<Rightarrow> jsstring" where
  "unurlsafe h = replaceAllChar 95 47 (replaceAllChar 45 43 h)"

definition repad :: "jsstring \<Rightarrow> jsstring" where
  "repad b = b @ replicate ((4 - length b mod 4) mod 4) 61"

definition load_failed :: "page \<Rightarrow> page" where
  "load_failed p = p\<lparr>console := console p @ [js ''Failed to load state from hash:'']\<rparr>"

definition loadStateFromHash :: "platform \<Rightarrow> page \<Rightarrow> page" where
  "loadStateFromHash pf p =
     (if location_hash p = [] then p
      else case atob pf (repad (unurlsafe (drop 1 (location_hash p)))) of
             None \<Rightarrow> load_failed p
           | Some jsonString \<Rightarrow>
               (case JSON_parse pf jsonString of
                  None \<Rightarrow> load_failed p
                | Some parsed \<Rightarrow>
                    (case own_entries parsed of
                       None \<Rightarrow> load_failed p
                     | Some data \<Rightarrow>
                         (case deserializeForm pf data p of
                            Ok p' \<Rightarrow> p'
                          | Throw e p' \<Rightarrow> load_failed p'))))"

section \<open>Validation\<close>

text \<open>The character classes of the regular expressions: \<open>\d\<close> (\<open>is_digit\<close> above), \<open>\s\<close>,
  \<open>[a-zA-Z0-9]\<close>, and the line terminators, which \<open>.\<close> does not match.\<close>

definition is_space :: "jschar \<Rightarrow> bool" where
  "is_space c \<longleftrightarrow>
     (9 \<le> c \<and> c \<le> 13) \<or> c = 32 \<or> c = 160 \<or> c = 5760 \<or> (8192 \<le> c \<and> c \<le> 8202) \<or>
     c = 8232 \<or> c = 8233 \<or> c = 8239 \<or> c = 8287 \<or> c = 12288 \<or> c = 65279"

definition is_alnum :: "jschar \<Rightarrow> bool" where
  "is_alnum c \<longleftrightarrow> (97 \<le> c \<and> c \<le> 122) \<or> (65 \<le> c \<and> c \<le> 90) \<or> is_digit c"

definition is_line_terminator :: "jschar \<Rightarrow> bool" where
  "is_line_terminator c \<longleftrightarrow> c = 10 \<or> c = 13 \<or> c = 8232 \<or> c = 8233"

text \<open>\<open>/^[\d\s\(\)-]+$/.test(v)\<close>\<close>

definition telephone_re :: "jsstring \<Rightarrow> bool" where
  "telephone_re v \<longleftrightarrow>
     v \<noteq> [] \<and> list_all (\<lambda>c. is_digit c \<or> is_space c \<or> c = 40 \<or> c = 41 \<or> c = 45) v"

text \<open>\<open>/.+@.+/.test(v)\<close>: somewhere an \<open>@\<close> stands between two characters that are not line
  terminators.\<close>

fun email_re :: "jsstring \<Rightarrow> bool" where
  "email_re (a # b # c # rest) =
     ((\<not> is_line_terminator a \<and> b = 64 \<and> \<not> is_line_terminator c) \<or> email_re (b # c # rest))"
| "email_re _ = False"

text \<open>\<open>/^(\d{3}-\d{2}-\d{4}|\d{9}|[a-zA-Z0-9]{8})$/.test(v)\<close>\<close>

definition ssn_re :: "jsstring \<Rightarrow> bool" where
  "ssn_re v \<longleftrightarrow>
     (length v = 11 \<and> list_all is_digit (take 3 v) \<and> v ! 3 = 45 \<and>
      list_all is_digit (take 2 (drop 4 v)) \<and> v ! 6 = 45 \<and> list_all is_digit (drop 7 v)) \<or>
     (length v = 9 \<and> list_all is_digit v) \<or>
     (length v = 8 \<and> list_all is_alnum v)"

text \<open>\<open>new Date(v) <= new Date()\<close>: false when \<open>v\<close> does not parse.\<close>

definition not_after_now :: "platform \<Rightarrow> jsstring \<Rightarrow> bool" where
  "not_after_now pf v = (case parseDate pf v of None \<Rightarrow> False | Some t \<Rightarrow> t \<le> nowTime pf)"

record validation_rule =
  check :: "jsstring \<Rightarrow> bool"
  msg :: jsstring

text \<open>The table \<open>validations\<close> (lines 402-419), in the order of its keys.\<close>

definition validations :: "platform \<Rightarrow> (jsstring \<times> validation_rule) list" where
  "validations pf =
     [(js ''q3b_telephone'',
         \<lparr>check = (\<lambda>v. v = [] \<or> telephone_re v),
          msg = js ''Must only contain digits and separators.''\<rparr>),
      (js ''q3c_email'',
         \<lparr>check = (\<lambda>v. v = [] \<or> email_re v),
          msg = js ''Must be a valid email format.''\<rparr>),
      (js ''q3f_ssn'',
         \<lparr>check = (\<lambda>v. v = [] \<or> ssn_re v),
          msg = js ''Must be a 9-digit SSN or 8-character UPIN.''\<rparr>),
      (js ''q3g_dob'',
         \<lparr>check = (\<lambda>v. v = [] \<or> not_after_now pf v),
          msg = js ''Date of Birth cannot be in the future.''\<rparr>)]"

text \<open>
  \<open>validations[field.name]\<close> reads the table through its prototype chain: for a name that is
  no key of the table but one of these properties of \<open>Object.prototype\<close>, the rule is a function
  or an object without \<open>check\<close>, and \<open>rule.check(value)\<close> throws a \<open>TypeError\<close>.
\<close>

definition object_prototype_keys :: "jsstring list" where
  "object_prototype_keys =
     [js ''constructor'', js ''__defineGetter__'', js ''__defineSetter__'', js ''hasOwnProperty'',
      js ''__lookupGetter__'', js ''__lookupSetter__'', js ''isPrototypeOf'',
      js ''propertyIsEnumerable'', js ''toString'', js ''valueOf'', js ''__proto__'',
      js ''toLocaleString'']"

text \<open>
  \<open>validateField(field)\<close> (lines 421-436) for \<open>null\<close> or a control.  The class \<open>invalid-field\<close>
  is the control's \<open>el_invalid\<close>; the message goes to the element with id \<open>field.id + "-error"\<close>
  when the page has one (an element that is not a control of the form).  The result is the
  exception, thrown before anything is written, or the returned value with the page.
\<close>

definition set_error_text :: "jsstring \<Rightarrow> jsstring \<Rightarrow> page \<Rightarrow> page" where
  "set_error_text fid t p =
     (if fid @ js ''-error'' \<in> set (containers p)
      then p\<lparr>error_text := (error_text p)(fid @ js ''-error'' := t)\<rparr> else p)"

definition validateField :: "platform \<Rightarrow> nat option \<Rightarrow> page \<Rightarrow> js_error + bool \<times> page" where
  "validateField pf field p =
     (case field of
        None \<Rightarrow> Inr (True, p)
      | Some i \<Rightarrow>
          (let e = elements p ! i;
               valid = set_error_text (el_id e) []
                         (p\<lparr>elements := update_el i (\<lambda>e. e\<lparr>el_invalid := False\<rparr>) (elements p)\<rparr>)
           in case map_of (validations pf) (el_name e) of
                None \<Rightarrow>
                  if el_name e \<in> set object_prototype_keys then Inl TypeError else Inr (True, valid)
              | Some rule \<Rightarrow>
                  if check rule (el_value e) then Inr (True, valid)
                  else
                    Inr (False, set_error_text (el_id e) (msg rule)
                           (p\<lparr>elements := update_el i (\<lambda>e. e\<lparr>el_invalid := True\<rparr>) (elements p)\<rparr>))))"

text \<open>
  \<open>runAllValidations\<close> (lines 438-447).  A \<open>RadioNodeList\<close> passed to \<open>validateField\<close> has no
  \<open>classList\<close>, so the call throws.
\<close>

fun validate_all :: "platform \<Rightarrow> jsstring list \<Rightarrow> bool \<times> page \<Rightarrow> (bool \<times> page) outcome" where
  "validate_all pf [] st = Ok st"
| "validate_all pf (fieldName # rest) (allValid, p) =
     (case namedItem (elements p) fieldName of
        None \<Rightarrow> validate_all pf rest (allValid, p)
      | Some (Single i) \<Rightarrow>
          (case validateField pf (Some i) p of
             Inl e \<Rightarrow> Throw e (allValid, p)
           | Inr (ok, p') \<Rightarrow> validate_all pf rest (if ok then allValid else False, p'))
      | Some (Group _) \<Rightarrow> Throw TypeError (allValid, p))"

definition runAllValidations :: "platform \<Rightarrow> page \<Rightarrow> (bool \<times> page) outcome" where
  "runAllValidations pf p = validate_all pf (map fst (validations pf)) (True, p)"

text \<open>
  The first step of the click handler of the export button (lines 900-911): the export goes
  on only when \<open>runAllValidations\<close> returns \<open>true\<close>.
\<close>

definition export_proceeds :: "platform \<Rightarrow> page \<Rightarrow> bool" where
  "export_proceeds pf p = (case runAllValidations pf p of Ok (isFormValid, _) \<Rightarrow> isFormValid | Throw _ _ \<Rightarrow> False)"

section \<open>Event handlers\<close>

text \<open>
  A handler is a state transformer on the page that may throw.  The elements a handler holds
  were looked up by id when \<open>init\<close> ran; a lookup that gave \<open>null\<close> throws a \<open>TypeError\<close> where
  the handler reads or writes a property of it.  Ids and names never change, so the model looks
  the element up at that point.
\<close>

type_synonym handler = "page \<Rightarrow> page outcome"

fun run :: "handler list \<Rightarrow> handler" where
  "run [] p = Ok p"
| "run (h # hs) p = (case h p of Ok p' \<Rightarrow> run hs p' | Throw e p' \<Rightarrow> Throw e p')"

definition with_id :: "jsstring \<Rightarrow> (nat \<Rightarrow> handler) \<Rightarrow> handler" where
  "with_id i h p = (case getElementById (elements p) i of None \<Rightarrow> Throw TypeError p | Some n \<Rightarrow> h n p)"

definition modify :: "nat \<Rightarrow> (control \<Rightarrow> control) \<Rightarrow> handler" where
  "modify n f p = Ok (p\<lparr>elements := update_el n f (elements p)\<rparr>)"

definition check_el :: "nat \<Rightarrow> bool \<Rightarrow> handler" where
  "check_el n b p = Ok (p\<lparr>elements := set_checked n b (elements p)\<rparr>)"

text \<open>A listener's exception is reported and does not reach \<open>dispatchEvent\<close>.\<close>

definition listener :: "handler \<Rightarrow> page \<Rightarrow> page" where
  "listener h p = state_of (h p)"

text \<open>
  \<open>normalizeToUppercase(element)\<close> (lines 452-470).  \<open>setSelectionRange\<close> does not apply to an
  \<open>input\<close> of type \<open>email\<close> and throws \<open>InvalidStateError\<close> there, after the value is written.
\<close>

definition normalizeToUppercase :: "platform \<Rightarrow> nat \<Rightarrow> handler" where
  "normalizeToUppercase pf n p =
     (let element = elements p ! n in
      if text_like (el_kind element) then
        (let originalValue = el_value element; upperValue = toUpperCase pf originalValue in
         if originalValue \<noteq> upperValue then
           (let p' = p\<lparr>elements := update_el n (store_value upperValue) (elements p)\<rparr>
            in if el_kind element = Email then Throw InvalidStateError p' else Ok p')
         else Ok p)
      else Ok p)"

text \<open>
  \<open>limitTextareaLines(textarea)\<close> (lines 484-506); \<open>autoResizeTextarea\<close> only sets a style.
  A name that is no key of \<open>textareaLineLimits\<close> finds no limit, or through the prototype
  chain a function or an object, which no number of lines exceeds.
\<close>

definition textareaLineLimits :: "(jsstring \<times> nat) list" where
  "textareaLineLimits =
     [(js ''q2_address'', 2), (js ''q3a_homeAddress'', 7), (js ''q5_address'', 2),
      (js ''q4b_address'', 2), (js ''q3d_otherNames'', 2)]"

fun split_lines :: "jsstring \<Rightarrow> jsstring list" where
  "split_lines [] = [[]]"
| "split_lines (c # cs) =
     (if c = 10 then [] # split_lines cs
      else case split_lines cs of [] \<Rightarrow> [[c]] | l # ls \<Rightarrow> (c # l) # ls)"

definition limitTextareaLines :: "nat \<Rightarrow> handler" where
  "limitTextareaLines n p =
     (case map_of textareaLineLimits (el_name (elements p ! n)) of
        None \<Rightarrow> Ok p
      | Some maxLines \<Rightarrow>
          if maxLines = 0 then Ok p
          else
            (let lines = split_lines (el_value (elements p ! n)) in
             if length lines > maxLines
             then modify n (store_value (join [10] (take maxLines lines))) p
             else Ok p))"

text \<open>
  The \<open>input\<close> listeners of an element other than \<open>q2Address\<close>, in the order they run: the one
  added to every \<open>textarea\<close> (lines 508-513), then at the form the upper-casing (lines 473-476)
  and the debounced \<open>saveStateToHash\<close> (line 478), which arms its timer.
\<close>

definition arm_save :: handler where
  "arm_save p = Ok (p\<lparr>save_pending := True\<rparr>)"

definition textarea_input :: "nat \<Rightarrow> page \<Rightarrow> page" where
  "textarea_input n p =
     (if el_kind (elements p ! n) = Textarea then listener (limitTextareaLines n) p else p)"

definition form_input :: "platform \<Rightarrow> nat \<Rightarrow> page \<Rightarrow> page" where
  "form_input pf n p = listener arm_save (listener (normalizeToUppercase pf n) p)"

text \<open>\<open>syncAddress\<close> (lines 516-528); its \<open>dispatchEvent\<close> runs the \<open>input\<close> listeners of
  \<open>q3aHomeAddress\<close>.\<close>

definition syncAddress :: "platform \<Rightarrow> handler" where
  "syncAddress pf =
     with_id (js ''q3a_sameAs2'') (\<lambda>sameAsCheckbox p.
       if el_checked (elements p ! sameAsCheckbox) then
         with_id (js ''q3a_homeAddress'') (\<lambda>q3aHomeAddress.
           with_id (js ''q2_address'') (\<lambda>q2Address p.
             Ok (form_input pf q3aHomeAddress
                  (textarea_input q3aHomeAddress
                    (p\<lparr>elements :=
                         update_el q3aHomeAddress
                           (\<lambda>e. (store_value (el_value (elements p ! q2Address)) e)\<lparr>el_disabled := True\<rparr>)
                           (elements p)\<rparr>))))) p
       else with_id (js ''q3a_homeAddress'') (\<lambda>q3aHomeAddress.
              modify q3aHomeAddress (\<lambda>e. e\<lparr>el_disabled := False\<rparr>)) p)"

text \<open>An \<open>input\<close> event on a control: its own listeners, then the form's.  \<open>syncAddress\<close> is a
  listener of \<open>q2Address\<close> (line 530), added after the \<open>textarea\<close> one.\<close>

definition dispatch_input :: "platform \<Rightarrow> nat \<Rightarrow> page \<Rightarrow> page" where
  "dispatch_input pf n p =
     (let p1 = textarea_input n p;
          p2 = (if getElementById (elements p1) (js ''q2_address'') = Some n
                then listener (syncAddress pf) p1 else p1)
      in form_input pf n p2)"

text \<open>The handlers that enable a text input while a choice is checked (lines 556-567,
  613-642): \<open>choice\<close> and \<open>target\<close> are the ids of the two elements.\<close>

definition enable_while_checked :: "jsstring \<Rightarrow> jsstring \<Rightarrow> handler" where
  "enable_while_checked choice target =
     with_id choice (\<lambda>c p.
       let isOther = el_checked (elements p ! c) in
       with_id target (\<lambda>t.
         modify t (\<lambda>e. e\<lparr>el_disabled := \<not> isOther,
                         el_value := (if \<not> isOther then [] else el_value e)\<rparr>)) p)"

definition q4a_change :: handler where
  "q4a_change = enable_while_checked (js ''q4a_other'') (js ''q4a_other_text'')"

definition updateUpinInput :: handler where
  "updateUpinInput = enable_while_checked (js ''q8_upin-yes'') (js ''q8_upinNumber'')"

definition q9a_change :: handler where
  "q9a_change = enable_while_checked (js ''q9a_other'') (js ''q9a_other_text'')"

definition updateQ9cInput :: handler where
  "updateQ9cInput = enable_while_checked (js ''q9c_other'') (js ''q9c_other_text'')"

text \<open>The members of a \<open>RadioNodeList\<close> that \<open>init\<close> took from \<open>namedItem\<close>.\<close>

definition radio_list :: "control list \<Rightarrow> jsstring \<Rightarrow> nat list option" where
  "radio_list els n = (case namedItem els n of Some (Group is) \<Rightarrow> Some is | _ \<Rightarrow> None)"

text \<open>\<open>list.forEach(f)\<close> on such a list; a list that is not one has no \<open>forEach\<close>.\<close>

fun for_each :: "(nat \<Rightarrow> handler) \<Rightarrow> nat list \<Rightarrow> handler" where
  "for_each f [] p = Ok p"
| "for_each f (i # is) p = (case f i p of Ok p' \<Rightarrow> for_each f is p' | Throw e p' \<Rightarrow> Throw e p')"

definition for_each_radio :: "jsstring \<Rightarrow> (nat \<Rightarrow> handler) \<Rightarrow> handler" where
  "for_each_radio n f p =
     (case radio_list (elements p) n of None \<Rightarrow> Throw TypeError p | Some is \<Rightarrow> for_each f is p)"

text \<open>\<open>updateQ6m2\<close> (lines 587-610).\<close>

definition updateQ6m2 :: handler where
  "updateQ6m2 =
     with_id (js ''q6m1-yes'') (\<lambda>yes.
       with_id (js ''q6m1-no'') (\<lambda>no p.
         let q6m1Yes = el_checked (elements p ! yes);
             q6m1No = el_checked (elements p ! no)
         in if q6m1Yes then
              run [with_id (js ''q6m2-yes'') (\<lambda>n. modify n (\<lambda>e. e\<lparr>el_disabled := False\<rparr>)),
                   with_id (js ''q6m2-no'') (\<lambda>n. modify n (\<lambda>e. e\<lparr>el_disabled := False\<rparr>)),
                   with_id (js ''q6m2-na'') (\<lambda>n. modify n (\<lambda>e. e\<lparr>el_disabled := True\<rparr>)),
                   with_id (js ''q6m2-na'') (\<lambda>n p.
                     if el_checked (elements p ! n)
                     then for_each_radio (js ''q6m2_exception'') (\<lambda>r. check_el r False) p
                     else Ok p)] p
            else if q6m1No then
              run [with_id (js ''q6m2-yes'') (\<lambda>n. modify n (\<lambda>e. e\<lparr>el_disabled := True\<rparr>)),
                   with_id (js ''q6m2-no'') (\<lambda>n. modify n (\<lambda>e. e\<lparr>el_disabled := True\<rparr>)),
                   with_id (js ''q6m2-na'') (\<lambda>n. modify n (\<lambda>e. e\<lparr>el_disabled := False\<rparr>)),
                   with_id (js ''q6m2-na'') (\<lambda>n. check_el n True)] p
            else
              for_each_radio (js ''q6m2_exception'')
                (\<lambda>r. run [modify r (\<lambda>e. e\<lparr>el_disabled := True\<rparr>), check_el r False]) p))"

text \<open>
  A \<open>change\<close> event on a control: the listeners added to it, in the order \<open>init\<close> added them
  (lines 529, 560, 611, 621, 626, 642), then the form's \<open>saveStateToHash\<close> (line 479).
\<close>

definition is_member :: "control list \<Rightarrow> jsstring \<Rightarrow> nat \<Rightarrow> bool" where
  "is_member els n i = (case radio_list els n of None \<Rightarrow> False | Some is \<Rightarrow> i \<in> set is)"

definition listener_if :: "bool \<Rightarrow> handler \<Rightarrow> page \<Rightarrow> page" where
  "listener_if b h p = (if b then listener h p else p)"

definition dispatch_change :: "platform \<Rightarrow> nat \<Rightarrow> page \<Rightarrow> page" where
  "dispatch_change pf n p =
     (let els = elements p;
          p1 = listener_if (getElementById els (js ''q3a_sameAs2'') = Some n) (syncAddress pf) p;
          p2 = listener_if (is_member els (js ''q4a_firearmType'') n) q4a_change p1;
          p3 = listener_if (is_member els (js ''q6m1_nonimmigrant'') n) updateQ6m2 p2;
          p4 = listener_if (is_member els (js ''q8_hasUpin'') n) updateUpinInput p3;
          p5 = listener_if (getElementById els (js ''q9a_other'') = Some n) q9a_change p4;
          p6 = listener_if (is_member els (js ''q9c_birthCountry'') n) updateQ9cInput p5
      in listener (saveStateToHash pf) p6)"

text \<open>
  The click handler of \<open>q6AllNoButton\<close> (lines 570-582).  The selector
  \<open>input[type="radio"][value="NO"]\<close> under \<open>#q6_prohibitors\<close> picks the radios with that value
  that have the container among their ancestors, in document order.
\<close>

definition prohibitor_no :: "control \<Rightarrow> bool" where
  "prohibitor_no e \<longleftrightarrow>
     el_kind e = Radio \<and> el_value e = js ''NO'' \<and> js ''q6_prohibitors'' \<in> set (el_ancestors e)"

definition check_and_notify :: "platform \<Rightarrow> nat \<Rightarrow> handler" where
  "check_and_notify pf radio p =
     Ok (dispatch_change pf radio (p\<lparr>elements := set_checked radio True (elements p)\<rparr>))"

definition q6AllNo_click :: "platform \<Rightarrow> handler" where
  "q6AllNo_click pf p =
     (if js ''q6_prohibitors'' \<notin> set (containers p) then Throw TypeError p
      else run [for_each (check_and_notify pf) (indices prohibitor_no (elements p)),
                with_id (js ''q6m2-na'') (check_and_notify pf)] p)"

text \<open>The \<open>blur\<close> listener of the telephone input (lines 533-542).\<close>

definition format_phone :: "jsstring \<Rightarrow> jsstring" where
  "format_phone digits =
     js ''('' @ take 3 digits @ js '') '' @ take 3 (drop 3 digits) @ js ''-'' @ take 4 (drop 6 digits)"

definition phone_blur :: "platform \<Rightarrow> handler" where
  "phone_blur pf =
     with_id (js ''q3b_telephone'') (\<lambda>target p.
       let digits = filter is_digit (el_value (elements p ! target));
           p1 = (if length digits = 10
                 then p\<lparr>elements := update_el target (store_value (format_phone digits)) (elements p)\<rparr>
                 else p)
       in normalizeToUppercase pf target p1)"

text \<open>
  The \<open>blur\<close> listeners for validation (lines 957-962): \<open>blur_fields\<close> lists the fields that
  got one, a field once for every key of the table that names it.  \<open>init\<close> ends with a
  \<open>TypeError\<close> at a key that names a list of controls, which has no \<open>addEventListener\<close>.
\<close>

fun blur_fields :: "control list \<Rightarrow> jsstring list \<Rightarrow> nat list" where
  "blur_fields els [] = []"
| "blur_fields els (fieldName # rest) =
     (case namedItem els fieldName of
        None \<Rightarrow> blur_fields els rest
      | Some (Single field) \<Rightarrow> field # blur_fields els rest
      | Some (Group _) \<Rightarrow> [])"

definition validation_listener :: "platform \<Rightarrow> nat \<Rightarrow> handler" where
  "validation_listener pf field p =
     (case validateField pf (Some field) p of Inl e \<Rightarrow> Throw e p | Inr (_, p') \<Rightarrow> Ok p')"

text \<open>
  A \<open>blur\<close> event on the telephone input, the element that \<open>init\<close> found by the id
  \<open>q3b_telephone\<close>: the listener above, then the validation listeners of that element.
\<close>

definition telephone_blur :: "platform \<Rightarrow> page \<Rightarrow> page" where
  "telephone_blur pf p =
     (case getElementById (elements p) (js ''q3b_telephone'') of
        None \<Rightarrow> p
      | Some target \<Rightarrow>
          fold (\<lambda>field. listener (validation_listener pf field))
            (filter (\<lambda>field. field = target) (blur_fields (elements p) (map fst (validations pf))))
            (listener (phone_blur pf) p))"

section \<open>Sample data\<close>

text \<open>
  A platform and controls to run the model on: upper-casing of the ASCII letters, the calendar
  date 2026-11-03, and a \<open>Date\<close> that parses nothing.
\<close>

definition ascii_upper :: "jsstring \<Rightarrow> jsstring" where
  "ascii_upper s = map (\<lambda>c. if 97 \<le> c \<and> c \<le> 122 then c - 32 else c) s"

definition sample_platform :: platform where
  "sample_platform =
     \<lparr>toUpperCase = ascii_upper, clock = (2026, 10, 3), parseDate = (\<lambda>s. None), nowTime = 0,
      z85Decode = (\<lambda>v. None), atob = (\<lambda>s. None), JSON_parse = (\<lambda>s. None)\<rparr>"

definition ctl :: "string \<Rightarrow> string \<Rightarrow> kind \<Rightarrow> string \<Rightarrow> bool \<Rightarrow> control" where
  "ctl i n k v c =
     \<lparr>el_id = js i, el_name = js n, el_kind = k, el_value = js v, el_checked = c,
      el_disabled = False, el_invalid = False, el_ancestors = []\<rparr>"

definition sample_page :: "control list \<Rightarrow> page" where
  "sample_page els =
     \<lparr>elements = els, signatureManager = Some None, containers = [js ''q6_prohibitors''],
      location = \<lparr>url_path = js ''/index.html'', url_fragment = []\<rparr>, history_back = [],
      console = [], save_pending = False, error_text = (\<lambda>i. [])\<rparr>"

section \<open>Notions used in the statements and proofs\<close>

text \<open>The first \<open>maxLines\<close> lines of a text.\<close>

definition limit_lines :: "nat \<Rightarrow> jsstring \<Rightarrow> jsstring" where
  "limit_lines maxLines v =
     (let lines = split_lines v in
      if length lines > maxLines then join [10] (take maxLines lines) else v)"

text \<open>The snapshot \<open>serializeForm\<close> returns when the form exists.\<close>

definition snapshot :: "platform \<Rightarrow> bool \<Rightarrow> signature_manager option \<Rightarrow> control list \<Rightarrow> jsobj" where
  "snapshot pf b sm els =
     add_signature sm (snd (fold (serialize_element pf b (getTodayYYYYMMDD pf) els) els ([], [])))"

text \<open>Two states of the serializer's loop that differ at most in the entry of key \<open>x\<close>.\<close>

definition agree_except :: "jsstring \<Rightarrow> jsstring list \<times> jsobj \<Rightarrow> jsstring list \<times> jsobj \<Rightarrow> bool" where
  "agree_except x s t \<longleftrightarrow>
     fst s = fst t \<and> (\<forall>k. k \<noteq> x \<longrightarrow> obj_get (snd s) k = obj_get (snd t) k)"

text \<open>A control that leaves the key \<open>certificationDate\<close> out of the snapshot: one of another
  name, a disabled one, or a date input that is empty or holds the date \<open>today\<close>.\<close>

definition certification_default :: "jsstring \<Rightarrow> control \<Rightarrow> bool" where
  "certification_default today e \<longleftrightarrow>
     el_name e \<noteq> js ''certificationDate'' \<or> el_disabled e \<or>
     (el_kind e = Date \<and> (el_value e = [] \<or> el_value e = today))"

text \<open>A field of the validation table that is not filled in: the page has no control for the
  key, or one control, which bears the key as its name and holds the empty string.\<close>

definition validated_unfilled :: "page \<Rightarrow> jsstring \<Rightarrow> bool" where
  "validated_unfilled p name =
     (case namedItem (elements p) name of
        None \<Rightarrow> True
      | Some (Single i) \<Rightarrow> el_name (elements p ! i) = name \<and> el_value (elements p ! i) = []
      | Some (Group _) \<Rightarrow> False)"

text \<open>A page whose telephone field is found by its id and bears the name of an inherited
  property.\<close>

definition inherited_name_page :: page where
  "inherited_name_page = sample_page [ctl ''q3b_telephone'' ''constructor'' Tel [] False]"

definition unfilled_page :: page where
  "unfilled_page = sample_page
     [ctl ''q3b_telephone'' ''q3b_telephone'' Tel [] False,
      ctl ''q3c_email'' ''q3c_email'' Email [] False,
      ctl ''q3f_ssn'' ''q3f_ssn'' Text [] False,
      ctl ''q3g_dob'' ''q3g_dob'' Date [] False]"

text \<open>What the statements assume of \<open>toUpperCase\<close>: it maps a string of digits, parentheses, spaces
  and hyphens to itself, and upper-casing twice is upper-casing once.\<close>

definition is_separator :: "jschar \<Rightarrow> bool" where
  "is_separator c \<longleftrightarrow> is_digit c \<or> c = 40 \<or> c = 41 \<or> c = 32 \<or> c = 45"

definition upper_fixes_separators :: "platform \<Rightarrow> bool" where
  "upper_fixes_separators pf \<longleftrightarrow> (\<forall>s. list_all is_separator s \<longrightarrow> toUpperCase pf s = s)"


definition phone_page :: page where
  "phone_page = sample_page [ctl ''q3b_telephone'' ''q3b_telephone'' Tel ''1234567890'' False]"

text \<open>A page whose only control is a text input holding the one-letter name U+0141, and the same
  page at an address that already carries a fragment.\<close>

definition non_latin1_page :: page where
  "non_latin1_page = sample_page [(ctl ''q2_fullName'' ''q2_fullName'' Text [] False)\<lparr>el_value := [321]\<rparr>]"

definition stale_fragment_page :: page where
  "stale_fragment_page =
     non_latin1_page\<lparr>location := \<lparr>url_path = js ''/index.html'', url_fragment = js ''e30''\<rparr>\<rparr>"

text \<open>What a write to a control never changes: its id, name, kind and ancestors.\<close>

definition shape :: "control \<Rightarrow> jsstring \<times> jsstring \<times> kind \<times> jsstring list" where
  "shape e = (el_id e, el_name e, el_kind e, el_ancestors e)"

text \<open>
  A value that has no string: an object with a property \<open>toString\<close> of its own, or an array
  that holds a value without a string.
\<close>

fun no_string :: "jsval \<Rightarrow> bool" where
  "no_string (JObj kvs) = (map_of kvs (js ''toString'') \<noteq> None)"
| "no_string (JArr xs) = list_ex no_string xs"
| "no_string v = False"

fun is_string :: "jsval \<Rightarrow> bool" where
  "is_string (JStr s) = True"
| "is_string v = False"

text \<open>
  The entries of a snapshot on which the loop body of \<open>deserializeForm\<close> throws: the key is not
  \<open>signature\<close> and names a lone radio; a lone checkbox while the value is not a boolean; a
  list of controls that starts with a checkbox while the value is neither a boolean nor has
  an \<open>includes\<close> method (only strings and arrays have one; the property \<open>includes\<close> of a
  parsed object is not callable); or a control, or a list that starts with a control, that is
  neither a radio nor a checkbox, while the value has no string.
\<close>

fun is_boolean :: "jsval \<Rightarrow> bool" where
  "is_boolean (JBool b) = True"
| "is_boolean v = False"

fun has_includes :: "jsval \<Rightarrow> bool" where
  "has_includes (JStr s) = True"
| "has_includes (JArr xs) = True"
| "has_includes v = False"

definition field_throws :: "control list \<Rightarrow> jsstring \<times> jsval \<Rightarrow> bool" where
  "field_throws els kv \<longleftrightarrow>
     fst kv \<noteq> js ''signature'' \<and>
     (case namedItem els (fst kv) of
        None \<Rightarrow> False
      | Some (Single i) \<Rightarrow>
          (if el_kind (els ! i) = Radio then True
           else if el_kind (els ! i) = Checkbox then \<not> is_boolean (snd kv)
           else no_string (snd kv))
      | Some (Group is) \<Rightarrow>
          (if el_kind (els ! hd is) = Radio then False
           else if el_kind (els ! hd is) = Checkbox
           then \<not> is_boolean (snd kv) \<and> \<not> has_includes (snd kv)
           else no_string (snd kv)))"

definition citizenship_page :: page where
  "citizenship_page = sample_page
     [ctl ''q9a_usa'' ''q9a_citizenship'' Checkbox ''USA'' False,
      ctl ''q9a_other'' ''q9a_citizenship'' Checkbox ''OTHER'' False,
      ctl ''q2_fullName'' ''q2_fullName'' Text [] False]"


definition raw_entry :: "control list \<Rightarrow> jsval option \<Rightarrow> bool" where
  "raw_entry els x = (case x of None \<Rightarrow> True | Some v \<Rightarrow> list_ex (\<lambda>e. v = JStr (el_value e)) els)"



definition name_and_birth :: "control list" where
  "name_and_birth =
     [ctl ''q2_fullName'' ''q2_fullName'' Text ''JOHN'' False,
      ctl ''q3g_dob'' ''q3g_dob'' Date ''2000-01-02'' False,
      ctl ''q9c_usa'' ''q9c_birthCountry'' Radio ''USA'' False,
      ctl ''q9c_other'' ''q9c_birthCountry'' Radio ''OTHER'' True,
      ctl ''q9c_other_text'' ''q9c_birthCountry_other'' Text [] False]"

text \<open>
  What the handlers of the address fields rely on in the page's HTML (which is not among the
  sources): the ids \<open>q3a_sameAs2\<close>, \<open>q2_address\<close> and \<open>q3a_homeAddress\<close> belong to the controls
  at positions \<open>c\<close>, \<open>a\<close> and \<open>h\<close>; the two address fields are \<open>textarea\<close> elements named as
  their ids, as the casts in \<open>init\<close> and the keys of \<open>textareaLineLimits\<close> have it, and the
  toggle is named \<open>q3a_sameAs2\<close>, as \<open>serializeForm\<close> has it.
\<close>

definition address_controls :: "control list \<Rightarrow> nat \<Rightarrow> nat \<Rightarrow> nat \<Rightarrow> bool" where
  "address_controls els c a h \<longleftrightarrow>
     getElementById els (js ''q3a_sameAs2'') = Some c \<and>
     getElementById els (js ''q2_address'') = Some a \<and>
     getElementById els (js ''q3a_homeAddress'') = Some h \<and>
     el_name (els ! c) = js ''q3a_sameAs2'' \<and>
     el_kind (els ! a) = Textarea \<and> el_name (els ! a) = js ''q2_address'' \<and>
     el_kind (els ! h) = Textarea \<and> el_name (els ! h) = js ''q3a_homeAddress''"

definition address_form :: "bool \<Rightarrow> string \<Rightarrow> string \<Rightarrow> control list" where
  "address_form same src dst =
     [ctl ''q2_address'' ''q2_address'' Textarea src False,
      ctl ''q3a_sameAs2'' ''q3a_sameAs2'' Checkbox ''on'' same,
      ctl ''q3a_homeAddress'' ''q3a_homeAddress'' Textarea dst False]"

text \<open>What no handler changes in a control: its shape and its value attribute.\<close>

definition static :: "control \<Rightarrow> (jsstring \<times> jsstring \<times> kind \<times> jsstring list) \<times> jsstring" where
  "static e = (shape e, el_value e)"

text \<open>
  What the click handler of the bulk action relies on in the page's HTML (which is not among the
  sources).  The ids \<open>q6m1-yes\<close>, \<open>q6m1-no\<close>, \<open>q6m2-yes\<close>, \<open>q6m2-no\<close> and \<open>q6m2-na\<close> belong to
  the radios at positions \<open>y\<close>, \<open>n\<close>, \<open>my\<close>, \<open>mn\<close> and \<open>ma\<close>, of the groups \<open>q6m1_nonimmigrant\<close>
  and \<open>q6m2_exception\<close>; \<open>q6m1-no\<close> is one of the \<open>NO\<close> radios of the prohibitors section; a
  \<open>NO\<close> radio of that section carries no \<open>change\<close> listener of another question and takes
  part in \<open>q6m1_nonimmigrant\<close> by its name only; and no two of them have the same name.
\<close>

definition q6_only :: "control \<Rightarrow> bool" where
  "q6_only e \<longleftrightarrow>
     el_id e \<noteq> js ''q3a_sameAs2'' \<and> el_id e \<noteq> js ''q9a_other'' \<and>
     el_id e \<noteq> js ''q6m1_nonimmigrant'' \<and>
     \<not> matches (js ''q4a_firearmType'') e \<and> \<not> matches (js ''q8_hasUpin'') e \<and>
     \<not> matches (js ''q9c_birthCountry'') e"

definition prohibitor_controls :: "control list \<Rightarrow> nat \<Rightarrow> nat \<Rightarrow> nat \<Rightarrow> nat \<Rightarrow> nat \<Rightarrow> bool" where
  "prohibitor_controls els y n my mn ma \<longleftrightarrow>
     getElementById els (js ''q6m1-yes'') = Some y \<and>
     getElementById els (js ''q6m1-no'') = Some n \<and>
     getElementById els (js ''q6m2-yes'') = Some my \<and>
     getElementById els (js ''q6m2-no'') = Some mn \<and>
     getElementById els (js ''q6m2-na'') = Some ma \<and>
     list_all (\<lambda>i. el_kind (els ! i) = Radio) [y, n, my, mn, ma] \<and>
     list_all (\<lambda>i. el_name (els ! i) = js ''q6m1_nonimmigrant'') [y, n] \<and>
     list_all (\<lambda>i. el_name (els ! i) = js ''q6m2_exception'') [my, mn, ma] \<and>
     prohibitor_no (els ! n) \<and>
     list_all (\<lambda>e. prohibitor_no e \<longrightarrow> q6_only e) els \<and>
     distinct (map el_name (filter prohibitor_no els))"

text \<open>A control holds the value of its radio group: it is checked and no other radio of the
  group is.\<close>

definition holds_group :: "control list \<Rightarrow> nat \<Rightarrow> bool" where
  "holds_group els i \<longleftrightarrow>
     el_checked (els ! i) \<and>
     (\<forall>j < length els. j \<noteq> i \<and> el_kind (els ! j) = Radio \<and> el_name (els ! i) \<noteq> [] \<and>
        el_name (els ! j) = el_name (els ! i) \<longrightarrow> \<not> el_checked (els ! j))"

definition q6_form :: "bool \<Rightarrow> bool \<Rightarrow> control list" where
  "q6_form yes exc =
     [(ctl ''q6a-yes'' ''q6a_intent'' Radio ''YES'' yes)\<lparr>el_ancestors := [js ''q6_prohibitors'']\<rparr>,
      (ctl ''q6a-no'' ''q6a_intent'' Radio ''NO'' False)\<lparr>el_ancestors := [js ''q6_prohibitors'']\<rparr>,
      (ctl ''q6m1-yes'' ''q6m1_nonimmigrant'' Radio ''YES'' yes)\<lparr>el_ancestors := [js ''q6_prohibitors'']\<rparr>,
      (ctl ''q6m1-no'' ''q6m1_nonimmigrant'' Radio ''NO'' False)\<lparr>el_ancestors := [js ''q6_prohibitors'']\<rparr>,
      (ctl ''q6m2-yes'' ''q6m2_exception'' Radio ''YES'' exc)\<lparr>el_ancestors := [js ''q6_prohibitors'']\<rparr>,
      (ctl ''q6m2-no'' ''q6m2_exception'' Radio ''NO'' False)\<lparr>el_ancestors := [js ''q6_prohibitors'']\<rparr>,
      (ctl ''q6m2-na'' ''q6m2_exception'' Radio ''N/A'' False)
         \<lparr>el_ancestors := [js ''q6_prohibitors''], el_disabled := True\<rparr>,
      ctl ''q7_alienNumber'' ''q7_alienNumber'' Text ''A1'' False]"

text \<open>
  The state of the form while the click handler of the bulk action runs, \<open>done\<close> being the
  \<open>NO\<close> radios it has checked so far: nothing but checkedness and enabledness differs from the
  form \<open>els\<close> it started from, each radio of \<open>done\<close> outside \<open>q6m2_exception\<close> holds the value
  of its group, once \<open>q6m1-no\<close> is done the exception group is in its not-applicable
  configuration, and a control that is not a radio is as it was.
\<close>

definition q6_inv ::
  "control list \<Rightarrow> nat \<Rightarrow> nat \<Rightarrow> nat \<Rightarrow> nat \<Rightarrow> nat set \<Rightarrow> control list \<Rightarrow> bool" where
  "q6_inv els n my mn ma done E \<longleftrightarrow>
     map static E = map static els \<and>
     (\<forall>i \<in> done. el_name (els ! i) \<noteq> js ''q6m2_exception'' \<longrightarrow> holds_group E i) \<and>
     (n \<in> done \<longrightarrow> el_disabled (E ! my) \<and> el_disabled (E ! mn) \<and> \<not> el_disabled (E ! ma)) \<and>
     (\<forall>j < length els. el_kind (els ! j) \<noteq> Radio \<longrightarrow> E ! j = els ! j)"

text \<open>One round of the handler's loop: \<open>radio.checked = true\<close>, then the \<open>change\<close> event.\<close>

definition q6_step :: "platform \<Rightarrow> nat \<Rightarrow> page \<Rightarrow> page" where
  "q6_step pf radio p = dispatch_change pf radio (p\<lparr>elements := set_checked radio True (elements p)\<rparr>)"

section \<open>Basic facts\<close>

lemma js_eq [simp]: "js a = js b \<longleftrightarrow> a = b"
  unfolding js_def by (rule inj_map_eq_map) (rule inj_of_char)

lemma js_Nil [simp]: "js s = [] \<longleftrightarrow> s = []" "[] = js s \<longleftrightarrow> s = []"
  by (auto simp: js_def)

lemma obj_get_obj_put: "obj_get (obj_put d k v) k' = (if k' = k then Some v else obj_get d k')"
  by (induction d) (auto simp: obj_get_def)

lemma obj_get_obj_set:
  "obj_get (obj_set d k v) k' = (if k' = k \<and> k \<noteq> js ''__proto__'' then Some v else obj_get d k')"
  by (simp add: obj_set_def obj_get_obj_put)

lemma obj_put_not_Nil [simp]: "obj_put d k v \<noteq> []"
  by (cases d) (auto split: if_splits)

lemma no_array_index [simp]: "\<not> is_digit (hd k) \<Longrightarrow> \<not> is_array_index k"
  by (cases k) (auto simp: is_array_index_def)

lemma obj_put_first [simp]:
  "k' \<noteq> k \<Longrightarrow> \<not> is_digit (hd k) \<Longrightarrow> obj_put ((k', v') # kvs) k v = (k', v') # obj_put kvs k v"
  by (simp add: comes_before_def)

text \<open>
  The order of the properties: an array index goes before the keys that are none and between
  the other indices by its number, and \<open>__proto__\<close> never becomes a property.
\<close>

lemma obj_set_order:
  "obj_set (obj_set (obj_set [] (js ''b'') x) (js ''10'') y) (js ''9'') z
     = [(js ''9'', z), (js ''10'', y), (js ''b'', x)]"
  "obj_set (obj_set [] (js ''01'') x) (js ''a'') y = [(js ''01'', x), (js ''a'', y)]"
  "obj_set d (js ''__proto__'') v = d"
  by (simp_all add: obj_set_def comes_before_def is_array_index_def digits_value_def)
     (simp_all add: js_def is_digit_def)

lemma serialize_checkbox_key:
  "k \<noteq> el_name el \<Longrightarrow> obj_get (snd (serialize_checkbox b els el st)) k = obj_get (snd st) k"
  by (auto simp: serialize_checkbox_def obj_get_obj_set Let_def split: prod.splits option.splits named.splits)

lemma serialize_text_key:
  "k \<noteq> el_name el \<Longrightarrow> obj_get (serialize_text pf els el d) k = obj_get d k"
  by (auto simp: serialize_text_def obj_get_obj_set Let_def split: option.splits list.splits)

lemma serialize_date_key:
  "k \<noteq> el_name el \<Longrightarrow> obj_get (serialize_date t el d) k = obj_get d k"
  by (auto simp: serialize_date_def obj_get_obj_set)

lemma serialize_element_key:
  "k \<noteq> el_name el \<Longrightarrow> obj_get (snd (serialize_element pf b t els el st)) k = obj_get (snd st) k"
  by (cases "el_kind el")
     (auto simp: serialize_element_def obj_get_obj_set serialize_checkbox_key serialize_text_key serialize_date_key)

lemma agree_obj_set:
  "\<forall>k. k \<noteq> x \<longrightarrow> obj_get d k = obj_get d' k \<Longrightarrow>
   \<forall>k. k \<noteq> x \<longrightarrow> obj_get (obj_set d n v) k = obj_get (obj_set d' n v) k"
  by (simp add: obj_get_obj_set)

lemma serialize_element_agree:
  assumes "agree_except (js ''q3a_sameAs2'') s t"
  shows "agree_except (js ''q3a_sameAs2'')
           (serialize_element pf True today els el s) (serialize_element pf False today els el t)"
proof (cases "el_kind el")
  case Checkbox
  then show ?thesis using assms
    by (cases s; cases t)
       (auto simp: serialize_element_def serialize_checkbox_def agree_except_def obj_get_obj_set Let_def
             split: option.splits named.splits)
next
  case Radio
  then show ?thesis using assms
    by (auto simp: serialize_element_def agree_except_def obj_get_obj_set)
next
  case Text
  then show ?thesis using assms
    by (auto simp: serialize_element_def serialize_text_def agree_except_def obj_get_obj_set Let_def
             split: option.splits list.splits)
next
  case Email
  then show ?thesis using assms
    by (auto simp: serialize_element_def serialize_text_def agree_except_def obj_get_obj_set Let_def
             split: option.splits list.splits)
next
  case Tel
  then show ?thesis using assms
    by (auto simp: serialize_element_def serialize_text_def agree_except_def obj_get_obj_set Let_def
             split: option.splits list.splits)
next
  case Date
  then show ?thesis using assms
    by (auto simp: serialize_element_def serialize_date_def agree_except_def obj_get_obj_set)
next
  case Textarea
  then show ?thesis using assms
    by (auto simp: serialize_element_def agree_except_def obj_get_obj_set)
next
  case OtherKind
  then show ?thesis using assms
    by (auto simp: serialize_element_def agree_except_def obj_get_obj_set)
qed

lemma serialize_fold_agree:
  "agree_except (js ''q3a_sameAs2'') s t \<Longrightarrow>
   agree_except (js ''q3a_sameAs2'')
     (fold (serialize_element pf True today els) xs s) (fold (serialize_element pf False today els) xs t)"
  by (induction xs arbitrary: s t) (simp_all add: serialize_element_agree)

lemma add_signature_key:
  "k \<noteq> js ''signature'' \<Longrightarrow> obj_get (add_signature sm d) k = obj_get d k"
  by (auto simp: add_signature_def obj_get_obj_set split: option.splits)

lemma add_signature_agree:
  "\<forall>k. k \<noteq> x \<longrightarrow> obj_get d k = obj_get d' k \<Longrightarrow>
   \<forall>k. k \<noteq> x \<longrightarrow> obj_get (add_signature sm d) k = obj_get (add_signature sm d') k"
  by (auto simp: add_signature_def obj_get_obj_set split: option.splits)

lemma serializeForm_Some: "serializeForm pf b sm (Some els) = Inr (snapshot pf b sm els)"
  by (simp add: serializeForm_def snapshot_def)

lemma includeDefaults_only_sameAs:
  "k \<noteq> js ''q3a_sameAs2'' \<Longrightarrow> obj_get (snapshot pf True sm els) k = obj_get (snapshot pf False sm els) k"
proof -
  have "agree_except (js ''q3a_sameAs2'')
     (fold (serialize_element pf True (getTodayYYYYMMDD pf) els) els ([], []))
     (fold (serialize_element pf False (getTodayYYYYMMDD pf) els) els ([], []))"
    by (rule serialize_fold_agree) (simp add: agree_except_def)
  then have "\<forall>k. k \<noteq> js ''q3a_sameAs2'' \<longrightarrow>
      obj_get (snd (fold (serialize_element pf True (getTodayYYYYMMDD pf) els) els ([], []))) k
    = obj_get (snd (fold (serialize_element pf False (getTodayYYYYMMDD pf) els) els ([], []))) k"
    by (simp add: agree_except_def)
  from add_signature_agree [OF this] show "k \<noteq> js ''q3a_sameAs2'' \<Longrightarrow> ?thesis"
    by (simp add: snapshot_def)
qed

lemma sample_today: "getTodayYYYYMMDD sample_platform = js ''2026-11-03''"
  by (simp add: getTodayYYYYMMDD_def sample_platform_def decimal.simps padStart2_def js_def)

section \<open>The missing form\<close>

text \<open>
  C6 (amended).  Without the form element \<open>serializeForm\<close> does not skip its work silently: it
  throws \<open>Error("Form not found")\<close> to its caller; with the form element it throws nothing
  and returns a snapshot.
\<close>

theorem serializeForm_throws_iff_form_missing:
  "serializeForm pf includeDefaults sm None = Inl (Error (js ''Form not found'')) \<and>
   (\<exists>data. serializeForm pf includeDefaults sm (Some els) = Inr data)"
  by (simp add: serializeForm_def)

theorem serializeForm_missing_form_counterexample:
  "serializeForm sample_platform False None None = Inl (Error (js ''Form not found''))"
  by (simp add: serializeForm_def)

section \<open>Lookups are stable under writes\<close>

lemma indices_from_cong:
  "map P els = map P els' \<Longrightarrow> indices_from n P els = indices_from n P els'"
proof (induction els arbitrary: els' n)
  case Nil then show ?case by simp
next
  case (Cons e es)
  then obtain e' es' where "els' = e' # es'" by (cases els') auto
  with Cons show ?case by auto
qed

lemma indices_cong: "map P els = map P els' \<Longrightarrow> indices P els = indices P els'"
  unfolding indices_def by (rule indices_from_cong)

lemma indices_from_mem:
  "i \<in> set (indices_from n P els) \<longleftrightarrow> n \<le> i \<and> i - n < length els \<and> P (els ! (i - n))"
proof (induction els arbitrary: n)
  case Nil
  then show ?case by simp
next
  case (Cons e es)
  show ?case
  proof (cases "i \<le> n")
    case True
    then show ?thesis using Cons [of "Suc n"] by (cases "i = n") auto
  next
    case False
    then have "i - n = Suc (i - Suc n)" by simp
    with False show ?thesis by (simp add: Cons)
  qed
qed

lemma indices_set: "set (indices P els) = {i. i < length els \<and> P (els ! i)}"
proof -
  have "\<And>i. i \<in> set (indices P els) \<longleftrightarrow> i < length els \<and> P (els ! i)"
    unfolding indices_def indices_from_mem by simp
  then show ?thesis by blast
qed

lemma map_update_el_same:
  "P (f (els ! j)) = P (els ! j) \<Longrightarrow> map P (update_el j f els) = map P els"
  by (cases "j < length els") (simp_all add: update_el_def map_update list_update_same_conv list_update_beyond)

lemma length_update_el [simp]: "length (update_el j f els) = length els"
  by (simp add: update_el_def)

lemma nth_update_el:
  "i < length els \<Longrightarrow> update_el j f els ! i = (if i = j then f (els ! i) else els ! i)"
  by (simp add: update_el_def)

lemma indices_update_el:
  "P (f (els ! j)) = P (els ! j) \<Longrightarrow> indices P (update_el j f els) = indices P els"
  by (rule indices_cong) (simp add: map_update_el_same)

lemma namedItem_update_el:
  "el_id (f (els ! j)) = el_id (els ! j) \<Longrightarrow> el_name (f (els ! j)) = el_name (els ! j) \<Longrightarrow>
   namedItem (update_el j f els) n = namedItem els n"
  by (simp add: namedItem_def indices_update_el matches_def)

lemma getElementById_update_el:
  "el_id (f (els ! j)) = el_id (els ! j) \<Longrightarrow> getElementById (update_el j f els) i = getElementById els i"
  by (simp add: getElementById_def indices_update_el)

lemma namedItem_Single_bound: "namedItem els n = Some (Single i) \<Longrightarrow> i < length els \<and> matches n (els ! i)"
proof -
  assume a: "namedItem els n = Some (Single i)"
  then have "indices (matches n) els = [i]"
    by (auto simp: namedItem_def split: if_splits list.splits)
  then have "i \<in> set (indices (matches n) els)" by simp
  then show ?thesis by (simp add: indices_set)
qed

section \<open>What a control stores\<close>

lemma normalize_newlines_id: "13 \<notin> set s \<Longrightarrow> normalize_newlines s = s"
  by (induction s rule: normalize_newlines.induct) auto

lemma strip_newlines_id: "10 \<notin> set s \<Longrightarrow> 13 \<notin> set s \<Longrightarrow> strip_newlines s = s"
  unfolding strip_newlines_def by (induction s) auto

lemma dropWhile_hd: "s \<noteq> [] \<Longrightarrow> \<not> P (hd s) \<Longrightarrow> dropWhile P s = s"
  by (cases s) simp_all

lemma strip_whitespace_id:
  assumes "s \<noteq> []" "\<not> is_ascii_whitespace (hd s)" "\<not> is_ascii_whitespace (last s)"
  shows "strip_whitespace s = s"
proof -
  have "dropWhile is_ascii_whitespace s = s" using assms(1,2) by (rule dropWhile_hd)
  moreover have "dropWhile is_ascii_whitespace (rev s) = rev s"
    using assms(1,3) by (intro dropWhile_hd) (simp_all add: hd_rev)
  ultimately show ?thesis by (simp add: strip_whitespace_def)
qed

lemma sanitize_Nil [simp]: "sanitize k [] = []"
  by (cases k) (simp_all add: strip_newlines_def strip_whitespace_def)

lemma sanitize_plain:
  assumes "k \<noteq> Date" "10 \<notin> set s" "13 \<notin> set s" "s \<noteq> []"
    "\<not> is_ascii_whitespace (hd s)" "\<not> is_ascii_whitespace (last s)"
  shows "sanitize k s = s"
  using assms by (cases k) (simp_all add: strip_newlines_id strip_whitespace_id normalize_newlines_id)

lemma update_el_store_value:
  "update_el i (store_value v) els = update_el i (\<lambda>e. e\<lparr>el_value := sanitize (el_kind (els ! i)) v\<rparr>) els"
  by (simp add: update_el_def store_value_def)

section \<open>Validation of unfilled fields\<close>

lemma validations_keys:
  "map fst (validations pf) = [js ''q3b_telephone'', js ''q3c_email'', js ''q3f_ssn'', js ''q3g_dob'']"
  by (simp add: validations_def)

lemma validations_check_empty: "map_of (validations pf) n = Some r \<Longrightarrow> check r []"
  by (auto simp: validations_def split: if_splits)

lemma validations_rule: "n \<in> set (map fst (validations pf)) \<Longrightarrow> \<exists>r. map_of (validations pf) n = Some r"
  by (auto simp: validations_def)

lemma elements_set_error_text [simp]: "elements (set_error_text i t p) = elements p"
  by (simp add: set_error_text_def)

lemma validateField_empty:
  assumes "el_name (elements p ! i) \<in> set (map fst (validations pf))" "el_value (elements p ! i) = []"
  shows "\<exists>p'. validateField pf (Some i) p = Inr (True, p') \<and>
              elements p' = update_el i (\<lambda>e. e\<lparr>el_invalid := False\<rparr>) (elements p)"
proof -
  from validations_rule [OF assms(1)] obtain r
    where r: "map_of (validations pf) (el_name (elements p ! i)) = Some r" by blast
  then have "check r (el_value (elements p ! i))"
    using validations_check_empty [OF r] assms(2) by simp
  with r show ?thesis by (simp add: validateField_def Let_def)
qed

lemma validateField_False:
  assumes "validateField pf (Some i) p = Inr (False, p')"
  shows "el_value (elements p ! i) \<noteq> []"
proof
  assume e: "el_value (elements p ! i) = []"
  show False
  proof (cases "map_of (validations pf) (el_name (elements p ! i))")
    case None
    with assms show False by (simp add: validateField_def Let_def split: if_splits)
  next
    case (Some r)
    with validations_check_empty [OF Some] e assms show False
      by (simp add: validateField_def Let_def)
  qed
qed

text \<open>
  A control whose name is neither a key of the table nor an inherited property passes whatever it
  holds; one named after an inherited property makes \<open>validateField\<close> throw.
\<close>

lemma validateField_no_rule:
  assumes "map_of (validations pf) (el_name (elements p ! i)) = None"
  shows "validateField pf (Some i) p =
     (if el_name (elements p ! i) \<in> set object_prototype_keys then Inl TypeError
      else Inr (True, set_error_text (el_id (elements p ! i)) []
                 (p\<lparr>elements := update_el i (\<lambda>e. e\<lparr>el_invalid := False\<rparr>) (elements p)\<rparr>)))"
  using assms by (simp add: validateField_def Let_def)

lemma inherited_name_throws:
  "validateField sample_platform (Some 0) inherited_name_page = Inl TypeError \<and>
   \<not> export_proceeds sample_platform inherited_name_page"
proof -
  have n: "el_name (elements inherited_name_page ! 0) = js ''constructor''"
    by (simp add: inherited_name_page_def sample_page_def ctl_def)
  have m: "map_of (validations sample_platform) (js ''constructor'') = None"
    by (simp add: validations_def)
  have v: "validateField sample_platform (Some 0) inherited_name_page = Inl TypeError"
    by (simp add: validateField_no_rule n m) (simp add: object_prototype_keys_def)
  have "namedItem (elements inherited_name_page) (js ''q3b_telephone'') = Some (Single 0)"
    by (simp add: inherited_name_page_def sample_page_def ctl_def namedItem_def indices_def matches_def)
  with v show ?thesis
    by (simp add: export_proceeds_def runAllValidations_def validations_keys)
qed

lemma validated_unfilled_update:
  assumes "elements p' = update_el j (\<lambda>e. e\<lparr>el_invalid := b\<rparr>) (elements p)"
  shows "validated_unfilled p' n = validated_unfilled p n"
proof -
  let ?f = "\<lambda>e. e\<lparr>el_invalid := b\<rparr>"
  have ni: "namedItem (update_el j ?f (elements p)) n = namedItem (elements p) n"
    by (simp add: namedItem_update_el)
  have "\<And>i. namedItem (elements p) n = Some (Single i) \<Longrightarrow>
     el_value (update_el j ?f (elements p) ! i) = el_value (elements p ! i) \<and>
     el_name (update_el j ?f (elements p) ! i) = el_name (elements p ! i)"
    by (drule namedItem_Single_bound) (simp add: nth_update_el)
  then show ?thesis
    by (auto simp: validated_unfilled_def assms ni split: option.splits named.splits)
qed

lemma validate_all_unfilled:
  "set names \<subseteq> set (map fst (validations pf)) \<Longrightarrow> list_all (validated_unfilled p) names \<Longrightarrow>
   \<exists>p'. validate_all pf names (b, p) = Ok (b, p')"
proof (induction names arbitrary: p)
  case Nil
  then show ?case by simp
next
  case (Cons n names)
  show ?case
  proof (cases "namedItem (elements p) n")
    case None
    with Cons show ?thesis by simp
  next
    case (Some nm)
    show ?thesis
    proof (cases nm)
      case (Single i)
      with Some Cons.prems have v: "el_value (elements p ! i) = []" and nm: "el_name (elements p ! i) = n"
        by (simp_all add: validated_unfilled_def)
      from nm Cons.prems(1) have k: "el_name (elements p ! i) \<in> set (map fst (validations pf))"
        by simp
      from validateField_empty [OF k v] obtain p'
        where vf: "validateField pf (Some i) p = Inr (True, p')"
          and e: "elements p' = update_el i (\<lambda>e. e\<lparr>el_invalid := False\<rparr>) (elements p)"
        by blast
      have "list_all (validated_unfilled p') names"
        using Cons.prems(2) validated_unfilled_update [OF e]
        by (simp add: list_all_iff)
      moreover have "set names \<subseteq> set (map fst (validations pf))" using Cons.prems(1) by simp
      ultimately show ?thesis using Cons.IH [of p'] Some Single vf by simp
    next
      case (Group gs)
      with Some Cons.prems show ?thesis by (simp add: validated_unfilled_def)
    qed
  qed
qed

text \<open>
  C10.  Every predicate of the table accepts the empty string.  For a control that bears the
  name of a key of the table and holds the empty string, \<open>validateField\<close> returns \<open>true\<close> and
  leaves the control unmarked; whenever \<open>validateField\<close> returns \<open>false\<close>, the control holds a
  non-empty value; and when every field of the table is absent or an empty control of that
  name, \<open>runAllValidations\<close> returns \<open>true\<close> and the export goes on.
\<close>

theorem empty_value_passes_validation:
  "list_all (\<lambda>rule. check (snd rule) []) (validations pf) \<and>
   (el_name (elements p ! i) \<in> set (map fst (validations pf)) \<and> el_value (elements p ! i) = [] \<longrightarrow>
      (\<exists>p'. validateField pf (Some i) p = Inr (True, p') \<and>
            (i < length (elements p) \<longrightarrow> \<not> el_invalid (elements p' ! i)))) \<and>
   (validateField pf (Some j) q = Inr (False, q') \<longrightarrow> el_value (elements q ! j) \<noteq> []) \<and>
   (list_all (validated_unfilled p) (map fst (validations pf)) \<longrightarrow> export_proceeds pf p)"
proof (intro conjI impI)
  show "list_all (\<lambda>rule. check (snd rule) []) (validations pf)"
    by (simp add: validations_def)
  show "\<exists>p'. validateField pf (Some i) p = Inr (True, p') \<and>
            (i < length (elements p) \<longrightarrow> \<not> el_invalid (elements p' ! i))"
    if a: "el_name (elements p ! i) \<in> set (map fst (validations pf)) \<and> el_value (elements p ! i) = []"
  proof -
    from a validateField_empty [of p i pf] obtain p'
      where "validateField pf (Some i) p = Inr (True, p')"
        and "elements p' = update_el i (\<lambda>e. e\<lparr>el_invalid := False\<rparr>) (elements p)"
      by blast
    then show ?thesis by (auto simp: nth_update_el)
  qed
  show "el_value (elements q ! j) \<noteq> []" if "validateField pf (Some j) q = Inr (False, q')"
    using that by (rule validateField_False)
  show "export_proceeds pf p" if "list_all (validated_unfilled p) (map fst (validations pf))"
  proof -
    from validate_all_unfilled [OF subset_refl that, of True]
    obtain p' where "validate_all pf (map fst (validations pf)) (True, p) = Ok (True, p')"
      by blast
    then show ?thesis
      by (simp add: export_proceeds_def runAllValidations_def)
  qed
qed

theorem empty_value_passes_validation_witness:
  "el_name (elements unfilled_page ! 0) \<in> set (map fst (validations sample_platform)) \<and>
   el_value (elements unfilled_page ! 0) = [] \<and> 0 < length (elements unfilled_page) \<and>
   list_all (validated_unfilled unfilled_page) (map fst (validations sample_platform)) \<and>
   (\<exists>p'. validateField sample_platform (Some 0) unfilled_page = Inr (True, p') \<and>
         \<not> el_invalid (elements p' ! 0)) \<and>
   validateField sample_platform (Some 0)
       (sample_page [ctl ''q3b_telephone'' ''q3b_telephone'' Tel ''x'' False])
     = Inr (False, set_error_text (js ''q3b_telephone'') (js ''Must only contain digits and separators.'')
              (sample_page [(ctl ''q3b_telephone'' ''q3b_telephone'' Tel ''x'' False)\<lparr>el_invalid := True\<rparr>])) \<and>
   el_value (elements (sample_page [ctl ''q3b_telephone'' ''q3b_telephone'' Tel ''x'' False]) ! 0) \<noteq> [] \<and>
   export_proceeds sample_platform unfilled_page"
proof -
  let ?q = "sample_page [ctl ''q3b_telephone'' ''q3b_telephone'' Tel ''x'' False]"
  let ?q' = "set_error_text (js ''q3b_telephone'') (js ''Must only contain digits and separators.'')
              (sample_page [(ctl ''q3b_telephone'' ''q3b_telephone'' Tel ''x'' False)\<lparr>el_invalid := True\<rparr>])"
  have a: "el_value (elements unfilled_page ! 0) = []"
    "el_name (elements unfilled_page ! 0) \<in> set (map fst (validations sample_platform))"
    by (simp_all add: unfilled_page_def sample_page_def ctl_def validations_keys)
  have b: "0 < length (elements unfilled_page)"
    by (simp add: unfilled_page_def sample_page_def)
  have c: "list_all (validated_unfilled unfilled_page) (map fst (validations sample_platform))"
    by (simp add: unfilled_page_def sample_page_def ctl_def validated_unfilled_def validations_keys
          namedItem_def indices_def matches_def)
  have x: "\<not> telephone_re (js ''x'')"
    by (simp add: telephone_re_def js_def is_digit_def is_space_def)
  have d: "validateField sample_platform (Some 0) ?q = Inr (False, ?q')"
    by (simp add: validateField_def validations_def sample_page_def ctl_def Let_def x update_el_def)
  show ?thesis
    using empty_value_passes_validation [of sample_platform unfilled_page 0 0 ?q ?q'] a b c d
    by blast
qed

section \<open>The telephone field\<close>

lemma getElementById_Some:
  assumes "getElementById els i = Some n"
  shows "n < length els" "el_id (els ! n) = i"
proof -
  from assms have "n \<in> set (indices (\<lambda>e. el_id e = i) els)"
    by (auto simp: getElementById_def split: list.splits)
  then show "n < length els" "el_id (els ! n) = i" by (simp_all add: indices_set)
qed

lemma ascii_upper_fixes: "list_all (\<lambda>c. \<not> (97 \<le> c \<and> c \<le> 122)) s \<Longrightarrow> ascii_upper s = s"
  by (induction s) (auto simp: ascii_upper_def)

lemma sample_upper_fixes_separators: "upper_fixes_separators sample_platform"
proof -
  have "\<And>s. list_all is_separator s \<Longrightarrow> list_all (\<lambda>c. \<not> (97 \<le> c \<and> c \<le> 122)) s"
    by (auto simp: list_all_iff is_separator_def is_digit_def)
  then show ?thesis
    by (simp add: upper_fixes_separators_def sample_platform_def ascii_upper_fixes)
qed

lemma normalizeToUppercase_fixed:
  "toUpperCase pf (el_value (elements p ! n)) = el_value (elements p ! n) \<Longrightarrow>
   normalizeToUppercase pf n p = Ok p"
  by (simp add: normalizeToUppercase_def Let_def)

lemma validateField_elements:
  "validateField pf (Some i) p = Inr (b, p') \<Longrightarrow>
   elements p' = update_el i (\<lambda>e. e\<lparr>el_invalid := \<not> b\<rparr>) (elements p)"
  by (auto simp: validateField_def Let_def split: option.splits if_splits)

lemma validation_listener_values:
  "map el_value (elements (listener (validation_listener pf f) p)) = map el_value (elements p)"
proof (cases "validateField pf (Some f) p")
  case (Inl e)
  then show ?thesis by (simp add: listener_def validation_listener_def)
next
  case (Inr r)
  obtain b p' where r: "r = (b, p')" by (cases r)
  from validateField_elements [OF Inr [unfolded r]]
  have "map el_value (elements p') = map el_value (elements p)"
    by (simp add: map_update_el_same)
  with Inr r show ?thesis by (simp add: listener_def validation_listener_def)
qed

lemma validation_listeners_values:
  "map el_value (elements (fold (\<lambda>field. listener (validation_listener pf field)) fs p))
     = map el_value (elements p)"
  by (induction fs arbitrary: p) (simp_all add: validation_listener_values)

lemma telephone_blur_value:
  assumes "getElementById (elements p) (js ''q3b_telephone'') = Some t"
    and "length (elements (listener (phone_blur pf) p)) = length (elements p)"
  shows "el_value (elements (telephone_blur pf p) ! t)
           = el_value (elements (listener (phone_blur pf) p) ! t)"
proof -
  let ?p1 = "listener (phone_blur pf) p"
  let ?fs = "filter (\<lambda>field. field = t) (blur_fields (elements p) (map fst (validations pf)))"
  let ?p2 = "fold (\<lambda>field. listener (validation_listener pf field)) ?fs ?p1"
  have m: "map el_value (elements ?p2) = map el_value (elements ?p1)"
    by (rule validation_listeners_values)
  have t: "t < length (elements ?p1)"
    using assms(2) getElementById_Some(1) [OF assms(1)] by simp
  then have "t < length (elements ?p2)" using m by (metis length_map)
  then have "el_value (elements ?p2 ! t) = map el_value (elements ?p2) ! t" by simp
  also have "\<dots> = el_value (elements ?p1 ! t)" using m t by simp
  finally show ?thesis using assms(1) by (simp add: telephone_blur_def)
qed

text \<open>
  C9.  When the digit characters of the telephone field are exactly ten, \<open>d0\<close> to \<open>d9\<close> in
  their order, the \<open>blur\<close> listener returns with the field rewritten to
  \<open>(d0 d1 d2) d3 d4 d5-d6 d7 d8 d9\<close> (an opening parenthesis, three digits, a closing
  parenthesis, a space, three digits, a hyphen, four digits) and nothing else changed, and the
  field holds that value after the whole \<open>blur\<close> event.
\<close>

theorem phone_blur_formats_ten_digits:
  assumes "upper_fixes_separators pf"
    and "getElementById (elements p) (js ''q3b_telephone'') = Some t"
    and "el_kind (elements p ! t) \<noteq> Date"
    and "filter is_digit (el_value (elements p ! t)) = [d0, d1, d2, d3, d4, d5, d6, d7, d8, d9]"
  shows "phone_blur pf p =
           Ok (p\<lparr>elements :=
                   update_el t
                     (\<lambda>e. e\<lparr>el_value := [40, d0, d1, d2, 41, 32, d3, d4, d5, 45, d6, d7, d8, d9]\<rparr>)
                     (elements p)\<rparr>) \<and>
         el_value (elements (telephone_blur pf p) ! t)
           = [40, d0, d1, d2, 41, 32, d3, d4, d5, 45, d6, d7, d8, d9]"
proof -
  let ?d = "[d0, d1, d2, d3, d4, d5, d6, d7, d8, d9]"
  let ?f = "[40, d0, d1, d2, 41, 32, d3, d4, d5, 45, d6, d7, d8, d9]"
  let ?p1 = "p\<lparr>elements := update_el t (\<lambda>e. e\<lparr>el_value := ?f\<rparr>) (elements p)\<rparr>"
  have t: "t < length (elements p)" using assms(2) by (rule getElementById_Some)
  have "list_all is_digit (filter is_digit (el_value (elements p ! t)))"
    by (simp add: list_all_iff)
  then have d: "list_all is_digit ?d" by (simp only: assms(4))
  have fp: "format_phone ?d = ?f"
    by (simp add: format_phone_def js_def)
  have sep: "list_all is_separator ?f"
    using d by (simp add: is_separator_def)
  have san: "sanitize (el_kind (elements p ! t)) ?f = ?f"
    using assms(3) d by (intro sanitize_plain) (auto simp: is_digit_def is_ascii_whitespace_def)
  have st: "update_el t (store_value (format_phone ?d)) (elements p)
              = update_el t (\<lambda>e. e\<lparr>el_value := ?f\<rparr>) (elements p)"
    by (simp add: update_el_store_value fp san)
  have v1: "el_value (elements ?p1 ! t) = ?f"
    using t by (simp add: nth_update_el)
  have "toUpperCase pf ?f = ?f"
    using assms(1) sep by (simp add: upper_fixes_separators_def)
  with v1 have n: "normalizeToUppercase pf t ?p1 = Ok ?p1"
    by (simp only: normalizeToUppercase_fixed)
  have pb: "phone_blur pf p = Ok ?p1"
    using assms(2) by (simp add: phone_blur_def with_id_def Let_def assms(4) st n)
  have "length (elements (listener (phone_blur pf) p)) = length (elements p)"
    by (simp add: listener_def pb)
  from telephone_blur_value [OF assms(2) this]
  have "el_value (elements (telephone_blur pf p) ! t) = ?f"
    using t by (simp add: listener_def pb nth_update_el)
  with pb show ?thesis by simp
qed

lemma phone_page_lookup: "getElementById (elements phone_page) (js ''q3b_telephone'') = Some 0"
  by (simp add: phone_page_def sample_page_def ctl_def getElementById_def indices_def)

lemma phone_page_digits:
  "filter is_digit (el_value (elements phone_page ! 0)) = [49, 50, 51, 52, 53, 54, 55, 56, 57, 48]"
  by (simp add: phone_page_def sample_page_def ctl_def js_def is_digit_def)

lemma phone_page_formatted: "[40, 49, 50, 51, 41, 32, 52, 53, 54, 45, 55, 56, 57, 48] = js ''(123) 456-7890''"
  by (simp add: js_def)

lemma telephone_re_example: "telephone_re (js ''(123) 456-7890'')"
  by (simp add: telephone_re_def js_def is_digit_def is_space_def)

theorem phone_blur_formats_ten_digits_witness:
  "upper_fixes_separators sample_platform \<and>
   getElementById (elements phone_page) (js ''q3b_telephone'') = Some 0 \<and>
   el_kind (elements phone_page ! 0) \<noteq> Date \<and>
   el_value (elements phone_page ! 0) = js ''1234567890'' \<and>
   filter is_digit (el_value (elements phone_page ! 0)) = js ''1234567890'' \<and>
   phone_blur sample_platform phone_page
     = Ok (sample_page [ctl ''q3b_telephone'' ''q3b_telephone'' Tel ''(123) 456-7890'' False]) \<and>
   el_value (elements (telephone_blur sample_platform phone_page) ! 0) = js ''(123) 456-7890'' \<and>
   serializeForm sample_platform True (Some None)
       (Some (elements (state_of (phone_blur sample_platform phone_page))))
     = Inr [(js ''q3b_telephone'', JStr (js ''(123) 456-7890''))]"
proof -
  let ?after = "[ctl ''q3b_telephone'' ''q3b_telephone'' Tel ''(123) 456-7890'' False]"
  have k: "el_kind (elements phone_page ! 0) \<noteq> Date"
    "el_value (elements phone_page ! 0) = js ''1234567890''"
    by (simp_all add: phone_page_def sample_page_def ctl_def)
  have j: "js ''1234567890'' = [49, 50, 51, 52, 53, 54, 55, 56, 57, 48]"
    by (simp add: js_def)
  note main = phone_blur_formats_ten_digits
    [OF sample_upper_fixes_separators phone_page_lookup k(1) phone_page_digits]
  have u: "phone_page\<lparr>elements := update_el 0 (\<lambda>e. e\<lparr>el_value := js ''(123) 456-7890''\<rparr>) (elements phone_page)\<rparr>
             = sample_page ?after"
    by (simp add: phone_page_def sample_page_def ctl_def update_el_def)
  from main have pb: "phone_blur sample_platform phone_page = Ok (sample_page ?after)"
    and tb: "el_value (elements (telephone_blur sample_platform phone_page) ! 0) = js ''(123) 456-7890''"
    by (simp_all only: phone_page_formatted u)
  have dg: "filter is_digit (el_value (elements phone_page ! 0)) = js ''1234567890''"
    by (simp only: phone_page_digits j)
  have x: "serializeForm sample_platform True (Some None) (Some ?after)
        = Inr [(js ''q3b_telephone'', JStr (js ''(123) 456-7890''))]"
    by (simp add: serializeForm_def serialize_element_def serialize_text_def endsWith_def
          add_signature_def ctl_def obj_set_def)
       (simp add: sample_platform_def ascii_upper_def js_def)
  have e: "elements (sample_page ?after) = ?after" by (simp add: sample_page_def)
  show ?thesis
    using sample_upper_fixes_separators phone_page_lookup k dg pb tb
    by (simp add: x e)
qed

section \<open>Saving the state to the address\<close>

lemma non_latin1_snapshot:
  "serializeForm sample_platform False (Some None) (Some (elements non_latin1_page))
     = Inr [(js ''q2_fullName'', JStr [321])]"
  by (simp add: non_latin1_page_def sample_page_def ctl_def serializeForm_def serialize_element_def
        serialize_text_def endsWith_def add_signature_def obj_set_def)
     (simp add: sample_platform_def ascii_upper_def js_def)

lemma non_latin1_btoa:
  "btoa (JSON_stringify (JObj [(js ''q2_fullName'', JStr [321])])) = Inl InvalidCharacterError"
  by (simp add: btoa_def quote_def is_high_surrogate_def is_low_surrogate_def)

text \<open>
  C1.  The snapshot of a form whose name field holds the upper-case letter U+0141 is made of the
  value types of the data model, yet \<open>saveStateToHash\<close> throws \<open>InvalidCharacterError\<close> on it
  and leaves the page as it was: no fragment exists that decoding could read back.
\<close>

theorem saveStateToHash_non_latin1_throws:
  "serializeForm sample_platform False (signatureManager non_latin1_page)
       (Some (elements non_latin1_page)) = Inr [(js ''q2_fullName'', JStr [321])] \<and>
   toUpperCase sample_platform [321] = [321] \<and>
   saveStateToHash sample_platform non_latin1_page = Throw InvalidCharacterError non_latin1_page"
proof -
  have sm: "signatureManager non_latin1_page = Some None"
    by (simp add: non_latin1_page_def sample_page_def)
  have up: "toUpperCase sample_platform [321] = [321]"
    by (simp add: sample_platform_def ascii_upper_def)
  show ?thesis
    by (simp add: sm up saveStateToHash_def non_latin1_snapshot non_latin1_btoa
          del: JSON_stringify.simps)
qed

lemma stale_elements:
  "elements stale_fragment_page = elements non_latin1_page"
  "signatureManager stale_fragment_page = Some None"
  by (simp_all add: stale_fragment_page_def non_latin1_page_def sample_page_def)

text \<open>
  C7.  On the same form, at an address that carries the fragment \<open>e30\<close>, the snapshot is not
  empty and \<open>saveStateToHash\<close> neither sets nor clears the fragment: it throws and the address
  stays as it was.
\<close>

theorem saveStateToHash_non_latin1_keeps_fragment:
  "serializeForm sample_platform False (signatureManager stale_fragment_page)
       (Some (elements stale_fragment_page)) \<noteq> Inr [] \<and>
   \<not> returns (saveStateToHash sample_platform stale_fragment_page) \<and>
   url_fragment (location (state_of (saveStateToHash sample_platform stale_fragment_page))) = js ''e30''"
proof -
  have "saveStateToHash sample_platform stale_fragment_page
          = Throw InvalidCharacterError stale_fragment_page"
    by (simp add: saveStateToHash_def stale_elements non_latin1_snapshot non_latin1_btoa
          del: JSON_stringify.simps)
  moreover have "url_fragment (location stale_fragment_page) = js ''e30''"
    by (simp add: stale_fragment_page_def)
  ultimately show ?thesis
    by (simp add: stale_elements non_latin1_snapshot)
qed

text \<open>What \<open>saveStateToHash\<close> does in general: it never touches the entries before the current
  one nor the form; an empty snapshot clears the fragment; a snapshot whose JSON text stays
  within code units up to 255 sets a non-empty fragment; any other snapshot makes it throw.\<close>

lemma base64_encode_Nil: "base64_encode s = [] \<longleftrightarrow> s = []"
  by (induction s rule: base64_encode.induct) simp_all

lemma saveStateToHash_history:
  "history_back (state_of (saveStateToHash pf p)) = history_back p \<and>
   elements (state_of (saveStateToHash pf p)) = elements p"
  by (simp add: saveStateToHash_def serializeForm_Some replaceState_fragment_def btoa_def)

lemma saveStateToHash_empty:
  "snapshot pf False (signatureManager p) (elements p) = [] \<Longrightarrow>
   saveStateToHash pf p = Ok (replaceState_fragment [] p)"
  by (simp add: saveStateToHash_def serializeForm_Some)

lemma saveStateToHash_latin1:
  "snapshot pf False (signatureManager p) (elements p) = d \<Longrightarrow> d \<noteq> [] \<Longrightarrow>
   list_all (\<lambda>c. c \<le> 255) (JSON_stringify (JObj d)) \<Longrightarrow>
   saveStateToHash pf p = Ok (replaceState_fragment (urlsafe (base64_encode (JSON_stringify (JObj d)))) p)"
  by (simp add: saveStateToHash_def serializeForm_Some btoa_def)

lemma saveStateToHash_throws:
  "snapshot pf False (signatureManager p) (elements p) = d \<Longrightarrow> d \<noteq> [] \<Longrightarrow>
   \<not> list_all (\<lambda>c. c \<le> 255) (JSON_stringify (JObj d)) \<Longrightarrow>
   saveStateToHash pf p = Throw InvalidCharacterError p"
  by (simp add: saveStateToHash_def serializeForm_Some btoa_def)

section \<open>Where deserializeForm throws\<close>

lemma shape_update_el:
  "shape (f (els ! j)) = shape (els ! j) \<Longrightarrow> map shape (update_el j f els) = map shape els"
  by (rule map_update_el_same)

lemma shape_uncheck_map:
  "map shape (map (\<lambda>e. if g e then e\<lparr>el_checked := False\<rparr> else e) els) = map shape els"
  by (induction els) (auto simp: shape_def)

lemma shape_check_update:
  "map shape (update_el i (\<lambda>e. e\<lparr>el_checked := c\<rparr>) xs) = map shape xs"
  by (rule shape_update_el) (simp add: shape_def)

lemma shape_set_checked [simp]: "map shape (set_checked i b els) = map shape els"
proof (cases "b \<and> el_kind (els ! i) = Radio \<and> el_name (els ! i) \<noteq> []")
  case True
  then have "set_checked i b els =
      update_el i (\<lambda>e. e\<lparr>el_checked := True\<rparr>)
        (map (\<lambda>e. if el_kind e = Radio \<and> el_name e = el_name (els ! i)
                   then e\<lparr>el_checked := False\<rparr> else e) els)"
    unfolding set_checked_def by (rule if_P)
  then show ?thesis by (simp only: shape_check_update shape_uncheck_map)
next
  case False
  then have "set_checked i b els = update_el i (\<lambda>e. e\<lparr>el_checked := b\<rparr>) els"
    unfolding set_checked_def by (rule if_not_P)
  then show ?thesis by (simp only: shape_check_update)
qed

lemma length_set_checked [simp]: "length (set_checked i b els) = length els"
  by (simp add: set_checked_def)

lemma shape_fold_set_checked [simp]:
  "map shape (fold (\<lambda>c els. set_checked c (g c els) els) cs els) = map shape els"
  by (induction cs arbitrary: els) simp_all

lemma same_shape_matches:
  assumes "map shape els' = map shape els"
  shows "map (matches n) els' = map (matches n) els"
proof -
  have "map (matches n) els' = map (\<lambda>s. fst s = n \<or> fst (snd s) = n) (map shape els')"
    by (simp add: matches_def shape_def)
  also have "\<dots> = map (\<lambda>s. fst s = n \<or> fst (snd s) = n) (map shape els)"
    by (simp only: assms)
  also have "\<dots> = map (matches n) els"
    by (simp add: matches_def shape_def)
  finally show ?thesis .
qed

lemma same_shape_namedItem:
  assumes "map shape els' = map shape els"
  shows "namedItem els' n = namedItem els n"
proof -
  have "indices (matches n) els' = indices (matches n) els"
    by (rule indices_cong [OF same_shape_matches [OF assms]])
  then show ?thesis by (simp add: namedItem_def)
qed

lemma same_shape_length: "map shape els' = map shape els \<Longrightarrow> length els' = length els"
  by (rule map_eq_imp_length_eq)

lemma same_shape_nth:
  assumes "map shape els' = map shape els" "i < length els"
  shows "shape (els' ! i) = shape (els ! i)"
proof -
  have "length els' = length els" using assms(1) by (rule same_shape_length)
  with assms(2) have "shape (els' ! i) = map shape els' ! i" by simp
  also have "\<dots> = map shape els ! i" by (simp only: assms(1))
  also have "\<dots> = shape (els ! i)" using assms(2) by simp
  finally show ?thesis .
qed

lemma same_shape_kind:
  "map shape els' = map shape els \<Longrightarrow> i < length els \<Longrightarrow> el_kind (els' ! i) = el_kind (els ! i)"
  by (drule (1) same_shape_nth) (simp add: shape_def)

lemma namedItem_Group_members:
  assumes "namedItem els n = Some (Group gs)"
  shows "gs \<noteq> []" "set gs \<subseteq> {i. i < length els}"
proof -
  from assms have g: "indices (matches n) els = gs" and "gs \<noteq> []"
    by (auto simp: namedItem_def split: if_splits list.splits)
  then show "gs \<noteq> []" by simp
  from g have "set gs = set (indices (matches n) els)" by simp
  then show "set gs \<subseteq> {i. i < length els}" by (auto simp: indices_set)
qed

lemma namedItem_Group_hd:
  "namedItem els n = Some (Group gs) \<Longrightarrow> hd gs < length els"
  using namedItem_Group_members [of els n gs] by (cases gs) auto

lemma same_shape_field_throws:
  assumes "map shape els' = map shape els"
  shows "field_throws els' kv = field_throws els kv"
proof -
  have n: "namedItem els' (fst kv) = namedItem els (fst kv)"
    using assms by (rule same_shape_namedItem)
  show ?thesis
    unfolding field_throws_def n
    by (auto split: option.splits named.splits
         dest!: namedItem_Single_bound namedItem_Group_hd
         simp: same_shape_kind [OF assms])
qed

lemma deserialize_radio_shape:
  "deserialize_radio nm v els = Inr els' \<Longrightarrow> map shape els' = map shape els"
  by (cases nm) (auto simp: deserialize_radio_def)

lemma deserialize_checkbox_shape:
  "deserialize_checkbox nm v els = Inr els' \<Longrightarrow> map shape els' = map shape els"
  by (cases v; cases nm) (auto simp: deserialize_checkbox_def split: if_splits)

lemma shape_store_value [simp]: "shape (store_value s e) = shape e"
  by (simp add: shape_def store_value_def)

lemma deserialize_value_shape:
  "deserialize_value pf i v els = Inr els' \<Longrightarrow> map shape els' = map shape els"
  by (auto simp: deserialize_value_def Let_def shape_update_el split: option.splits)

lemma ToString_None_iff:
  "ToString v = None \<longleftrightarrow> no_string v"
  "element_strings xs = None \<longleftrightarrow> list_ex no_string xs"
proof (induction v and xs rule: ToString_element_strings.induct)
  case (8 x xs)
  then show ?case by (cases x) (auto split: option.splits)
qed simp_all

lemma toDOMString_None_iff: "toDOMString v = None \<longleftrightarrow> no_string v"
  by (cases v) (simp_all add: toDOMString_def ToString_None_iff del: ToString.simps)

lemma deserialize_value_throws_iff:
  "(\<exists>e. deserialize_value pf i v els = Inl e) \<longleftrightarrow> no_string v"
proof (cases v)
  case (JStr s)
  then show ?thesis by (simp add: deserialize_value_def toDOMString_def)
qed (auto simp: deserialize_value_def toDOMString_None_iff [symmetric] split: option.splits)

lemma deserialize_value_TypeError: "deserialize_value pf i v els = Inl e \<Longrightarrow> e = TypeError"
  by (auto simp: deserialize_value_def Let_def split: option.splits)

lemma deserialize_value_stores:
  assumes "\<not> is_string v" "toDOMString v = Some s"
  shows "deserialize_value pf i v els = Inr (update_el i (store_value s) els)"
  using assms by (cases v) (simp_all add: deserialize_value_def)

lemma deserialize_field_shape:
  assumes "deserialize_field pf kv els = Inr els'"
  shows "map shape els' = map shape els"
proof (cases kv)
  case (Pair key v)
  show ?thesis
  proof (cases "key = js ''signature''")
    case True
    with Pair assms show ?thesis by (simp add: deserialize_field_def)
  next
    case False
    show ?thesis
    proof (cases "namedItem els key")
      case None
      with Pair False assms show ?thesis by (simp add: deserialize_field_def)
    next
      case (Some nm)
      show ?thesis
      proof (cases "as_list nm")
        case Nil
        with Pair False Some assms show ?thesis by (simp add: deserialize_field_def)
      next
        case (Cons el rest)
        with Pair False Some assms show ?thesis
          by (auto simp: deserialize_field_def split: if_splits
                dest: deserialize_radio_shape deserialize_checkbox_shape deserialize_value_shape)
      qed
    qed
  qed
qed

lemma deserialize_radio_TypeError: "deserialize_radio nm v els = Inl e \<Longrightarrow> e = TypeError"
  by (cases nm) (auto simp: deserialize_radio_def)

lemma deserialize_checkbox_TypeError: "deserialize_checkbox nm v els = Inl e \<Longrightarrow> e = TypeError"
  by (cases v; cases nm) (auto simp: deserialize_checkbox_def split: if_splits)

lemma deserialize_radio_throws_iff:
  "(\<exists>e. deserialize_radio nm v els = Inl e) \<longleftrightarrow> (case nm of Single _ \<Rightarrow> True | Group _ \<Rightarrow> False)"
  by (cases nm) (simp_all add: deserialize_radio_def)

lemma deserialize_checkbox_throws_iff:
  "(\<exists>e. deserialize_checkbox (Single i) v els = Inl e) \<longleftrightarrow> \<not> is_boolean v"
  "gs \<noteq> [] \<Longrightarrow>
   (\<exists>e. deserialize_checkbox (Group gs) v els = Inl e) \<longleftrightarrow> \<not> is_boolean v \<and> \<not> has_includes v"
  by (cases v; simp add: deserialize_checkbox_def)+

lemma deserialize_field_throws_iff:
  "(\<exists>e. deserialize_field pf kv els = Inl e) \<longleftrightarrow> field_throws els kv"
proof (cases kv)
  case (Pair key v)
  show ?thesis
  proof (cases "key = js ''signature''")
    case True
    with Pair show ?thesis by (simp add: deserialize_field_def field_throws_def)
  next
    case False
    show ?thesis
    proof (cases "namedItem els key")
      case None
      with Pair False show ?thesis by (simp add: deserialize_field_def field_throws_def)
    next
      case (Some nm)
      show ?thesis
      proof (cases nm)
        case (Single i)
        with Pair False Some show ?thesis
          by (simp add: deserialize_field_def field_throws_def deserialize_radio_throws_iff
                deserialize_checkbox_throws_iff deserialize_value_throws_iff)
      next
        case (Group gs)
        with Some have "gs \<noteq> []" by (auto dest: namedItem_Group_members)
        then obtain g gs' where gs: "gs = g # gs'" by (cases gs) auto
        with Pair False Some Group show ?thesis
          by (simp add: deserialize_field_def field_throws_def deserialize_radio_throws_iff
                deserialize_checkbox_throws_iff deserialize_value_throws_iff)
      qed
    qed
  qed
qed

lemma deserialize_field_TypeError:
  assumes "deserialize_field pf kv els = Inl e"
  shows "e = TypeError"
proof (cases kv)
  case (Pair key v)
  show ?thesis
  proof (cases "key = js ''signature''")
    case True
    with Pair assms show ?thesis by (simp add: deserialize_field_def)
  next
    case False
    show ?thesis
    proof (cases "namedItem els key")
      case None
      with Pair False assms show ?thesis by (simp add: deserialize_field_def)
    next
      case (Some nm)
      show ?thesis
      proof (cases "as_list nm")
        case Nil
        with Pair False Some assms show ?thesis by (simp add: deserialize_field_def)
      next
        case (Cons el rest)
        with Pair False Some assms show ?thesis
          by (auto simp: deserialize_field_def split: if_splits
                dest: deserialize_radio_TypeError deserialize_checkbox_TypeError
                  deserialize_value_TypeError)
      qed
    qed
  qed
qed

lemma deserialize_fields_returns_iff:
  "returns (deserialize_fields pf data els) \<longleftrightarrow> \<not> list_ex (field_throws els) data"
proof (induction data arbitrary: els)
  case Nil
  then show ?case by simp
next
  case (Cons kv data)
  show ?case
  proof (cases "deserialize_field pf kv els")
    case (Inl e)
    then have "field_throws els kv" using deserialize_field_throws_iff [of pf kv els] by blast
    with Inl show ?thesis by simp
  next
    case (Inr els')
    then have "\<not> field_throws els kv" using deserialize_field_throws_iff [of pf kv els] by auto
    moreover have "list_ex (field_throws els') data = list_ex (field_throws els) data"
      using same_shape_field_throws [OF deserialize_field_shape [OF Inr]]
      by (simp add: list_ex_iff)
    ultimately show ?thesis using Inr Cons.IH [of els'] by simp
  qed
qed

lemma deserialize_fields_TypeError:
  "deserialize_fields pf data els = Throw e s \<Longrightarrow> e = TypeError"
proof (induction data arbitrary: els)
  case Nil
  then show ?case by simp
next
  case (Cons kv data)
  then show ?case
    by (auto split: sum.splits dest: deserialize_field_TypeError)
qed

lemma elements_replaceState [simp]: "elements (replaceState_fragment f p) = elements p"
  by (simp add: replaceState_fragment_def)

lemma elements_signature_clear [simp]: "elements (signature_clear pf p) = elements p"
  using saveStateToHash_history [of pf "p\<lparr>signatureManager := Some None\<rparr>"]
  by (simp add: signature_clear_def)

lemma elements_signature_deserialize [simp]: "elements (signature_deserialize pf v p) = elements p"
  by (simp add: signature_deserialize_def split: option.splits)

lemma deserializeForm_fields:
  "\<exists>p1. elements p1 = elements p \<and>
     deserializeForm pf data p =
       (case deserialize_fields pf data (elements p) of
          Ok els \<Rightarrow> Ok (p1\<lparr>elements := els\<rparr>)
        | Throw e els \<Rightarrow> Throw e (p1\<lparr>elements := els\<rparr>))"
proof -
  let ?p1 = "case obj_get data (js ''signature'') of
                  None \<Rightarrow> p
                | Some sig \<Rightarrow>
                    if truthy sig \<and> signatureManager p \<noteq> None
                    then signature_deserialize pf sig p else p"
  have "elements ?p1 = elements p" by (simp split: option.splits)
  then show ?thesis
    by (intro exI [of _ ?p1]) (simp add: deserializeForm_def Let_def)
qed

text \<open>
  C3 (amended).  \<open>deserializeForm\<close> returns exactly when no entry of the snapshot is one on which
  the loop body throws (a lone radio; a lone checkbox with a value that is no boolean; a list
  headed by a checkbox with a value that is no boolean, no string and no array; a control of
  another kind with a value that has no string), and what it throws is a \<open>TypeError\<close>.  An
  entry whose key is \<open>signature\<close> or names no control is skipped, and an entry for a control
  that is neither a radio nor a checkbox, with a value that is no string but has one, stores
  that string, as the control's type sanitizes it.
\<close>

theorem deserializeForm_throws_exactly:
  "(returns (deserializeForm pf data p) \<longleftrightarrow> \<not> list_ex (field_throws (elements p)) data) \<and>
   (case deserializeForm pf data p of Ok p' \<Rightarrow> True | Throw e p' \<Rightarrow> e = TypeError) \<and>
   (key = js ''signature'' \<or> namedItem els key = None \<longrightarrow>
      deserialize_field pf (key, v) els = Inr els) \<and>
   (key' \<noteq> js ''signature'' \<and> namedItem els key' = Some nm \<and> as_list nm = i # rest \<and>
    el_kind (els ! i) \<noteq> Radio \<and> el_kind (els ! i) \<noteq> Checkbox \<and>
    \<not> is_string v' \<and> toDOMString v' = Some s \<longrightarrow>
      deserialize_field pf (key', v') els = Inr (update_el i (store_value s) els))"
proof (intro conjI impI)
  obtain p1 where p1: "elements p1 = elements p"
    "deserializeForm pf data p =
       (case deserialize_fields pf data (elements p) of
          Ok els \<Rightarrow> Ok (p1\<lparr>elements := els\<rparr>)
        | Throw e els \<Rightarrow> Throw e (p1\<lparr>elements := els\<rparr>))"
    using deserializeForm_fields [of p pf data] by blast
  have "returns (deserializeForm pf data p) = returns (deserialize_fields pf data (elements p))"
    by (simp add: p1(2) split: outcome.splits)
  then show "returns (deserializeForm pf data p) \<longleftrightarrow> \<not> list_ex (field_throws (elements p)) data"
    by (simp add: deserialize_fields_returns_iff)
  show "case deserializeForm pf data p of Ok p' \<Rightarrow> True | Throw e p' \<Rightarrow> e = TypeError"
    by (auto simp: p1(2) split: outcome.splits dest: deserialize_fields_TypeError)
next
  assume "key = js ''signature'' \<or> namedItem els key = None"
  then show "deserialize_field pf (key, v) els = Inr els"
    by (auto simp: deserialize_field_def)
next
  assume a: "key' \<noteq> js ''signature'' \<and> namedItem els key' = Some nm \<and> as_list nm = i # rest \<and>
    el_kind (els ! i) \<noteq> Radio \<and> el_kind (els ! i) \<noteq> Checkbox \<and>
    \<not> is_string v' \<and> toDOMString v' = Some s"
  then have "deserialize_field pf (key', v') els = deserialize_value pf i v' els"
    by (simp add: deserialize_field_def)
  with a show "deserialize_field pf (key', v') els = Inr (update_el i (store_value s) els)"
    by (simp add: deserialize_value_stores)
qed

lemma citizenship_lookups:
  "namedItem (elements citizenship_page) (js ''q9a_citizenship'') = Some (Group [0, 1])"
  "namedItem (elements citizenship_page) (js ''q2_fullName'') = Some (Single 2)"
  "namedItem (elements citizenship_page) (js ''q7_alienNumber'') = None"
  by (simp_all add: citizenship_page_def sample_page_def ctl_def namedItem_def indices_def matches_def)

lemma citizenship_kinds:
  "el_kind (elements citizenship_page ! 0) = Checkbox"
  "el_kind (elements citizenship_page ! 2) = Text"
  by (simp_all add: citizenship_page_def sample_page_def ctl_def)

theorem deserializeForm_throws_exactly_witness:
  "\<not> list_ex (field_throws (elements citizenship_page))
        [(js ''q2_fullName'', JBool True), (js ''q9a_citizenship'', JStr (js ''USA'')),
         (js ''q7_alienNumber'', JNum (js ''7'')), (js ''signature'', JNull)] \<and>
   returns (deserializeForm sample_platform
        [(js ''q2_fullName'', JBool True), (js ''q9a_citizenship'', JStr (js ''USA'')),
         (js ''q7_alienNumber'', JNum (js ''7'')), (js ''signature'', JNull)] citizenship_page) \<and>
   namedItem (elements citizenship_page) (js ''q7_alienNumber'') = None \<and>
   deserialize_field sample_platform (js ''q7_alienNumber'', JNum (js ''7'')) (elements citizenship_page)
     = Inr (elements citizenship_page) \<and>
   js ''q2_fullName'' \<noteq> js ''signature'' \<and>
   namedItem (elements citizenship_page) (js ''q2_fullName'') = Some (Single 2) \<and>
   el_kind (elements citizenship_page ! 2) \<noteq> Radio \<and>
   el_kind (elements citizenship_page ! 2) \<noteq> Checkbox \<and>
   \<not> is_string (JBool True) \<and> toDOMString (JBool True) = Some (js ''true'') \<and>
   deserialize_field sample_platform (js ''q2_fullName'', JBool True) (elements citizenship_page)
     = Inr [ctl ''q9a_usa'' ''q9a_citizenship'' Checkbox ''USA'' False,
            ctl ''q9a_other'' ''q9a_citizenship'' Checkbox ''OTHER'' False,
            ctl ''q2_fullName'' ''q2_fullName'' Text ''true'' False]"
proof -
  let ?data = "[(js ''q2_fullName'', JBool True), (js ''q9a_citizenship'', JStr (js ''USA'')),
         (js ''q7_alienNumber'', JNum (js ''7'')), (js ''signature'', JNull)]"
  have a: "\<not> list_ex (field_throws (elements citizenship_page)) ?data"
    by (simp add: field_throws_def citizenship_lookups citizenship_kinds)
  have d: "toDOMString (JBool True) = Some (js ''true'')"
    by (simp add: toDOMString_def)
  have "strip_newlines (js ''true'') = js ''true''"
    by (rule strip_newlines_id) (simp_all add: js_def)
  then have v: "update_el 2 (store_value (js ''true'')) (elements citizenship_page)
      = [ctl ''q9a_usa'' ''q9a_citizenship'' Checkbox ''USA'' False,
         ctl ''q9a_other'' ''q9a_citizenship'' Checkbox ''OTHER'' False,
         ctl ''q2_fullName'' ''q2_fullName'' Text ''true'' False]"
    by (simp add: update_el_def store_value_def citizenship_page_def sample_page_def ctl_def)
  from deserializeForm_throws_exactly
    [of sample_platform ?data citizenship_page "js ''q7_alienNumber''" "elements citizenship_page"
        "JNum (js ''7'')" "js ''q2_fullName''" "Single 2" 2 "[]" "JBool True" "js ''true''"]
  show ?thesis
    using a d v by (simp add: citizenship_lookups citizenship_kinds)
qed

theorem deserializeForm_number_for_checkbox_group_counterexample:
  "deserializeForm sample_platform [(js ''q9a_citizenship'', JNum (js ''1''))] citizenship_page
     = Throw TypeError citizenship_page"
  by (simp add: deserializeForm_def obj_get_def deserialize_field_def citizenship_lookups
        citizenship_kinds deserialize_checkbox_def)

text \<open>
  An object with a property \<open>toString\<close> has no string, and \<open>deserializeForm\<close> throws when the
  entry names a text input.
\<close>

lemma deserializeForm_object_for_text:
  "deserializeForm sample_platform [(js ''q2_fullName'', JObj [(js ''toString'', JNull)])]
     citizenship_page = Throw TypeError citizenship_page"
  by (simp add: deserializeForm_def obj_get_def deserialize_field_def citizenship_lookups
        citizenship_kinds deserialize_value_def toDOMString_def)

text \<open>
  The \<open>try\<close> that contains such a throw is the one of \<open>loadStateFromHash\<close>: the exception is
  logged there, and the controls keep what the entries before the offending one wrote.
\<close>

lemma loadStateFromHash_catches:
  assumes "location_hash p \<noteq> []"
    and "atob pf (repad (unurlsafe (drop 1 (location_hash p)))) = Some jsonString"
    and "JSON_parse pf jsonString = Some parsed"
    and "own_entries parsed = Some data"
    and "deserializeForm pf data p = Throw e p'"
  shows "loadStateFromHash pf p = load_failed p'"
  using assms by (simp add: loadStateFromHash_def)

section \<open>Upper-case text, untouched dates\<close>

lemma serialize_element_other_name:
  "el_name el \<noteq> k \<Longrightarrow> obj_get (snd (serialize_element pf b t els el st)) k = obj_get (snd st) k"
  by (rule serialize_element_key) auto

lemma serialize_fold_key:
  "list_all (\<lambda>e. el_name e \<noteq> k) xs \<Longrightarrow>
   obj_get (snd (fold (serialize_element pf b t els) xs st)) k = obj_get (snd st) k"
  by (induction xs arbitrary: st) (simp_all add: serialize_element_other_name)






lemma raw_entry_mono: "raw_entry xs x \<Longrightarrow> set xs \<subseteq> set ys \<Longrightarrow> raw_entry ys x"
  by (auto simp: raw_entry_def list_ex_iff split: option.splits)


lemma namedItem_Single_others:
  assumes "namedItem els k = Some (Single i)" "j < length els" "j \<noteq> i"
  shows "\<not> matches k (els ! j)"
proof
  assume "matches k (els ! j)"
  with assms(2) have "j \<in> set (indices (matches k) els)" by (simp add: indices_set)
  moreover from assms(1) have "indices (matches k) els = [i]"
    by (auto simp: namedItem_def split: if_splits list.splits)
  ultimately show False using assms(3) by simp
qed

lemma list_all_around:
  assumes "\<And>j. j < length els \<Longrightarrow> j \<noteq> i \<Longrightarrow> P (els ! j)"
  shows "list_all P (take i els)" "list_all P (drop (Suc i) els)"
proof -
  show "list_all P (take i els)"
    unfolding list_all_length using assms by simp
  show "list_all P (drop (Suc i) els)"
    unfolding list_all_length using assms by simp
qed

lemma snapshot_sole_control:
  assumes "namedItem els k = Some (Single i)" "k \<noteq> js ''signature''"
  shows "\<exists>st. obj_get (snd st) k = None \<and>
           obj_get (snapshot pf b sm els) k
             = obj_get (snd (serialize_element pf b (getTodayYYYYMMDD pf) els (els ! i) st)) k"
proof -
  let ?f = "serialize_element pf b (getTodayYYYYMMDD pf) els"
  from assms(1) have i: "i < length els" by (auto dest: namedItem_Single_bound)
  have others: "\<And>j. j < length els \<Longrightarrow> j \<noteq> i \<Longrightarrow> el_name (els ! j) \<noteq> k"
    using namedItem_Single_others [OF assms(1)] by (auto simp: matches_def)
  note around = list_all_around [of els i "\<lambda>e. el_name e \<noteq> k", OF others]
  let ?st1 = "fold ?f (take i els) ([], [])"
  have e: "els = take i els @ els ! i # drop (Suc i) els" using i by (rule id_take_nth_drop)
  have "fold ?f els ([], []) = fold ?f (take i els @ els ! i # drop (Suc i) els) ([], [])"
    by (rule arg_cong [where f = "\<lambda>xs. fold ?f xs ([], [])", OF e])
  also have "\<dots> = fold ?f (drop (Suc i) els) (?f (els ! i) ?st1)" by simp
  finally have "obj_get (snd (fold ?f els ([], []))) k = obj_get (snd (?f (els ! i) ?st1)) k"
    by (simp add: serialize_fold_key [OF around(2)])
  moreover have "obj_get (snd ?st1) k = None"
  proof -
    have "obj_get (snd ?st1) k = obj_get (snd (([], []) :: jsstring list \<times> jsobj)) k"
      by (rule serialize_fold_key [OF around(1)])
    then show ?thesis by (simp add: obj_get_def)
  qed
  ultimately show ?thesis
    using assms(2) by (intro exI [of _ ?st1]) (simp add: snapshot_def add_signature_key)
qed


lemma serialize_element_date_entry:
  assumes "el_kind el = Date" "\<not> el_disabled el" "el_name el = k" "k \<noteq> []"
    "k \<noteq> js ''__proto__''" "el_value el \<noteq> []" "obj_get (snd st) k = None"
  shows "obj_get (snd (serialize_element pf b t els el st)) k =
     (if k = js ''certificationDate'' \<and> el_value el = t then None else Some (JStr (el_value el)))"
  using assms by (auto simp: serialize_element_def serialize_date_def obj_get_obj_set)

lemma deserialize_value_string:
  "deserialize_value pf i (JStr s) els =
     Inr (update_el i
            (store_value (if text_like (el_kind (els ! i)) then toUpperCase pf s else s)) els)"
  by (simp add: deserialize_value_def toDOMString_def)








lemma length_js [simp]: "length (js s) = length s"
  by (simp add: js_def)

lemma endsWith_js [simp]:
  "endsWith (js a) (js b) \<longleftrightarrow> length b \<le> length a \<and> drop (length a - length b) a = b"
proof -
  have "drop (length a - length b) (js a) = js (drop (length a - length b) a)"
    by (simp add: js_def drop_map)
  then show ?thesis by (simp add: endsWith_def)
qed



lemma sample_upper: "toUpperCase sample_platform = ascii_upper"
  by (simp add: sample_platform_def)




lemma name_and_birth_facts:
  "namedItem name_and_birth (js ''q2_fullName'') = Some (Single 0)"
  "namedItem name_and_birth (js ''q3g_dob'') = Some (Single 1)"
  "namedItem name_and_birth (js ''q9c_birthCountry_other'') = Some (Single 4)"
  "length name_and_birth = 5"
  "name_and_birth ! 0 = ctl ''q2_fullName'' ''q2_fullName'' Text ''JOHN'' False"
  "name_and_birth ! Suc 0 = ctl ''q3g_dob'' ''q3g_dob'' Date ''2000-01-02'' False"
  "name_and_birth ! 4 = ctl ''q9c_other_text'' ''q9c_birthCountry_other'' Text [] False"
  "list_all (\<lambda>e. el_name e = js ''q2_fullName'' \<and> \<not> el_disabled e \<longrightarrow> text_like (el_kind e)) name_and_birth"
  "list_all (\<lambda>e. el_name e = js ''q3g_dob'' \<and> \<not> el_disabled e \<longrightarrow> el_kind e = Date) name_and_birth"
  by (simp_all add: name_and_birth_def namedItem_def indices_def matches_def ctl_def text_like_def)

lemma not_index_js [simp]: "s \<noteq> [] \<Longrightarrow> \<not> is_digit (of_char (hd s)) \<Longrightarrow> \<not> is_array_index (js s)"
  by (cases s) (simp_all add: is_array_index_def js_def)

lemma base_name [simp]:
  "replaceFirst (js ''_other'') [] (js ''q9c_birthCountry_other'') = js ''q9c_birthCountry''"
  by (simp add: js_def)



lemma name_and_birth_kinds:
  "el_kind (name_and_birth ! 0) = Text" "el_kind (name_and_birth ! Suc 0) = Date"
  "el_kind (name_and_birth ! 4) = Text"
  "el_name (name_and_birth ! 0) = js ''q2_fullName''" "el_value (name_and_birth ! 0) = js ''JOHN''"
  "el_name (name_and_birth ! Suc 0) = js ''q3g_dob''" "\<not> el_disabled (name_and_birth ! Suc 0)"
  "el_name (name_and_birth ! 4) = js ''q9c_birthCountry_other''" "\<not> el_disabled (name_and_birth ! 4)"
  by (simp_all add: name_and_birth_facts ctl_def)




text \<open>
  A string that the control cannot hold does not come back: a text input drops the line break
  of \<open>A\<close>, line feed, \<open>B\<close>.
\<close>

lemma line_break_not_kept:
  "toUpperCase sample_platform [65, 10, 66] = [65, 10, 66] \<and>
   (\<exists>els'. deserialize_value sample_platform 0 (JStr [65, 10, 66]) name_and_birth = Inr els' \<and>
           el_value (els' ! 0) = js ''AB'')"
  by (simp add: deserialize_value_string name_and_birth_facts(4) name_and_birth_kinds text_like_def
        nth_update_el store_value_def sample_upper)
     (simp add: ascii_upper_def strip_newlines_def js_def)

section \<open>The certification date\<close>

lemma serialize_element_certification:
  assumes "certification_default today el" "obj_get (snd st) (js ''certificationDate'') = None"
  shows "obj_get (snd (serialize_element pf b today els el st)) (js ''certificationDate'') = None"
proof (cases "el_name el = js ''certificationDate''")
  case False
  then show ?thesis using assms(2) by (simp add: serialize_element_key)
next
  case True
  with assms show ?thesis
    by (auto simp: certification_default_def serialize_element_def serialize_date_def)
qed

lemma serialize_fold_certification:
  "list_all (certification_default today) xs \<Longrightarrow> obj_get (snd st) (js ''certificationDate'') = None \<Longrightarrow>
   obj_get (snd (fold (serialize_element pf b today els) xs st)) (js ''certificationDate'') = None"
  by (induction xs arbitrary: st) (simp_all add: serialize_element_certification)

text \<open>
  C2 (amended).  The snapshots that \<open>serializeForm\<close> returns with and without
  \<open>includeDefaults\<close> have the same entry of \<open>certificationDate\<close>, and the same entry of every
  key but \<open>q3a_sameAs2\<close>.  When the enabled controls named \<open>certificationDate\<close> are date
  inputs holding today's date (or nothing), the snapshot has no such key, whatever
  \<open>includeDefaults\<close> is; when the one control of that name is an enabled date input holding
  another date, the snapshot has the key with that date, whatever \<open>includeDefaults\<close> is.
\<close>

theorem certificationDate_ignores_includeDefaults:
  "(\<exists>d1 d2. serializeForm pf True sm (Some els) = Inr d1 \<and>
            serializeForm pf False sm (Some els) = Inr d2 \<and>
            obj_get d1 (js ''certificationDate'') = obj_get d2 (js ''certificationDate'') \<and>
            (\<forall>k. k \<noteq> js ''q3a_sameAs2'' \<longrightarrow> obj_get d1 k = obj_get d2 k)) \<and>
   (list_all (certification_default (getTodayYYYYMMDD pf)) els \<longrightarrow>
      (\<exists>d. serializeForm pf includeDefaults sm (Some els) = Inr d \<and>
           obj_get d (js ''certificationDate'') = None)) \<and>
   (namedItem els' (js ''certificationDate'') = Some (Single i) \<and>
    el_name (els' ! i) = js ''certificationDate'' \<and> el_kind (els' ! i) = Date \<and>
    \<not> el_disabled (els' ! i) \<and> el_value (els' ! i) \<noteq> [] \<and>
    el_value (els' ! i) \<noteq> getTodayYYYYMMDD pf \<longrightarrow>
      (\<exists>d. serializeForm pf includeDefaults sm (Some els') = Inr d \<and>
           obj_get d (js ''certificationDate'') = Some (JStr (el_value (els' ! i)))))"
proof (intro conjI impI)
  show "\<exists>d1 d2. serializeForm pf True sm (Some els) = Inr d1 \<and>
            serializeForm pf False sm (Some els) = Inr d2 \<and>
            obj_get d1 (js ''certificationDate'') = obj_get d2 (js ''certificationDate'') \<and>
            (\<forall>k. k \<noteq> js ''q3a_sameAs2'' \<longrightarrow> obj_get d1 k = obj_get d2 k)"
    by (simp add: serializeForm_Some includeDefaults_only_sameAs)
next
  assume "list_all (certification_default (getTodayYYYYMMDD pf)) els"
  then have "obj_get (snd (fold (serialize_element pf includeDefaults (getTodayYYYYMMDD pf) els) els ([], [])))
               (js ''certificationDate'') = None"
    by (rule serialize_fold_certification) (simp add: obj_get_def)
  then show "\<exists>d. serializeForm pf includeDefaults sm (Some els) = Inr d \<and>
           obj_get d (js ''certificationDate'') = None"
    by (simp add: serializeForm_Some snapshot_def add_signature_key)
next
  assume a: "namedItem els' (js ''certificationDate'') = Some (Single i) \<and>
    el_name (els' ! i) = js ''certificationDate'' \<and> el_kind (els' ! i) = Date \<and>
    \<not> el_disabled (els' ! i) \<and> el_value (els' ! i) \<noteq> [] \<and>
    el_value (els' ! i) \<noteq> getTodayYYYYMMDD pf"
  then have n: "namedItem els' (js ''certificationDate'') = Some (Single i)" by simp
  from snapshot_sole_control [OF n, of pf includeDefaults sm]
  obtain st where st: "obj_get (snd st) (js ''certificationDate'') = None"
    "obj_get (snapshot pf includeDefaults sm els') (js ''certificationDate'')
       = obj_get (snd (serialize_element pf includeDefaults (getTodayYYYYMMDD pf) els' (els' ! i) st))
           (js ''certificationDate'')"
    by auto
  have "obj_get (snd (serialize_element pf includeDefaults (getTodayYYYYMMDD pf) els' (els' ! i) st))
           (js ''certificationDate'') =
     (if js ''certificationDate'' = js ''certificationDate'' \<and>
         el_value (els' ! i) = getTodayYYYYMMDD pf then None
      else Some (JStr (el_value (els' ! i))))"
    using a st(1) by (intro serialize_element_date_entry) simp_all
  with a st(2) show "\<exists>d. serializeForm pf includeDefaults sm (Some els') = Inr d \<and>
           obj_get d (js ''certificationDate'') = Some (JStr (el_value (els' ! i)))"
    by (simp add: serializeForm_Some)
qed

theorem certificationDate_ignores_includeDefaults_witness:
  "list_all (certification_default (getTodayYYYYMMDD sample_platform))
     [ctl ''certificationDate'' ''certificationDate'' Date ''2026-11-03'' False] \<and>
   (\<exists>d. serializeForm sample_platform True None
          (Some [ctl ''certificationDate'' ''certificationDate'' Date ''2026-11-03'' False]) = Inr d \<and>
        obj_get d (js ''certificationDate'') = None) \<and>
   namedItem [ctl ''certificationDate'' ''certificationDate'' Date ''2026-11-02'' False]
     (js ''certificationDate'') = Some (Single 0) \<and>
   el_value ([ctl ''certificationDate'' ''certificationDate'' Date ''2026-11-02'' False] ! 0)
     \<noteq> getTodayYYYYMMDD sample_platform \<and>
   (\<exists>d. serializeForm sample_platform True None
          (Some [ctl ''certificationDate'' ''certificationDate'' Date ''2026-11-02'' False]) = Inr d \<and>
        obj_get d (js ''certificationDate'') = Some (JStr (js ''2026-11-02'')))"
  using certificationDate_ignores_includeDefaults
    [of sample_platform None "[ctl ''certificationDate'' ''certificationDate'' Date ''2026-11-03'' False]"
        True "[ctl ''certificationDate'' ''certificationDate'' Date ''2026-11-02'' False]" 0]
  by (simp add: sample_today certification_default_def ctl_def namedItem_def indices_def matches_def)

theorem certificationDate_today_counterexample:
  "el_value (ctl ''certificationDate'' ''certificationDate'' Date ''2026-11-03'' False)
     = getTodayYYYYMMDD sample_platform \<and>
   serializeForm sample_platform True None
     (Some [ctl ''certificationDate'' ''certificationDate'' Date ''2026-11-03'' False]) = Inr []"
  by (simp add: sample_today serializeForm_def serialize_element_def serialize_date_def
        add_signature_def ctl_def)

section \<open>The mirrored address\<close>

lemma split_lines_not_Nil [simp]: "split_lines v \<noteq> []"
  by (induction v) (auto split: list.splits)

lemma split_lines_no_newline: "l \<in> set (split_lines v) \<Longrightarrow> 10 \<notin> set l"
proof (induction v arbitrary: l)
  case Nil
  then show ?case by simp
next
  case (Cons c cs)
  show ?case
  proof (cases "c = 10")
    case True
    with Cons show ?thesis by auto
  next
    case False
    obtain l' ls where s: "split_lines cs = l' # ls" by (cases "split_lines cs") auto
    with Cons.prems False have "l = c # l' \<or> l \<in> set ls" by auto
    then show ?thesis
    proof
      assume "l = c # l'"
      moreover have "10 \<notin> set l'" using Cons.IH [of l'] s by simp
      ultimately show ?thesis using False by simp
    next
      assume "l \<in> set ls"
      then show ?thesis using Cons.IH [of l] s by simp
    qed
  qed
qed

lemma split_lines_plain: "10 \<notin> set l \<Longrightarrow> split_lines l = [l]"
  by (induction l) auto

lemma split_lines_append_newline:
  "10 \<notin> set l \<Longrightarrow> split_lines (l @ 10 # rest) = l # split_lines rest"
  by (induction l) auto

lemma split_lines_join:
  "ls \<noteq> [] \<Longrightarrow> (\<And>l. l \<in> set ls \<Longrightarrow> 10 \<notin> set l) \<Longrightarrow> split_lines (join [10] ls) = ls"
proof (induction ls)
  case Nil
  then show ?case by simp
next
  case (Cons x xs)
  show ?case
  proof (cases xs)
    case Nil
    with Cons.prems(2) [of x] show ?thesis by (simp add: split_lines_plain)
  next
    case (Cons y ys)
    with Cons.IH Cons.prems(2) have "split_lines (join [10] (y # ys)) = y # ys" by simp
    with Cons Cons.prems(2) [of x] show ?thesis by (simp add: split_lines_append_newline)
  qed
qed

lemma length_split_limit_lines:
  assumes "0 < n"
  shows "length (split_lines (limit_lines n v)) \<le> n"
proof (cases "length (split_lines v) > n")
  case True
  let ?ls = "take n (split_lines v)"
  have "?ls \<noteq> []" using assms by simp
  moreover have "\<And>l. l \<in> set ?ls \<Longrightarrow> 10 \<notin> set l"
    by (auto dest!: in_set_takeD split_lines_no_newline)
  ultimately have "split_lines (join [10] ?ls) = ?ls" by (rule split_lines_join)
  with True show ?thesis by (simp add: limit_lines_def Let_def)
next
  case False
  then show ?thesis by (simp add: limit_lines_def Let_def)
qed

lemma limit_lines_limit_lines:
  assumes "0 < n" "n \<le> m"
  shows "limit_lines m (limit_lines n v) = limit_lines n v"
proof -
  have "length (split_lines (limit_lines n v)) \<le> m"
    using length_split_limit_lines [OF assms(1), of v] assms(2) by simp
  then show ?thesis by (simp add: limit_lines_def [of m] Let_def)
qed

lemma update_el_same: "f (els ! n) = els ! n \<Longrightarrow> update_el n f els = els"
  by (simp add: update_el_def)

lemma no_CR_normalize: "13 \<notin> set (normalize_newlines s)"
  by (induction s rule: normalize_newlines.induct) auto

lemma set_split_lines: "l \<in> set (split_lines v) \<Longrightarrow> set l \<subseteq> set v"
proof (induction v arbitrary: l)
  case Nil
  then show ?case by simp
next
  case (Cons c cs)
  show ?case
  proof (cases "c = 10")
    case True
    with Cons show ?thesis by auto
  next
    case False
    obtain l' ls where s: "split_lines cs = l' # ls" by (cases "split_lines cs") auto
    with Cons.prems False have "l = c # l' \<or> l \<in> set ls" by auto
    then show ?thesis
    proof
      assume "l = c # l'"
      moreover have "set l' \<subseteq> set cs" using Cons.IH [of l'] s by simp
      ultimately show ?thesis by auto
    next
      assume "l \<in> set ls"
      then have "set l \<subseteq> set cs" using Cons.IH [of l] s by simp
      then show ?thesis by auto
    qed
  qed
qed

lemma set_join_lines: "x \<in> set (join sep ls) \<Longrightarrow> x \<in> set sep \<or> (\<exists>l \<in> set ls. x \<in> set l)"
  by (induction sep ls rule: join.induct) auto

lemma no_CR_limit_lines:
  assumes "13 \<notin> set v"
  shows "13 \<notin> set (limit_lines m v)"
proof
  assume a: "13 \<in> set (limit_lines m v)"
  show False
  proof (cases "length (split_lines v) > m")
    case True
    with a have "13 \<in> set (join [10] (take m (split_lines v)))"
      by (simp add: limit_lines_def Let_def)
    then obtain l where "l \<in> set (take m (split_lines v))" "13 \<in> set l"
      by (auto dest: set_join_lines)
    then have "13 \<in> set v" by (auto dest!: in_set_takeD set_split_lines)
    with assms show False by simp
  next
    case False
    with a assms show False by (simp add: limit_lines_def Let_def)
  qed
qed

lemma textarea_input_limited:
  assumes "el_kind (elements p ! n) = Textarea"
    "map_of textareaLineLimits (el_name (elements p ! n)) = Some m" "0 < m"
    "13 \<notin> set (el_value (elements p ! n))"
  shows "textarea_input n p =
     p\<lparr>elements := update_el n (\<lambda>e. e\<lparr>el_value := limit_lines m (el_value e)\<rparr>) (elements p)\<rparr>"
proof (cases "length (split_lines (el_value (elements p ! n))) > m")
  case True
  let ?J = "join [10] (take m (split_lines (el_value (elements p ! n))))"
  have J: "limit_lines m (el_value (elements p ! n)) = ?J"
    using True by (simp add: limit_lines_def Let_def)
  have "13 \<notin> set ?J" using no_CR_limit_lines [OF assms(4), of m] by (simp add: J)
  then have "normalize_newlines ?J = ?J" by (rule normalize_newlines_id)
  then have "update_el n (store_value ?J) (elements p)
      = update_el n (\<lambda>e. e\<lparr>el_value := limit_lines m (el_value e)\<rparr>) (elements p)"
    using assms(1) by (simp add: update_el_def store_value_def J)
  with True assms(1-3) show ?thesis
    by (simp add: textarea_input_def listener_def limitTextareaLines_def modify_def Let_def)
next
  case False
  then have "update_el n (\<lambda>e. e\<lparr>el_value := limit_lines m (el_value e)\<rparr>) (elements p) = elements p"
    by (simp add: update_el_def limit_lines_def Let_def)
  with False assms(1-3) show ?thesis
    by (simp add: textarea_input_def listener_def limitTextareaLines_def Let_def)
qed

lemma form_input_textarea:
  assumes "el_kind (elements p ! n) = Textarea" "13 \<notin> set (el_value (elements p ! n))"
  shows "form_input pf n p =
     p\<lparr>elements :=
         update_el n (\<lambda>e. e\<lparr>el_value := normalize_newlines (toUpperCase pf (el_value e))\<rparr>) (elements p),
       save_pending := True\<rparr>"
proof (cases "el_value (elements p ! n) = toUpperCase pf (el_value (elements p ! n))")
  case True
  then have "normalize_newlines (toUpperCase pf (el_value (elements p ! n))) = el_value (elements p ! n)"
    using normalize_newlines_id [OF assms(2)] by simp
  then have "update_el n (\<lambda>e. e\<lparr>el_value := normalize_newlines (toUpperCase pf (el_value e))\<rparr>) (elements p)
      = elements p"
    by (simp add: update_el_def)
  with True assms(1) show ?thesis
    by (simp add: form_input_def listener_def normalizeToUppercase_def arm_save_def text_like_def)
next
  case False
  have "update_el n (store_value (toUpperCase pf (el_value (elements p ! n)))) (elements p)
      = update_el n (\<lambda>e. e\<lparr>el_value := normalize_newlines (toUpperCase pf (el_value e))\<rparr>) (elements p)"
    using assms(1) by (simp add: update_el_def store_value_def)
  with False assms(1) show ?thesis
    by (simp add: form_input_def listener_def normalizeToUppercase_def arm_save_def text_like_def
          Let_def)
qed

lemma line_limits:
  "map_of textareaLineLimits (js ''q2_address'') = Some 2"
  "map_of textareaLineLimits (js ''q3a_homeAddress'') = Some 7"
  by (simp_all add: textareaLineLimits_def)

lemma address_controls_facts:
  assumes "address_controls els c a h"
  shows "c < length els" "a < length els" "h < length els" "a \<noteq> h" "c \<noteq> h" "c \<noteq> a"
    "el_id (els ! c) = js ''q3a_sameAs2''" "el_id (els ! a) = js ''q2_address''"
    "el_id (els ! h) = js ''q3a_homeAddress''"
proof -
  from assms have g: "getElementById els (js ''q3a_sameAs2'') = Some c"
    "getElementById els (js ''q2_address'') = Some a"
    "getElementById els (js ''q3a_homeAddress'') = Some h"
    by (simp_all add: address_controls_def)
  show "c < length els" "a < length els" "h < length els"
    using g by (auto dest: getElementById_Some)
  show i: "el_id (els ! c) = js ''q3a_sameAs2''" "el_id (els ! a) = js ''q2_address''"
    "el_id (els ! h) = js ''q3a_homeAddress''"
    using g by (auto dest: getElementById_Some)
  show "a \<noteq> h" "c \<noteq> h" "c \<noteq> a" using i by auto
qed

lemma address_controls_update:
  assumes "address_controls els c a h"
    "el_id (f (els ! n)) = el_id (els ! n)" "el_name (f (els ! n)) = el_name (els ! n)"
    "el_kind (f (els ! n)) = el_kind (els ! n)"
  shows "address_controls (update_el n f els) c a h"
proof -
  note b = address_controls_facts [OF assms(1)]
  have "\<And>j. j < length els \<Longrightarrow> el_name (update_el n f els ! j) = el_name (els ! j)"
       "\<And>j. j < length els \<Longrightarrow> el_kind (update_el n f els ! j) = el_kind (els ! j)"
    using assms(3,4) by (auto simp: nth_update_el)
  with assms(1) b(1-3) show ?thesis
    by (simp add: address_controls_def getElementById_update_el assms(2))
qed

lemma update_el_twice:
  "n < length els \<Longrightarrow> update_el n g (update_el n f els) = update_el n (\<lambda>e. g (f e)) els"
  by (simp add: update_el_def)

lemma syncAddress_unchecked:
  assumes "address_controls (elements p) c a h" "\<not> el_checked (elements p ! c)"
  shows "syncAddress pf p = Ok (p\<lparr>elements := update_el h (\<lambda>e. e\<lparr>el_disabled := False\<rparr>) (elements p)\<rparr>)"
  using assms by (simp add: syncAddress_def with_id_def address_controls_def modify_def)

lemma syncAddress_checked:
  assumes ac: "address_controls (elements p) c a h" and ch: "el_checked (elements p ! c)"
  shows "\<exists>p'. syncAddress pf p = Ok p' \<and>
     elements p' = update_el h
        (\<lambda>e. e\<lparr>el_disabled := True,
               el_value := normalize_newlines (toUpperCase pf
                 (limit_lines 7 (normalize_newlines (el_value (elements p ! a)))))\<rparr>) (elements p)"
proof -
  note b = address_controls_facts [OF ac]
  let ?src = "normalize_newlines (el_value (elements p ! a))"
  let ?f1 = "\<lambda>e. (store_value (el_value (elements p ! a)) e)\<lparr>el_disabled := True\<rparr>"
  let ?p1 = "p\<lparr>elements := update_el h ?f1 (elements p)\<rparr>"
  have kh: "el_kind (elements p ! h) = Textarea" using ac by (simp add: address_controls_def)
  have k1: "el_kind (elements ?p1 ! h) = Textarea" "el_name (elements ?p1 ! h) = js ''q3a_homeAddress''"
    using ac b by (simp_all add: nth_update_el address_controls_def store_value_def)
  have v1: "el_value (elements ?p1 ! h) = ?src"
    using b kh by (simp add: nth_update_el store_value_def)
  have c1: "13 \<notin> set (el_value (elements ?p1 ! h))"
    unfolding v1 by (rule no_CR_normalize)
  let ?f2 = "\<lambda>e. e\<lparr>el_value := limit_lines 7 (el_value e)\<rparr>"
  let ?p2 = "?p1\<lparr>elements := update_el h ?f2 (elements ?p1)\<rparr>"
  have t: "textarea_input h ?p1 = ?p2"
    using k1 c1 by (intro textarea_input_limited) (simp_all add: line_limits)
  have k2: "el_kind (elements ?p2 ! h) = Textarea"
    using b kh by (simp add: nth_update_el store_value_def)
  have v2: "el_value (elements ?p2 ! h) = limit_lines 7 ?src"
    using b kh by (simp add: nth_update_el store_value_def)
  have c2: "13 \<notin> set (el_value (elements ?p2 ! h))"
    unfolding v2 by (rule no_CR_limit_lines) (rule no_CR_normalize)
  let ?f3 = "\<lambda>e. e\<lparr>el_value := normalize_newlines (toUpperCase pf (el_value e))\<rparr>"
  have f: "form_input pf h ?p2 = ?p2\<lparr>elements := update_el h ?f3 (elements ?p2), save_pending := True\<rparr>"
    using k2 c2 by (rule form_input_textarea)
  have "syncAddress pf p = Ok (form_input pf h (textarea_input h ?p1))"
    using ac ch by (simp add: syncAddress_def with_id_def address_controls_def)
  then have s: "syncAddress pf p = Ok (?p2\<lparr>elements := update_el h ?f3 (elements ?p2), save_pending := True\<rparr>)"
    by (simp only: t f)
  have "update_el h ?f3 (elements ?p2) = update_el h
        (\<lambda>e. e\<lparr>el_disabled := True,
               el_value := normalize_newlines (toUpperCase pf (limit_lines 7 ?src))\<rparr>) (elements p)"
    using b(3) kh by (simp add: update_el_def store_value_def)
  with s show ?thesis by simp
qed

lemma is_member_matches: "is_member els n i \<Longrightarrow> matches n (els ! i)"
proof -
  assume "is_member els n i"
  then obtain gs where "namedItem els n = Some (Group gs)" "i \<in> set gs"
    by (auto simp: is_member_def radio_list_def split: option.splits named.splits)
  moreover from this(1) have "indices (matches n) els = gs"
    by (auto simp: namedItem_def split: if_splits list.splits)
  ultimately have "i \<in> set (indices (matches n) els)" by simp
  then show ?thesis by (simp add: indices_set)
qed

lemma elements_listener_save [simp]:
  "elements (listener (saveStateToHash pf) p) = elements p"
  using saveStateToHash_history [of pf p] by (simp add: listener_def)

lemma dispatch_change_toggle:
  assumes ac: "address_controls (elements p) c a h"
  shows "elements (dispatch_change pf c p) = elements (listener (syncAddress pf) p)"
proof -
  note b = address_controls_facts [OF ac]
  have nm: "el_name (elements p ! c) = js ''q3a_sameAs2''"
    using ac by (simp add: address_controls_def)
  have m: "\<And>n. n \<noteq> js ''q3a_sameAs2'' \<Longrightarrow> \<not> is_member (elements p) n c"
    using b(7) nm by (auto dest!: is_member_matches simp: matches_def)
  have g: "getElementById (elements p) (js ''q3a_sameAs2'') = Some c"
    using ac by (simp add: address_controls_def)
  have o: "getElementById (elements p) (js ''q9a_other'') \<noteq> Some c"
    using b(7) by (auto dest: getElementById_Some)
  show ?thesis
    by (simp add: dispatch_change_def Let_def listener_if_def g o m)
qed

lemma dispatch_input_source:
  assumes ac: "address_controls (elements p) c a h"
    and cr: "13 \<notin> set (el_value (elements p ! a))"
  shows "elements (dispatch_input pf a p) =
     update_el a (\<lambda>e. e\<lparr>el_value := normalize_newlines (toUpperCase pf (el_value e))\<rparr>)
       (elements (listener (syncAddress pf)
          (p\<lparr>elements := update_el a (\<lambda>e. e\<lparr>el_value := limit_lines 2 (el_value e)\<rparr>) (elements p)\<rparr>)))"
    (is "_ = update_el a ?up (elements (listener _ ?p1))")
proof -
  note b = address_controls_facts [OF ac]
  have k: "el_kind (elements p ! a) = Textarea" "el_name (elements p ! a) = js ''q2_address''"
    using ac by (simp_all add: address_controls_def)
  have t: "textarea_input a p = ?p1"
    using k cr by (intro textarea_input_limited) (simp_all add: line_limits)
  have ac1: "address_controls (elements ?p1) c a h"
    using ac by (simp add: address_controls_update)
  then have g: "getElementById (elements ?p1) (js ''q2_address'') = Some a"
    by (simp add: address_controls_def)
  let ?p2 = "listener (syncAddress pf) ?p1"
  have same: "elements ?p2 ! a = elements ?p1 ! a"
  proof (cases "el_checked (elements ?p1 ! c)")
    case True
    from syncAddress_checked [OF ac1 True, of pf] b show ?thesis
      by (auto simp: listener_def nth_update_el)
  next
    case False
    from syncAddress_unchecked [OF ac1 False, of pf] b show ?thesis
      by (auto simp: listener_def nth_update_el)
  qed
  have v1: "elements ?p1 ! a = (elements p ! a)\<lparr>el_value := limit_lines 2 (el_value (elements p ! a))\<rparr>"
    using b by (simp add: nth_update_el)
  have k2: "el_kind (elements ?p2 ! a) = Textarea"
    unfolding same v1 using k by simp
  have c2: "13 \<notin> set (el_value (elements ?p2 ! a))"
    unfolding same v1 using no_CR_limit_lines [OF cr, of 2] by simp
  have "dispatch_input pf a p = form_input pf a ?p2"
    unfolding dispatch_input_def t Let_def using g by simp
  then show ?thesis by (simp add: form_input_textarea [OF k2 c2])
qed

text \<open>
  C8.  With the three address controls in place, the source holding a value a \<open>textarea\<close> can
  hold (no carriage return).  While the toggle is checked, after an \<open>input\<close> event on the
  source the destination holds what was typed into the source, cut to the source's two lines
  and upper-cased, which is also what the source holds then, and the destination is disabled;
  and a \<open>change\<close> event on the checked toggle disables the destination and fills it from the
  source (cut to the destination's seven lines and upper-cased), the source staying as it is.
  While the toggle is unchecked, a \<open>change\<close> event on it enables the destination and leaves
  its value as it was, and an \<open>input\<close> event on the source does so too.
\<close>

theorem same_as_toggle_mirrors_address:
  "(address_controls (elements p) c a h \<and> el_checked (elements p ! c) \<and>
    13 \<notin> set (el_value (elements p ! a)) \<longrightarrow>
      el_value (elements (dispatch_input pf a p) ! h)
        = sanitize Textarea (toUpperCase pf (limit_lines 2 (el_value (elements p ! a)))) \<and>
      el_value (elements (dispatch_input pf a p) ! a)
        = sanitize Textarea (toUpperCase pf (limit_lines 2 (el_value (elements p ! a)))) \<and>
      el_disabled (elements (dispatch_input pf a p) ! h)) \<and>
   (address_controls (elements p) c a h \<and> el_checked (elements p ! c) \<longrightarrow>
      el_disabled (elements (dispatch_change pf c p) ! h) \<and>
      el_value (elements (dispatch_change pf c p) ! h)
        = sanitize Textarea (toUpperCase pf
            (limit_lines 7 (sanitize Textarea (el_value (elements p ! a))))) \<and>
      el_value (elements (dispatch_change pf c p) ! a) = el_value (elements p ! a)) \<and>
   (address_controls (elements q) c a h \<and> \<not> el_checked (elements q ! c) \<longrightarrow>
      \<not> el_disabled (elements (dispatch_change pf c q) ! h) \<and>
      el_value (elements (dispatch_change pf c q) ! h) = el_value (elements q ! h)) \<and>
   (address_controls (elements q) c a h \<and> \<not> el_checked (elements q ! c) \<and>
    13 \<notin> set (el_value (elements q ! a)) \<longrightarrow>
      \<not> el_disabled (elements (dispatch_input pf a q) ! h) \<and>
      el_value (elements (dispatch_input pf a q) ! h) = el_value (elements q ! h))"
proof (intro conjI impI)
  assume a: "address_controls (elements p) c a h \<and> el_checked (elements p ! c) \<and>
    13 \<notin> set (el_value (elements p ! a))"
  then have ac: "address_controls (elements p) c a h" and ch: "el_checked (elements p ! c)"
    and cr: "13 \<notin> set (el_value (elements p ! a))"
    by simp_all
  note b = address_controls_facts [OF ac]
  let ?src = "limit_lines 2 (el_value (elements p ! a))"
  let ?p1 = "p\<lparr>elements := update_el a (\<lambda>e. e\<lparr>el_value := limit_lines 2 (el_value e)\<rparr>) (elements p)\<rparr>"
  have ac1: "address_controls (elements ?p1) c a h"
    using ac by (simp add: address_controls_update)
  have ch1: "el_checked (elements ?p1 ! c)"
    using ch b by (simp add: nth_update_el)
  have va: "el_value (elements ?p1 ! a) = ?src"
    using b by (simp add: nth_update_el)
  have n: "normalize_newlines ?src = ?src"
    by (rule normalize_newlines_id) (rule no_CR_limit_lines [OF cr])
  have l: "limit_lines 7 ?src = ?src"
    by (rule limit_lines_limit_lines) simp_all
  from syncAddress_checked [OF ac1 ch1, of pf]
  obtain p' where p': "syncAddress pf ?p1 = Ok p'"
    "elements p' = update_el h
        (\<lambda>e. e\<lparr>el_disabled := True,
               el_value := normalize_newlines (toUpperCase pf
                 (limit_lines 7 (normalize_newlines (el_value (elements ?p1 ! a)))))\<rparr>) (elements ?p1)"
    by blast
  have "elements (listener (syncAddress pf) ?p1) = elements p'"
    by (simp only: listener_def p'(1) state_of.simps)
  also note p'(2)
  finally have e2: "elements (listener (syncAddress pf) ?p1) =
     update_el h (\<lambda>e. e\<lparr>el_disabled := True,
               el_value := normalize_newlines (toUpperCase pf ?src)\<rparr>) (elements ?p1)"
    by (simp only: va n l)
  have fin: "elements (dispatch_input pf a p) =
     update_el a (\<lambda>e. e\<lparr>el_value := normalize_newlines (toUpperCase pf (el_value e))\<rparr>)
       (update_el h (\<lambda>e. e\<lparr>el_disabled := True,
               el_value := normalize_newlines (toUpperCase pf ?src)\<rparr>) (elements ?p1))"
    by (simp only: dispatch_input_source [OF ac cr] e2)
  show "el_value (elements (dispatch_input pf a p) ! h) = sanitize Textarea (toUpperCase pf ?src)"
    unfolding fin using b by (simp add: nth_update_el)
  show "el_value (elements (dispatch_input pf a p) ! a) = sanitize Textarea (toUpperCase pf ?src)"
    unfolding fin using b by (simp add: nth_update_el)
  show "el_disabled (elements (dispatch_input pf a p) ! h)"
    unfolding fin using b by (simp add: nth_update_el)
next
  assume a: "address_controls (elements p) c a h \<and> el_checked (elements p ! c)"
  then have ac: "address_controls (elements p) c a h" and ch: "el_checked (elements p ! c)"
    by simp_all
  note b = address_controls_facts [OF ac]
  from syncAddress_checked [OF ac ch, of pf]
  have e3: "elements (dispatch_change pf c p) =
     update_el h (\<lambda>e. e\<lparr>el_disabled := True,
               el_value := normalize_newlines (toUpperCase pf
                 (limit_lines 7 (normalize_newlines (el_value (elements p ! a)))))\<rparr>) (elements p)"
    by (auto simp: dispatch_change_toggle [OF ac] listener_def)
  show "el_disabled (elements (dispatch_change pf c p) ! h)"
    unfolding e3 using b by (simp add: nth_update_el)
  show "el_value (elements (dispatch_change pf c p) ! h)
        = sanitize Textarea (toUpperCase pf
            (limit_lines 7 (sanitize Textarea (el_value (elements p ! a)))))"
    unfolding e3 using b by (simp add: nth_update_el)
  show "el_value (elements (dispatch_change pf c p) ! a) = el_value (elements p ! a)"
    unfolding e3 using b by (simp add: nth_update_el)
next
  assume a: "address_controls (elements q) c a h \<and> \<not> el_checked (elements q ! c)"
  then have ac: "address_controls (elements q) c a h" and ch: "\<not> el_checked (elements q ! c)"
    by simp_all
  note b = address_controls_facts [OF ac]
  have e: "elements (dispatch_change pf c q) = update_el h (\<lambda>e. e\<lparr>el_disabled := False\<rparr>) (elements q)"
    by (simp add: dispatch_change_toggle [OF ac] listener_def syncAddress_unchecked [OF ac ch])
  show "\<not> el_disabled (elements (dispatch_change pf c q) ! h)"
    unfolding e using b by (simp add: nth_update_el)
  show "el_value (elements (dispatch_change pf c q) ! h) = el_value (elements q ! h)"
    unfolding e using b by (simp add: nth_update_el)
next
  assume a: "address_controls (elements q) c a h \<and> \<not> el_checked (elements q ! c) \<and>
    13 \<notin> set (el_value (elements q ! a))"
  then have ac: "address_controls (elements q) c a h" and ch: "\<not> el_checked (elements q ! c)"
    and cr: "13 \<notin> set (el_value (elements q ! a))"
    by simp_all
  note b = address_controls_facts [OF ac]
  let ?q1 = "q\<lparr>elements := update_el a (\<lambda>e. e\<lparr>el_value := limit_lines 2 (el_value e)\<rparr>) (elements q)\<rparr>"
  have ac1: "address_controls (elements ?q1) c a h"
    using ac by (simp add: address_controls_update)
  have ch1: "\<not> el_checked (elements ?q1 ! c)"
    using ch b by (simp add: nth_update_el)
  have e2: "elements (listener (syncAddress pf) ?q1) =
     update_el h (\<lambda>e. e\<lparr>el_disabled := False\<rparr>) (elements ?q1)"
    by (simp add: listener_def syncAddress_unchecked [OF ac1 ch1])
  have fin: "elements (dispatch_input pf a q) =
     update_el a (\<lambda>e. e\<lparr>el_value := normalize_newlines (toUpperCase pf (el_value e))\<rparr>)
       (update_el h (\<lambda>e. e\<lparr>el_disabled := False\<rparr>) (elements ?q1))"
    by (simp only: dispatch_input_source [OF ac cr] e2)
  show "\<not> el_disabled (elements (dispatch_input pf a q) ! h)"
    unfolding fin using b by (simp add: nth_update_el)
  show "el_value (elements (dispatch_input pf a q) ! h) = el_value (elements q ! h)"
    unfolding fin using b by (simp add: nth_update_el)
qed

lemma address_form_controls: "address_controls (address_form same src dst) (Suc 0) 0 2"
  by (simp add: address_controls_def address_form_def getElementById_def indices_def ctl_def)

lemma address_form_nth:
  "el_checked (address_form same src dst ! Suc 0) = same"
  "el_value (address_form same src dst ! 0) = js src"
  "el_value (address_form same src dst ! 2) = js dst"
  by (simp_all add: address_form_def ctl_def)

lemma main_street:
  "13 \<notin> set (js ''123 Main St'')"
  "limit_lines 2 (js ''123 Main St'') = js ''123 Main St''"
  "limit_lines 7 (js ''123 Main St'') = js ''123 Main St''"
  "normalize_newlines (js ''123 Main St'') = js ''123 Main St''"
  "toUpperCase sample_platform (js ''123 Main St'') = js ''123 MAIN ST''"
  "normalize_newlines (js ''123 MAIN ST'') = js ''123 MAIN ST''"
  "13 \<notin> set (js ''123 MAIN ST'')"
  by (simp_all add: sample_platform_def limit_lines_def Let_def js_def ascii_upper_def)

theorem same_as_toggle_mirrors_address_witness:
  "address_controls (elements (sample_page (address_form True ''123 Main St'' []))) 1 0 2 \<and>
   el_checked (elements (sample_page (address_form True ''123 Main St'' [])) ! 1) \<and>
   13 \<notin> set (el_value (elements (sample_page (address_form True ''123 Main St'' [])) ! 0)) \<and>
   el_value (elements (dispatch_input sample_platform 0
                   (sample_page (address_form True ''123 Main St'' []))) ! 2) = js ''123 MAIN ST'' \<and>
   el_value (elements (dispatch_input sample_platform 0
                   (sample_page (address_form True ''123 Main St'' []))) ! 0) = js ''123 MAIN ST'' \<and>
   el_disabled (elements (dispatch_input sample_platform 0
                   (sample_page (address_form True ''123 Main St'' []))) ! 2) \<and>
   el_disabled (elements (dispatch_change sample_platform 1
                   (sample_page (address_form True ''123 Main St'' []))) ! 2) \<and>
   el_value (elements (dispatch_change sample_platform 1
                   (sample_page (address_form True ''123 Main St'' []))) ! 2) = js ''123 MAIN ST'' \<and>
   address_controls (elements (sample_page (address_form False ''123 MAIN ST'' ''PO BOX 1''))) 1 0 2 \<and>
   \<not> el_checked (elements (sample_page (address_form False ''123 MAIN ST'' ''PO BOX 1'')) ! 1) \<and>
   13 \<notin> set (el_value (elements (sample_page (address_form False ''123 MAIN ST'' ''PO BOX 1'')) ! 0)) \<and>
   \<not> el_disabled (elements (dispatch_change sample_platform 1
                   (sample_page (address_form False ''123 MAIN ST'' ''PO BOX 1''))) ! 2) \<and>
   el_value (elements (dispatch_change sample_platform 1
                   (sample_page (address_form False ''123 MAIN ST'' ''PO BOX 1''))) ! 2) = js ''PO BOX 1'' \<and>
   el_value (elements (dispatch_input sample_platform 0
                   (sample_page (address_form False ''123 MAIN ST'' ''PO BOX 1''))) ! 2) = js ''PO BOX 1''"
proof -
  have e: "\<And>els. elements (sample_page els) = els" by (simp add: sample_page_def)
  from same_as_toggle_mirrors_address
    [of "sample_page (address_form True ''123 Main St'' [])" 1 0 2 sample_platform
        "sample_page (address_form False ''123 MAIN ST'' ''PO BOX 1'')"]
  show ?thesis
    by (simp add: e address_form_controls address_form_nth main_street)
qed

section \<open>The bulk default action\<close>

lemma static_cong:
  assumes "map static E = map static els" and f: "\<And>e e'. static e = static e' \<Longrightarrow> f e = f e'"
  shows "map f E = map f els"
  using assms(1)
proof (induction E arbitrary: els)
  case Nil
  then show ?case by simp
next
  case (Cons e E)
  then obtain e' els' where els: "els = e' # els'" by (cases els) auto
  with Cons.prems have "static e = static e'" "map static E = map static els'" by simp_all
  then have "f e = f e'" and "map f E = map f els'"
    using f [of e e'] Cons.IH [of els'] by simp_all
  with els show ?case by simp
qed

lemma static_shape: "map static E = map static els \<Longrightarrow> map shape E = map shape els"
  by (rule static_cong) (auto simp: static_def)

lemma static_length: "map static E = map static els \<Longrightarrow> length E = length els"
  by (rule map_eq_imp_length_eq)

lemma static_nth:
  assumes "map static E = map static els" "i < length els"
  shows "static (E ! i) = static (els ! i)"
proof -
  have "length E = length els" using assms(1) by (rule static_length)
  with assms(2) have "static (E ! i) = map static E ! i" by simp
  also have "\<dots> = map static els ! i" by (simp only: assms(1))
  also have "\<dots> = static (els ! i)" using assms(2) by simp
  finally show ?thesis .
qed

lemma static_fields:
  assumes "map static E = map static els" "i < length els"
  shows "el_id (E ! i) = el_id (els ! i)" "el_name (E ! i) = el_name (els ! i)"
    "el_kind (E ! i) = el_kind (els ! i)" "el_value (E ! i) = el_value (els ! i)"
    "prohibitor_no (E ! i) = prohibitor_no (els ! i)"
    "matches nm (E ! i) = matches nm (els ! i)"
  using static_nth [OF assms]
  by (auto simp: static_def shape_def prohibitor_no_def matches_def)

lemma static_getElementById:
  assumes "map static E = map static els"
  shows "getElementById E i = getElementById els i"
proof -
  have "map (\<lambda>e. el_id e = i) E = map (\<lambda>e. el_id e = i) els"
    using assms by (rule static_cong) (auto simp: static_def shape_def)
  then have "indices (\<lambda>e. el_id e = i) E = indices (\<lambda>e. el_id e = i) els"
    by (rule indices_cong)
  then show ?thesis by (simp add: getElementById_def)
qed

lemma static_indices_prohibitor:
  assumes "map static E = map static els"
  shows "indices prohibitor_no E = indices prohibitor_no els"
proof -
  have "map prohibitor_no E = map prohibitor_no els"
    using assms by (rule static_cong) (auto simp: static_def shape_def prohibitor_no_def)
  then show ?thesis by (rule indices_cong)
qed

lemma static_is_member:
  assumes "map static E = map static els"
  shows "is_member E nm i = is_member els nm i"
  using same_shape_namedItem [OF static_shape [OF assms], of nm]
  by (simp add: is_member_def radio_list_def)

lemma static_update_el:
  "static (f (E ! i)) = static (E ! i) \<Longrightarrow> map static (update_el i f E) = map static E"
  by (rule map_update_el_same)

lemma static_uncheck_map:
  "map static (map (\<lambda>e. if g e then e\<lparr>el_checked := False\<rparr> else e) E) = map static E"
  by (induction E) (auto simp: static_def shape_def)

lemma set_checked_True_Radio:
  "el_kind (E ! r) = Radio \<Longrightarrow> el_name (E ! r) \<noteq> [] \<Longrightarrow>
   set_checked r True E =
     update_el r (\<lambda>e. e\<lparr>el_checked := True\<rparr>)
       (map (\<lambda>e. if el_kind e = Radio \<and> el_name e = el_name (E ! r)
                  then e\<lparr>el_checked := False\<rparr> else e) E)"
  by (simp add: set_checked_def)

lemma set_checked_plain:
  "\<not> (b \<and> el_kind (E ! r) = Radio \<and> el_name (E ! r) \<noteq> []) \<Longrightarrow>
   set_checked r b E = update_el r (\<lambda>e. e\<lparr>el_checked := b\<rparr>) E"
  unfolding set_checked_def by (rule if_not_P)

lemma static_set_checked [simp]: "map static (set_checked r b E) = map static E"
proof (cases "b \<and> el_kind (E ! r) = Radio \<and> el_name (E ! r) \<noteq> []")
  case True
  then have "set_checked r b E =
     update_el r (\<lambda>e. e\<lparr>el_checked := True\<rparr>)
       (map (\<lambda>e. if el_kind e = Radio \<and> el_name e = el_name (E ! r)
                  then e\<lparr>el_checked := False\<rparr> else e) E)"
    using set_checked_True_Radio [of E r] by simp
  moreover have "\<And>xs. map static (update_el r (\<lambda>e. e\<lparr>el_checked := True\<rparr>) xs) = map static xs"
    by (rule static_update_el) (simp add: static_def shape_def)
  ultimately show ?thesis by (simp only: static_uncheck_map)
next
  case False
  then have "set_checked r b E = update_el r (\<lambda>e. e\<lparr>el_checked := b\<rparr>) E"
    by (rule set_checked_plain)
  moreover have "map static (update_el r (\<lambda>e. e\<lparr>el_checked := b\<rparr>) E) = map static E"
    by (rule static_update_el) (simp add: static_def shape_def)
  ultimately show ?thesis by simp
qed

lemma checked_set_checked_True:
  assumes "r < length E" "j < length E" "el_kind (E ! r) = Radio"
  shows "el_checked (set_checked r True E ! j) \<longleftrightarrow>
     j = r \<or> (\<not> (el_name (E ! r) \<noteq> [] \<and> el_kind (E ! j) = Radio \<and> el_name (E ! j) = el_name (E ! r))
              \<and> el_checked (E ! j))"
proof (cases "el_name (E ! r) = []")
  case True
  then have "set_checked r True E = update_el r (\<lambda>e. e\<lparr>el_checked := True\<rparr>) E"
    by (intro set_checked_plain) simp
  with assms True show ?thesis by (simp add: nth_update_el)
next
  case False
  with assms show ?thesis
    by (simp add: set_checked_True_Radio nth_update_el)
qed

lemma disabled_set_checked:
  assumes "j < length E"
  shows "el_disabled (set_checked r b E ! j) = el_disabled (E ! j)"
proof (cases "b \<and> el_kind (E ! r) = Radio \<and> el_name (E ! r) \<noteq> []")
  case True
  with assms show ?thesis
    by (cases "r < length E") (simp_all add: set_checked_True_Radio update_el_def nth_list_update)
next
  case False
  then have "set_checked r b E = update_el r (\<lambda>e. e\<lparr>el_checked := b\<rparr>) E"
    by (rule set_checked_plain)
  with assms show ?thesis
    by (cases "r < length E") (simp_all add: update_el_def nth_list_update)
qed

lemma nonradio_set_checked:
  assumes "j < length E" "el_kind (E ! j) \<noteq> Radio" "el_kind (E ! r) = Radio"
  shows "set_checked r b E ! j = E ! j"
proof (cases "b \<and> el_kind (E ! r) = Radio \<and> el_name (E ! r) \<noteq> []")
  case True
  with assms show ?thesis
    by (cases "r < length E") (auto simp: set_checked_True_Radio update_el_def nth_list_update)
next
  case False
  then have "set_checked r b E = update_el r (\<lambda>e. e\<lparr>el_checked := b\<rparr>) E"
    by (rule set_checked_plain)
  with assms show ?thesis
    by (cases "r < length E") (auto simp: update_el_def nth_list_update)
qed

lemma distinct_filter_nth:
  "distinct (map f (filter P xs)) \<Longrightarrow> i < length xs \<Longrightarrow> j < length xs \<Longrightarrow>
   P (xs ! i) \<Longrightarrow> P (xs ! j) \<Longrightarrow> f (xs ! i) = f (xs ! j) \<Longrightarrow> i = j"
proof (induction xs arbitrary: i j)
  case Nil
  then show ?case by simp
next
  case (Cons x xs)
  have mem: "\<And>k. k < length xs \<Longrightarrow> P (xs ! k) \<Longrightarrow> f (xs ! k) \<in> f ` set (filter P xs)"
    by auto
  show ?case
  proof (cases i)
    case 0
    show ?thesis
    proof (cases j)
      case 0
      with \<open>i = 0\<close> show ?thesis by simp
    next
      case (Suc j')
      with 0 Cons.prems mem [of j'] show ?thesis by auto
    qed
  next
    case (Suc i')
    show ?thesis
    proof (cases j)
      case 0
      with Suc Cons.prems mem [of i'] show ?thesis by auto
    next
      case (Suc j')
      have "distinct (map f (filter P xs))" using Cons.prems(1) by (simp split: if_splits)
      from Cons.IH [OF this, of i' j'] Cons.prems Suc \<open>i = Suc i'\<close> show ?thesis by simp
    qed
  qed
qed

lemma is_member_two:
  assumes "i < length E" "j < length E" "i \<noteq> j" "matches nm (E ! i)" "matches nm (E ! j)" "nm \<noteq> []"
  shows "is_member E nm i"
proof -
  have s: "i \<in> set (indices (matches nm) E)" "j \<in> set (indices (matches nm) E)"
    using assms by (simp_all add: indices_set)
  show ?thesis
  proof (cases "indices (matches nm) E")
    case Nil
    with s show ?thesis by simp
  next
    case (Cons a as)
    show ?thesis
    proof (cases as)
      case Nil
      with Cons s assms(3) show ?thesis by simp
    next
      case (Cons b bs)
      with \<open>indices (matches nm) E = a # as\<close> s(1) assms(6) show ?thesis
        by (simp add: is_member_def radio_list_def namedItem_def)
    qed
  qed
qed

lemma set_checked_nth:
  assumes "r < length E" "j < length E" "el_kind (E ! r) = Radio"
  shows "set_checked r True E ! j =
     (E ! j)\<lparr>el_checked :=
        (j = r \<or> (\<not> (el_name (E ! r) \<noteq> [] \<and> el_kind (E ! j) = Radio \<and> el_name (E ! j) = el_name (E ! r))
                 \<and> el_checked (E ! j)))\<rparr>"
proof (cases "el_name (E ! r) = []")
  case True
  then have "set_checked r True E = update_el r (\<lambda>e. e\<lparr>el_checked := True\<rparr>) E"
    by (intro set_checked_plain) simp
  with assms True show ?thesis by (simp add: nth_update_el)
next
  case False
  with assms show ?thesis
    by (simp add: set_checked_True_Radio nth_update_el)
qed

lemma updateQ6m2_no:
  assumes "getElementById (elements p) (js ''q6m1-yes'') = Some y"
    "getElementById (elements p) (js ''q6m1-no'') = Some n"
    "getElementById (elements p) (js ''q6m2-yes'') = Some my"
    "getElementById (elements p) (js ''q6m2-no'') = Some mn"
    "getElementById (elements p) (js ''q6m2-na'') = Some ma"
    "\<not> el_checked (elements p ! y)" "el_checked (elements p ! n)"
  shows "updateQ6m2 p =
     Ok (p\<lparr>elements :=
            set_checked ma True
              (update_el ma (\<lambda>e. e\<lparr>el_disabled := False\<rparr>)
                (update_el mn (\<lambda>e. e\<lparr>el_disabled := True\<rparr>)
                  (update_el my (\<lambda>e. e\<lparr>el_disabled := True\<rparr>) (elements p))))\<rparr>)"
  using assms
  by (simp add: updateQ6m2_def with_id_def Let_def modify_def check_el_def getElementById_update_el)

lemma dispatch_change_quiet:
  assumes "r < length (elements p)"
    "el_id (elements p ! r) \<noteq> js ''q3a_sameAs2''" "el_id (elements p ! r) \<noteq> js ''q9a_other''"
    "\<not> matches (js ''q4a_firearmType'') (elements p ! r)"
    "\<not> matches (js ''q8_hasUpin'') (elements p ! r)"
    "\<not> matches (js ''q9c_birthCountry'') (elements p ! r)"
    "\<not> is_member (elements p) (js ''q6m1_nonimmigrant'') r"
  shows "elements (dispatch_change pf r p) = elements p"
proof -
  have g: "getElementById (elements p) (js ''q3a_sameAs2'') \<noteq> Some r"
    "getElementById (elements p) (js ''q9a_other'') \<noteq> Some r"
    using assms(2,3) by (auto dest: getElementById_Some)
  have m: "\<not> is_member (elements p) (js ''q4a_firearmType'') r"
    "\<not> is_member (elements p) (js ''q8_hasUpin'') r"
    "\<not> is_member (elements p) (js ''q9c_birthCountry'') r"
    using assms(4,5,6) by (auto dest: is_member_matches)
  show ?thesis
    by (simp add: dispatch_change_def Let_def listener_if_def g m assms(7))
qed

lemma dispatch_change_q6m1:
  assumes "r < length (elements p)"
    "el_id (elements p ! r) \<noteq> js ''q3a_sameAs2''" "el_id (elements p ! r) \<noteq> js ''q9a_other''"
    "\<not> matches (js ''q4a_firearmType'') (elements p ! r)"
    "\<not> matches (js ''q8_hasUpin'') (elements p ! r)"
    "\<not> matches (js ''q9c_birthCountry'') (elements p ! r)"
    "is_member (elements p) (js ''q6m1_nonimmigrant'') r"
  shows "elements (dispatch_change pf r p) = elements (listener updateQ6m2 p)"
proof -
  have g: "getElementById (elements p) (js ''q3a_sameAs2'') \<noteq> Some r"
    "getElementById (elements p) (js ''q9a_other'') \<noteq> Some r"
    using assms(2,3) by (auto dest: getElementById_Some)
  have m: "\<not> is_member (elements p) (js ''q4a_firearmType'') r"
    "\<not> is_member (elements p) (js ''q8_hasUpin'') r"
    "\<not> is_member (elements p) (js ''q9c_birthCountry'') r"
    using assms(4,5,6) by (auto dest: is_member_matches)
  show ?thesis
    by (simp add: dispatch_change_def Let_def listener_if_def g m assms(7))
qed

lemma static_disable [simp]:
  "map static (update_el k (\<lambda>e. e\<lparr>el_disabled := b\<rparr>) E) = map static E"
  by (rule static_update_el) (simp add: static_def shape_def)

lemma holds_group_set_checked_self:
  assumes "r < length E" "el_kind (E ! r) = Radio"
  shows "holds_group (set_checked r True E) r"
  unfolding holds_group_def using assms
  by (auto simp: set_checked_nth)

lemma holds_group_set_checked_other:
  assumes "r < length E" "i < length E" "el_kind (E ! r) = Radio" "holds_group E i"
    "el_name (E ! i) \<noteq> el_name (E ! r)"
  shows "holds_group (set_checked r True E) i"
proof -
  have ir: "i \<noteq> r" using assms(5) by auto
  have c: "el_checked (E ! i)"
    and o: "\<And>j. j < length E \<Longrightarrow> j \<noteq> i \<Longrightarrow> el_kind (E ! j) = Radio \<Longrightarrow> el_name (E ! i) \<noteq> [] \<Longrightarrow>
        el_name (E ! j) = el_name (E ! i) \<Longrightarrow> \<not> el_checked (E ! j)"
    using assms(4) by (auto simp: holds_group_def)
  have "el_checked (set_checked r True E ! i)"
    using assms(1,2,3,5) c ir by (simp add: set_checked_nth)
  moreover have "\<not> el_checked (set_checked r True E ! j)"
    if "j < length E" "j \<noteq> i" "el_kind (set_checked r True E ! j) = Radio"
       "el_name (set_checked r True E ! i) \<noteq> []"
       "el_name (set_checked r True E ! j) = el_name (set_checked r True E ! i)" for j
  proof -
    from that assms(1,2,3) have k: "el_kind (E ! j) = Radio" "el_name (E ! i) \<noteq> []"
      "el_name (E ! j) = el_name (E ! i)"
      by (simp_all add: set_checked_nth)
    then have "j \<noteq> r" using assms(5) by auto
    with that(1,2) k assms(1,3) o [of j] show ?thesis by (simp add: set_checked_nth)
  qed
  ultimately show ?thesis by (simp add: holds_group_def)
qed

lemma holds_group_disable:
  assumes "holds_group E i" "i < length E"
  shows "holds_group (update_el k (\<lambda>e. e\<lparr>el_disabled := b\<rparr>) E) i"
proof -
  have n: "\<And>j. j < length E \<Longrightarrow>
      update_el k (\<lambda>e. e\<lparr>el_disabled := b\<rparr>) E ! j = (if j = k then (E ! j)\<lparr>el_disabled := b\<rparr> else E ! j)"
    by (simp add: nth_update_el)
  have f: "\<And>j. j < length E \<Longrightarrow>
      el_checked (update_el k (\<lambda>e. e\<lparr>el_disabled := b\<rparr>) E ! j) = el_checked (E ! j) \<and>
      el_kind (update_el k (\<lambda>e. e\<lparr>el_disabled := b\<rparr>) E ! j) = el_kind (E ! j) \<and>
      el_name (update_el k (\<lambda>e. e\<lparr>el_disabled := b\<rparr>) E ! j) = el_name (E ! j)"
    by (simp add: n)
  from assms f show ?thesis by (auto simp: holds_group_def)
qed

lemma prohibitor_controls_facts:
  assumes "prohibitor_controls els y n my mn ma"
  shows "y < length els" "n < length els" "my < length els" "mn < length els" "ma < length els"
    "y \<noteq> n" "my \<noteq> mn" "my \<noteq> ma" "mn \<noteq> ma"
    "el_kind (els ! y) = Radio" "el_kind (els ! n) = Radio" "el_kind (els ! my) = Radio"
    "el_kind (els ! mn) = Radio" "el_kind (els ! ma) = Radio"
    "el_name (els ! y) = js ''q6m1_nonimmigrant''" "el_name (els ! n) = js ''q6m1_nonimmigrant''"
    "el_name (els ! my) = js ''q6m2_exception''" "el_name (els ! mn) = js ''q6m2_exception''"
    "el_name (els ! ma) = js ''q6m2_exception''"
    "el_id (els ! ma) = js ''q6m2-na''" "prohibitor_no (els ! n)"
proof -
  from assms have g: "getElementById els (js ''q6m1-yes'') = Some y"
    "getElementById els (js ''q6m1-no'') = Some n"
    "getElementById els (js ''q6m2-yes'') = Some my"
    "getElementById els (js ''q6m2-no'') = Some mn"
    "getElementById els (js ''q6m2-na'') = Some ma"
    by (simp_all add: prohibitor_controls_def)
  show "y < length els" "n < length els" "my < length els" "mn < length els" "ma < length els"
    using g by (auto dest: getElementById_Some)
  have i: "el_id (els ! y) = js ''q6m1-yes''" "el_id (els ! n) = js ''q6m1-no''"
    "el_id (els ! my) = js ''q6m2-yes''" "el_id (els ! mn) = js ''q6m2-no''"
    "el_id (els ! ma) = js ''q6m2-na''"
    using g by (auto dest: getElementById_Some)
  then show "y \<noteq> n" "my \<noteq> mn" "my \<noteq> ma" "mn \<noteq> ma" "el_id (els ! ma) = js ''q6m2-na''" by auto
  show "el_kind (els ! y) = Radio" "el_kind (els ! n) = Radio" "el_kind (els ! my) = Radio"
    "el_kind (els ! mn) = Radio" "el_kind (els ! ma) = Radio"
    "el_name (els ! y) = js ''q6m1_nonimmigrant''" "el_name (els ! n) = js ''q6m1_nonimmigrant''"
    "el_name (els ! my) = js ''q6m2_exception''" "el_name (els ! mn) = js ''q6m2_exception''"
    "el_name (els ! ma) = js ''q6m2_exception''" "prohibitor_no (els ! n)"
    using assms by (simp_all add: prohibitor_controls_def)
qed

lemma prohibitor_controls_no:
  assumes "prohibitor_controls els y n my mn ma" "r < length els" "prohibitor_no (els ! r)"
  shows "q6_only (els ! r)" "el_kind (els ! r) = Radio"
    "\<And>i. i < length els \<Longrightarrow> prohibitor_no (els ! i) \<Longrightarrow> el_name (els ! i) = el_name (els ! r) \<Longrightarrow> i = r"
proof -
  from assms(1) have a: "list_all (\<lambda>e. prohibitor_no e \<longrightarrow> q6_only e) els"
    and d: "distinct (map el_name (filter prohibitor_no els))"
    by (simp_all add: prohibitor_controls_def)
  from a assms(2,3) show "q6_only (els ! r)" by (simp add: list_all_length)
  from assms(3) show "el_kind (els ! r) = Radio" by (simp add: prohibitor_no_def)
  show "\<And>i. i < length els \<Longrightarrow> prohibitor_no (els ! i) \<Longrightarrow> el_name (els ! i) = el_name (els ! r) \<Longrightarrow> i = r"
    using distinct_filter_nth [OF d _ assms(2) _ assms(3)] by blast
qed

lemma q6_only_fields:
  assumes "q6_only e" "static e' = static e"
  shows "el_id e' \<noteq> js ''q3a_sameAs2''" "el_id e' \<noteq> js ''q9a_other''"
    "\<not> matches (js ''q4a_firearmType'') e'" "\<not> matches (js ''q8_hasUpin'') e'"
    "\<not> matches (js ''q9c_birthCountry'') e'" "el_id e' \<noteq> js ''q6m1_nonimmigrant''"
  using assms by (auto simp: q6_only_def static_def shape_def matches_def)

lemma q6_exception_not_applicable:
  assumes S: "prohibitor_controls els y n my mn ma"
    and st: "map static E = map static els"
    and E2: "E2 = set_checked ma True
           (update_el ma (\<lambda>e. e\<lparr>el_disabled := False\<rparr>)
             (update_el mn (\<lambda>e. e\<lparr>el_disabled := True\<rparr>)
               (update_el my (\<lambda>e. e\<lparr>el_disabled := True\<rparr>) E)))"
  shows "map static E2 = map static els"
    and "el_disabled (E2 ! my)" "el_disabled (E2 ! mn)" "\<not> el_disabled (E2 ! ma)"
    and "\<And>i. i < length els \<Longrightarrow> holds_group E i \<Longrightarrow> el_name (els ! i) \<noteq> js ''q6m2_exception'' \<Longrightarrow>
           holds_group E2 i"
    and "\<And>j. j < length els \<Longrightarrow> el_kind (els ! j) \<noteq> Radio \<Longrightarrow> E2 ! j = E ! j"
proof -
  note F = prohibitor_controls_facts [OF S]
  let ?U1 = "update_el my (\<lambda>e. e\<lparr>el_disabled := True\<rparr>) E"
  let ?U2 = "update_el mn (\<lambda>e. e\<lparr>el_disabled := True\<rparr>) ?U1"
  let ?U = "update_el ma (\<lambda>e. e\<lparr>el_disabled := False\<rparr>) ?U2"
  have e2: "E2 = set_checked ma True ?U" by (simp only: E2)
  have len: "length E = length els" using st by (rule static_length)
  have stU: "map static ?U = map static els" using st by simp
  show st2: "map static E2 = map static els" unfolding e2 using st by simp
  have dU: "el_disabled (?U ! my)" "el_disabled (?U ! mn)" "\<not> el_disabled (?U ! ma)"
    using F(3-5,7-9) len by (simp_all add: nth_update_el)
  have lU: "length ?U = length els" using len by simp
  show "el_disabled (E2 ! my)" "el_disabled (E2 ! mn)" "\<not> el_disabled (E2 ! ma)"
    unfolding e2 using dU F(3-5) lU by (simp_all add: disabled_set_checked)
  have kU: "el_kind (?U ! ma) = Radio" "el_name (?U ! ma) = js ''q6m2_exception''"
    using static_fields [OF stU F(5)] F(14,19) by simp_all
  show "holds_group E2 i"
    if "i < length els" "holds_group E i" "el_name (els ! i) \<noteq> js ''q6m2_exception''" for i
  proof -
    have i: "i < length E" using that(1) len by simp
    have h1: "holds_group ?U1 i" by (rule holds_group_disable [OF that(2) i])
    have h2: "holds_group ?U2 i" by (rule holds_group_disable [OF h1]) (simp add: i)
    have "holds_group ?U i" by (rule holds_group_disable [OF h2]) (simp add: i)
    moreover have "el_name (?U ! i) \<noteq> el_name (?U ! ma)"
      using static_fields(2) [OF stU that(1)] kU(2) that(3) by simp
    ultimately show ?thesis
      unfolding e2 using F(5) that(1) lU kU(1) by (intro holds_group_set_checked_other) simp_all
  qed
  show "E2 ! j = E ! j" if "j < length els" "el_kind (els ! j) \<noteq> Radio" for j
  proof -
    have "el_kind (?U ! j) \<noteq> Radio" using static_fields(3) [OF stU that(1)] that(2) by simp
    then have "E2 ! j = ?U ! j"
      unfolding e2 using that(1) lU kU(1) by (intro nonradio_set_checked) simp_all
    moreover have "j \<noteq> my" "j \<noteq> mn" "j \<noteq> ma" using that(2) F(12-14) by auto
    ultimately show ?thesis using that(1) len by (simp add: nth_update_el)
  qed
qed

lemma q6_step_inv:
  assumes S: "prohibitor_controls els y n my mn ma"
    and I: "q6_inv els n my mn ma done (elements p)"
    and r: "r < length els" "prohibitor_no (els ! r)"
    and dn: "done \<subseteq> {i. i < length els \<and> prohibitor_no (els ! i)}"
  shows "q6_inv els n my mn ma (insert r done) (elements (q6_step pf r p))"
proof -
  note F = prohibitor_controls_facts [OF S]
  note R = prohibitor_controls_no [OF S r]
  let ?E = "elements p"
  let ?E1 = "set_checked r True ?E"
  let ?p1 = "p\<lparr>elements := ?E1\<rparr>"
  from I have st: "map static ?E = map static els"
    and hg: "\<And>i. i \<in> done \<Longrightarrow> el_name (els ! i) \<noteq> js ''q6m2_exception'' \<Longrightarrow> holds_group ?E i"
    and i3: "n \<in> done \<Longrightarrow> el_disabled (?E ! my) \<and> el_disabled (?E ! mn) \<and> \<not> el_disabled (?E ! ma)"
    and fr: "\<And>j. j < length els \<Longrightarrow> el_kind (els ! j) \<noteq> Radio \<Longrightarrow> ?E ! j = els ! j"
    by (simp_all add: q6_inv_def)
  have len: "length ?E = length els" using st by (rule static_length)
  have st1: "map static ?E1 = map static els" using st by simp
  have len1: "length ?E1 = length els" using st1 by (rule static_length)
  note f0 = static_fields [OF st]
  note f1 = static_fields [OF st1]
  have kr: "el_kind (?E ! r) = Radio" using f0(3) [OF r(1)] R(2) by simp
  have rE: "r < length ?E" using r(1) len by simp
  have hg1: "holds_group ?E1 i"
    if "i \<in> insert r done" "el_name (els ! i) \<noteq> js ''q6m2_exception''" for i
  proof (cases "i = r")
    case True
    then show ?thesis using holds_group_set_checked_self [OF rE kr] by simp
  next
    case False
    with that(1) have d: "i \<in> done" by simp
    with dn have i: "i < length els" "prohibitor_no (els ! i)" by auto
    have "el_name (els ! i) \<noteq> el_name (els ! r)" using R(3) [OF i] False by blast
    then have "el_name (?E ! i) \<noteq> el_name (?E ! r)"
      using f0(2) [OF i(1)] f0(2) [OF r(1)] by simp
    moreover have "i < length ?E" using i(1) len by simp
    ultimately show ?thesis
      using hg [OF d that(2)] rE kr by (intro holds_group_set_checked_other) simp_all
  qed
  have d1: "\<And>j. j < length els \<Longrightarrow> el_disabled (?E1 ! j) = el_disabled (?E ! j)"
    using len by (simp add: disabled_set_checked)
  have fr1: "?E1 ! j = els ! j" if "j < length els" "el_kind (els ! j) \<noteq> Radio" for j
  proof -
    have "el_kind (?E ! j) \<noteq> Radio" using f0(3) [OF that(1)] that(2) by simp
    then have "?E1 ! j = ?E ! j" using that(1) len kr by (intro nonradio_set_checked) simp_all
    with fr [OF that] show ?thesis by simp
  qed
  have sr: "static (?E1 ! r) = static (els ! r)" using st1 r(1) by (rule static_nth)
  note q = q6_only_fields [OF R(1) sr]
  have r1: "r < length (elements ?p1)" using r(1) len1 by simp
  show ?thesis
  proof (cases "r = n")
    case True
    have "is_member ?E1 (js ''q6m1_nonimmigrant'') n"
    proof (rule is_member_two [of n _ y])
      show "n < length ?E1" "y < length ?E1" using F(1,2) len1 by simp_all
      show "n \<noteq> y" using F(6) by simp
      show "matches (js ''q6m1_nonimmigrant'') (?E1 ! n)" "matches (js ''q6m1_nonimmigrant'') (?E1 ! y)"
        using f1(2) [OF F(1)] f1(2) [OF F(2)] F(15,16) by (simp_all add: matches_def)
      show "js ''q6m1_nonimmigrant'' \<noteq> []" by simp
    qed
    with True have mem: "is_member (elements ?p1) (js ''q6m1_nonimmigrant'') r" by simp
    have dc: "elements (q6_step pf r p) = elements (listener updateQ6m2 ?p1)"
      unfolding q6_step_def using r1 q mem
      by (intro dispatch_change_q6m1) simp_all
    have g: "getElementById (elements ?p1) (js ''q6m1-yes'') = Some y"
      "getElementById (elements ?p1) (js ''q6m1-no'') = Some n"
      "getElementById (elements ?p1) (js ''q6m2-yes'') = Some my"
      "getElementById (elements ?p1) (js ''q6m2-no'') = Some mn"
      "getElementById (elements ?p1) (js ''q6m2-na'') = Some ma"
      using S by (simp_all add: static_getElementById [OF st1] prohibitor_controls_def)
    have ny: "\<not> el_checked (elements ?p1 ! y)"
      using True rE kr F(1,6,10,15,16) len f0(2) [OF F(1)] f0(2) [OF F(2)] f0(3) [OF F(1)]
      by (simp add: set_checked_nth)
    have cn: "el_checked (elements ?p1 ! n)"
      using True rE kr by (simp add: set_checked_nth)
    let ?E2 = "set_checked ma True
           (update_el ma (\<lambda>e. e\<lparr>el_disabled := False\<rparr>)
             (update_el mn (\<lambda>e. e\<lparr>el_disabled := True\<rparr>)
               (update_el my (\<lambda>e. e\<lparr>el_disabled := True\<rparr>) ?E1)))"
    have e2: "elements (q6_step pf r p) = ?E2"
      by (simp add: dc listener_def updateQ6m2_no [OF g ny cn])
    note X = q6_exception_not_applicable [OF S st1 refl [of ?E2]]
    have "holds_group ?E2 i"
      if "i \<in> insert r done" "el_name (els ! i) \<noteq> js ''q6m2_exception''" for i
    proof -
      have "i < length els" using that(1) dn r(1) by auto
      from X(5) [OF this hg1 [OF that] that(2)] show ?thesis .
    qed
    moreover have "?E2 ! j = els ! j" if "j < length els" "el_kind (els ! j) \<noteq> Radio" for j
      using X(6) [OF that] fr1 [OF that] by simp
    ultimately show ?thesis
      unfolding q6_inv_def e2 using X(1-4) by blast
  next
    case False
    have "\<not> is_member ?E1 (js ''q6m1_nonimmigrant'') r"
    proof
      assume "is_member ?E1 (js ''q6m1_nonimmigrant'') r"
      then have "matches (js ''q6m1_nonimmigrant'') (?E1 ! r)" by (rule is_member_matches)
      with q(6) have "el_name (?E1 ! r) = js ''q6m1_nonimmigrant''" by (simp add: matches_def)
      then have "el_name (els ! n) = el_name (els ! r)" using f1(2) [OF r(1)] F(16) by simp
      from R(3) [OF F(2) F(21) this] False show False by simp
    qed
    then have e2: "elements (q6_step pf r p) = ?E1"
      unfolding q6_step_def using r1 q
      by (subst dispatch_change_quiet) simp_all
    have "n \<in> insert r done \<Longrightarrow> n \<in> done" using False by auto
    with i3 d1 F(3-5) have
      "n \<in> insert r done \<Longrightarrow> el_disabled (?E1 ! my) \<and> el_disabled (?E1 ! mn) \<and> \<not> el_disabled (?E1 ! ma)"
      by simp
    with st1 hg1 fr1 show ?thesis
      unfolding q6_inv_def e2 by blast
  qed
qed

lemma for_each_check_and_notify:
  "for_each (check_and_notify pf) L p = Ok (fold (q6_step pf) L p)"
  by (induction L arbitrary: p) (simp_all add: check_and_notify_def q6_step_def)

lemma q6_loop_inv:
  assumes S: "prohibitor_controls els y n my mn ma"
  shows "q6_inv els n my mn ma done (elements p) \<Longrightarrow>
     done \<subseteq> {i. i < length els \<and> prohibitor_no (els ! i)} \<Longrightarrow>
     set L \<subseteq> {i. i < length els \<and> prohibitor_no (els ! i)} \<Longrightarrow>
     q6_inv els n my mn ma (done \<union> set L) (elements (fold (q6_step pf) L p))"
proof (induction L arbitrary: p "done")
  case Nil
  then show ?case by simp
next
  case (Cons r L)
  from Cons.prems(3) have r: "r < length els" "prohibitor_no (els ! r)" by simp_all
  have "q6_inv els n my mn ma (insert r done) (elements (q6_step pf r p))"
    using S Cons.prems(1) r Cons.prems(2) by (rule q6_step_inv)
  moreover have "insert r done \<subseteq> {i. i < length els \<and> prohibitor_no (els ! i)}"
    using Cons.prems(2) r by simp
  moreover have "set L \<subseteq> {i. i < length els \<and> prohibitor_no (els ! i)}"
    using Cons.prems(3) by simp
  ultimately have "q6_inv els n my mn ma (insert r done \<union> set L)
      (elements (fold (q6_step pf) L (q6_step pf r p)))"
    by (rule Cons.IH)
  then show ?case by simp
qed

lemma set_checked_holder:
  assumes "r < length E" "el_kind (E ! r) = Radio" "holds_group E r"
  shows "set_checked r True E = E"
proof (rule nth_equalityI)
  show "length (set_checked r True E) = length E" by simp
  fix j assume "j < length (set_checked r True E)"
  then have j: "j < length E" by simp
  have "(j = r \<or> (\<not> (el_name (E ! r) \<noteq> [] \<and> el_kind (E ! j) = Radio \<and> el_name (E ! j) = el_name (E ! r))
                 \<and> el_checked (E ! j))) = el_checked (E ! j)"
    using assms(3) j by (auto simp: holds_group_def)
  then show "set_checked r True E ! j = E ! j"
    by (simp add: set_checked_nth [OF assms(1) j assms(2)])
qed

lemma disable_same: "el_disabled (E ! k) = b \<Longrightarrow> update_el k (\<lambda>e. e\<lparr>el_disabled := b\<rparr>) E = E"
  by (rule update_el_same) auto

text \<open>
  C5.  With the prohibitor controls in place, the click handler of the bulk action returns, and
  afterwards: every \<open>NO\<close> radio of the prohibitors section outside the exception group holds
  the value of its group; \<open>q6m2-na\<close> holds the value of the exception group and is enabled while
  \<open>q6m2-yes\<close> and \<open>q6m2-no\<close> are disabled; only checkedness and enabledness of radios have
  changed; and \<open>updateQ6m2\<close> run once more changes nothing, so the dependent group is in the
  state its rule prescribes.
\<close>

theorem bulk_default_sets_prohibitors:
  assumes S: "prohibitor_controls (elements p) y n my mn ma"
    and C: "js ''q6_prohibitors'' \<in> set (containers p)"
  shows "\<exists>p'. q6AllNo_click pf p = Ok p' \<and>
      map static (elements p') = map static (elements p) \<and>
      (\<forall>i < length (elements p).
          prohibitor_no (elements p ! i) \<and> el_name (elements p ! i) \<noteq> js ''q6m2_exception'' \<longrightarrow>
          holds_group (elements p') i) \<and>
      holds_group (elements p') ma \<and> \<not> el_disabled (elements p' ! ma) \<and>
      el_disabled (elements p' ! my) \<and> el_disabled (elements p' ! mn) \<and>
      (\<forall>j < length (elements p). el_kind (elements p ! j) \<noteq> Radio \<longrightarrow> elements p' ! j = elements p ! j) \<and>
      updateQ6m2 p' = Ok p'"
proof -
  let ?els = "elements p"
  let ?L = "indices prohibitor_no ?els"
  let ?p2 = "fold (q6_step pf) ?L p"
  let ?E = "elements ?p2"
  let ?p' = "q6_step pf ma ?p2"
  let ?E' = "elements ?p'"
  note F = prohibitor_controls_facts [OF S]
  have L: "set ?L = {i. i < length ?els \<and> prohibitor_no (?els ! i)}" by (rule indices_set)
  have "q6_inv ?els n my mn ma {} ?els" by (simp add: q6_inv_def)
  from q6_loop_inv [OF S this, of ?L pf] L
  have inv: "q6_inv ?els n my mn ma (set ?L) ?E" by simp
  then have st: "map static ?E = map static ?els"
    and hg: "\<And>i. i \<in> set ?L \<Longrightarrow> el_name (?els ! i) \<noteq> js ''q6m2_exception'' \<Longrightarrow> holds_group ?E i"
    and i3: "n \<in> set ?L \<Longrightarrow> el_disabled (?E ! my) \<and> el_disabled (?E ! mn) \<and> \<not> el_disabled (?E ! ma)"
    and fr: "\<And>j. j < length ?els \<Longrightarrow> el_kind (?els ! j) \<noteq> Radio \<Longrightarrow> ?E ! j = ?els ! j"
    by (simp_all add: q6_inv_def)
  have len: "length ?E = length ?els" using st by (rule static_length)
  note f = static_fields [OF st]
  have nL: "n \<in> set ?L" using F(2,21) by (simp add: L)
  have g: "getElementById ?E (js ''q6m2-na'') = Some ma"
    using S by (simp add: static_getElementById [OF st] prohibitor_controls_def)
  have click: "q6AllNo_click pf p = Ok ?p'"
    using C g
    by (simp add: q6AllNo_click_def for_each_check_and_notify with_id_def check_and_notify_def
          q6_step_def)
  let ?E1 = "set_checked ma True ?E"
  have st1: "map static ?E1 = map static ?els" using st by simp
  have len1: "length ?E1 = length ?els" using st1 by (rule static_length)
  note f1 = static_fields [OF st1]
  have "\<not> is_member ?E1 (js ''q6m1_nonimmigrant'') ma"
    using f1(1) [OF F(5)] f1(2) [OF F(5)] F(19,20)
    by (auto dest!: is_member_matches simp: matches_def)
  then have "elements (dispatch_change pf ma (?p2\<lparr>elements := ?E1\<rparr>)) = ?E1"
    using f1(1) [OF F(5)] f1(2) [OF F(5)] F(5,19,20) len1
    by (subst dispatch_change_quiet) (simp_all add: matches_def)
  then have e': "?E' = ?E1" by (simp add: q6_step_def)
  have kma: "el_kind (?E ! ma) = Radio" "el_name (?E ! ma) = js ''q6m2_exception''"
    using f(3) [OF F(5)] f(2) [OF F(5)] F(14,19) by simp_all
  have maE: "ma < length ?E" using F(5) len by simp
  have h1: "holds_group ?E' i"
    if "i < length ?els" "prohibitor_no (?els ! i)" "el_name (?els ! i) \<noteq> js ''q6m2_exception''" for i
  proof -
    have "i \<in> set ?L" using that(1,2) by (simp add: L)
    then have "holds_group ?E i" using that(3) by (rule hg)
    moreover have "el_name (?E ! i) \<noteq> el_name (?E ! ma)"
      using f(2) [OF that(1)] kma(2) that(3) by simp
    moreover have "i < length ?E" using that(1) len by simp
    ultimately show ?thesis
      unfolding e' using maE kma(1) by (intro holds_group_set_checked_other) simp_all
  qed
  have h2: "holds_group ?E' ma"
    unfolding e' using maE kma(1) by (rule holds_group_set_checked_self)
  have d: "\<not> el_disabled (?E' ! ma)" "el_disabled (?E' ! my)" "el_disabled (?E' ! mn)"
    unfolding e' using i3 [OF nL] F(3-5) len by (simp_all add: disabled_set_checked)
  have fr': "?E' ! j = ?els ! j" if "j < length ?els" "el_kind (?els ! j) \<noteq> Radio" for j
  proof -
    have "el_kind (?E ! j) \<noteq> Radio" using f(3) [OF that(1)] that(2) by simp
    then have "?E1 ! j = ?E ! j" using that(1) len kma(1) by (intro nonradio_set_checked) simp_all
    with fr [OF that] show ?thesis by (simp add: e')
  qed
  have st': "map static ?E' = map static ?els" using st1 by (simp add: e')
  note f' = static_fields [OF st']
  have len': "length ?E' = length ?els" using st' by (rule static_length)
  have fixpoint: "updateQ6m2 ?p' = Ok ?p'"
  proof -
    have g': "getElementById ?E' (js ''q6m1-yes'') = Some y"
      "getElementById ?E' (js ''q6m1-no'') = Some n"
      "getElementById ?E' (js ''q6m2-yes'') = Some my"
      "getElementById ?E' (js ''q6m2-no'') = Some mn"
      "getElementById ?E' (js ''q6m2-na'') = Some ma"
      using S by (simp_all add: static_getElementById [OF st'] prohibitor_controls_def)
    have hn: "holds_group ?E' n" using F(2,16,21) by (intro h1) simp_all
    then have cn: "el_checked (?E' ! n)" by (simp add: holds_group_def)
    have ny: "\<not> el_checked (?E' ! y)"
      using hn F(1,6,10,15,16) f'(2) [OF F(1)] f'(2) [OF F(2)] f'(3) [OF F(1)] len'
      by (auto simp: holds_group_def)
    have u: "update_el ma (\<lambda>e. e\<lparr>el_disabled := False\<rparr>)
                (update_el mn (\<lambda>e. e\<lparr>el_disabled := True\<rparr>)
                  (update_el my (\<lambda>e. e\<lparr>el_disabled := True\<rparr>) ?E')) = ?E'"
      using d by (simp add: disable_same)
    have "set_checked ma True ?E' = ?E'"
      using F(5) len' f'(3) [OF F(5)] F(14) h2 by (intro set_checked_holder) simp_all
    with u show ?thesis by (simp add: updateQ6m2_no [OF g' ny cn])
  qed
  show ?thesis
    using click st' h1 h2 d fr' fixpoint by (intro exI [of _ ?p']) simp
qed

lemma q6_form_controls: "prohibitor_controls (q6_form yes exc) 2 3 4 5 6"
  by (simp add: prohibitor_controls_def q6_form_def getElementById_def indices_def ctl_def
        prohibitor_no_def q6_only_def matches_def)

lemma q6_form_facts:
  "length (q6_form yes exc) = 8"
  "prohibitor_no (q6_form yes exc ! Suc 0)" "el_name (q6_form yes exc ! Suc 0) = js ''q6a_intent''"
  "prohibitor_no (q6_form yes exc ! 3)" "el_name (q6_form yes exc ! 3) = js ''q6m1_nonimmigrant''"
  "el_kind (q6_form yes exc ! 7) = Text"
  "q6_form yes exc ! 7 = ctl ''q7_alienNumber'' ''q7_alienNumber'' Text ''A1'' False"
  by (simp_all add: q6_form_def ctl_def prohibitor_no_def)

theorem bulk_default_sets_prohibitors_witness:
  "prohibitor_controls (elements (sample_page (q6_form True True))) 2 3 4 5 6 \<and>
   js ''q6_prohibitors'' \<in> set (containers (sample_page (q6_form True True))) \<and>
   (\<exists>p'. q6AllNo_click sample_platform (sample_page (q6_form True True)) = Ok p' \<and>
      holds_group (elements p') 1 \<and> holds_group (elements p') 3 \<and> holds_group (elements p') 6 \<and>
      \<not> el_disabled (elements p' ! 6) \<and> el_disabled (elements p' ! 4) \<and> el_disabled (elements p' ! 5) \<and>
      elements p' ! 7 = ctl ''q7_alienNumber'' ''q7_alienNumber'' Text ''A1'' False \<and>
      updateQ6m2 p' = Ok p')"
proof -
  let ?p = "sample_page (q6_form True True)"
  have e: "elements ?p = q6_form True True" by (simp add: sample_page_def)
  have S: "prohibitor_controls (elements ?p) 2 3 4 5 6" by (simp only: e q6_form_controls)
  have C: "js ''q6_prohibitors'' \<in> set (containers ?p)" by (simp add: sample_page_def)
  from bulk_default_sets_prohibitors [OF S C, of sample_platform]
  obtain p' where p': "q6AllNo_click sample_platform ?p = Ok p'"
    and h: "\<And>i. i < length (elements ?p) \<Longrightarrow> prohibitor_no (elements ?p ! i) \<Longrightarrow>
              el_name (elements ?p ! i) \<noteq> js ''q6m2_exception'' \<Longrightarrow> holds_group (elements p') i"
    and m: "holds_group (elements p') 6" "\<not> el_disabled (elements p' ! 6)"
      "el_disabled (elements p' ! 4)" "el_disabled (elements p' ! 5)"
    and fr: "\<And>j. j < length (elements ?p) \<Longrightarrow> el_kind (elements ?p ! j) \<noteq> Radio \<Longrightarrow>
              elements p' ! j = elements ?p ! j"
    and u: "updateQ6m2 p' = Ok p'"
    by blast
  have "holds_group (elements p') 1" by (rule h) (simp_all add: e q6_form_facts)
  moreover have "holds_group (elements p') 3" by (rule h) (simp_all add: e q6_form_facts)
  moreover have "elements p' ! 7 = ctl ''q7_alienNumber'' ''q7_alienNumber'' Text ''A1'' False"
    using fr [of 7] by (simp add: e q6_form_facts) (simp add: ctl_def)
  ultimately show ?thesis using S C p' m u by blast
qed

end
